theory Spec2Isabelle
  imports Complex_Main "HOL-Library.Monad_Syntax"
begin

section \<open>Floating-point values and 3D vectors\<close>

text \<open>
  \<^verbatim>\<open>GLfloat\<close> is a 32-bit IEEE float. Rounding and overflow are abstracted: a finite
  float is a real number. Division by zero is kept: in C++ it does not trap but yields an
  infinity or a NaN, which every later operation propagates. \<open>NonFinite\<close> stands for
  both; it absorbs every arithmetic operation and every comparison with it is false
  (the only comparison of the simulation, in \<^verbatim>\<open>Sphere::contains\<close>, is on a magnitude,
  which is never negative infinity).
\<close>

datatype GLfloat = Fin real | NonFinite

instantiation GLfloat :: "{zero, one, plus, minus, times, inverse, ord}"
begin

definition zero_GLfloat :: GLfloat where
  "zero_GLfloat = Fin 0"

definition one_GLfloat :: GLfloat where
  "one_GLfloat = Fin 1"

fun plus_GLfloat :: "GLfloat \<Rightarrow> GLfloat \<Rightarrow> GLfloat" where
  "plus_GLfloat (Fin a) (Fin b) = Fin (a + b)"
| "plus_GLfloat _ _ = NonFinite"

fun minus_GLfloat :: "GLfloat \<Rightarrow> GLfloat \<Rightarrow> GLfloat" where
  "minus_GLfloat (Fin a) (Fin b) = Fin (a - b)"
| "minus_GLfloat _ _ = NonFinite"

fun times_GLfloat :: "GLfloat \<Rightarrow> GLfloat \<Rightarrow> GLfloat" where
  "times_GLfloat (Fin a) (Fin b) = Fin (a * b)"
| "times_GLfloat _ _ = NonFinite"

fun divide_GLfloat :: "GLfloat \<Rightarrow> GLfloat \<Rightarrow> GLfloat" where
  "divide_GLfloat (Fin a) (Fin b) = (if b = 0 then NonFinite else Fin (a / b))"
| "divide_GLfloat _ _ = NonFinite"

fun inverse_GLfloat :: "GLfloat \<Rightarrow> GLfloat" where
  "inverse_GLfloat (Fin a) = (if a = 0 then NonFinite else Fin (inverse a))"
| "inverse_GLfloat NonFinite = NonFinite"

fun less_GLfloat :: "GLfloat \<Rightarrow> GLfloat \<Rightarrow> bool" where
  "less_GLfloat (Fin a) (Fin b) = (a < b)"
| "less_GLfloat _ _ = False"

fun less_eq_GLfloat :: "GLfloat \<Rightarrow> GLfloat \<Rightarrow> bool" where
  "less_eq_GLfloat (Fin a) (Fin b) = (a \<le> b)"
| "less_eq_GLfloat _ _ = False"

instance ..

end

text \<open>Addition of floats, as modelled, is associative and commutative with unit 0.\<close>

instance GLfloat :: comm_monoid_add
proof (standard, goal_cases)
  case (1 u v w)
  show ?case
    by (cases u; cases v; cases w) simp_all
next
  case (2 u v)
  show ?case
    by (cases u; cases v) simp_all
next
  case (3 u)
  show ?case
    by (cases u) (simp_all add: zero_GLfloat_def)
qed

text \<open>\<^verbatim>\<open>sqrt\<close> of a float: a NaN for a negative argument.\<close>

fun fsqrt :: "GLfloat \<Rightarrow> GLfloat" where
  "fsqrt (Fin a) = (if a < 0 then NonFinite else Fin (sqrt a))"
| "fsqrt NonFinite = NonFinite"

fun finite_fl :: "GLfloat \<Rightarrow> bool" where
  "finite_fl (Fin a) = True"
| "finite_fl NonFinite = False"

text \<open>
  \<^verbatim>\<open>struct vec3 { GLfloat x, y, z; }\<close>. The fields are named \<open>vx\<close>, \<open>vy\<close>, \<open>vz\<close>
  here, since a constant called \<open>x\<close> would capture every variable of that name.
\<close>

datatype vec3 = Vec3 (vx: GLfloat) (vy: GLfloat) (vz: GLfloat)

datatype vec4 = Vec4 GLfloat GLfloat GLfloat GLfloat

text \<open>\<^verbatim>\<open>operator+\<close>, \<^verbatim>\<open>operator-\<close> on two vectors.\<close>

instantiation vec3 :: "{zero, plus, minus}"
begin

definition zero_vec3 :: vec3 where
  "zero_vec3 = Vec3 (Fin 0) (Fin 0) (Fin 0)"

definition plus_vec3 :: "vec3 \<Rightarrow> vec3 \<Rightarrow> vec3" where
  "plus_vec3 u v = Vec3 (vx u + vx v) (vy u + vy v) (vz u + vz v)"

definition minus_vec3 :: "vec3 \<Rightarrow> vec3 \<Rightarrow> vec3" where
  "minus_vec3 u v = Vec3 (vx u - vx v) (vy u - vy v) (vz u - vz v)"

instance ..

end

instance vec3 :: comm_monoid_add
proof (standard, goal_cases)
  case (1 u v w)
  show ?case
    by (simp add: plus_vec3_def add.assoc)
next
  case (2 u v)
  show ?case
    by (simp add: plus_vec3_def add.commute)
next
  case (3 u)
  show ?case
    by (simp add: plus_vec3_def zero_vec3_def flip: zero_GLfloat_def)
qed

text \<open>\<^verbatim>\<open>operator*(vec3, GLfloat)\<close> and \<^verbatim>\<open>operator/(vec3, GLfloat)\<close>.\<close>

definition mulS :: "vec3 \<Rightarrow> GLfloat \<Rightarrow> vec3" where
  "mulS v s = Vec3 (vx v * s) (vy v * s) (vz v * s)"

definition divS :: "vec3 \<Rightarrow> GLfloat \<Rightarrow> vec3" where
  "divS v s = Vec3 (vx v / s) (vy v / s) (vz v / s)"

definition magnitude :: "vec3 \<Rightarrow> GLfloat" where
  "magnitude v = fsqrt ((vx v * vx v) + (vy v * vy v) + (vz v * vz v))"

definition normalize :: "vec3 \<Rightarrow> vec3" where
  "normalize v = divS v (magnitude v)"

definition cross :: "vec3 \<Rightarrow> vec3 \<Rightarrow> vec3" where
  "cross u v = Vec3 ((vy u * vz v) - (vz u * vy v))
                    ((vz u * vx v) - (vx u * vz v))
                    ((vx u * vy v) - (vy u * vx v))"

definition dot :: "vec3 \<Rightarrow> vec3 \<Rightarrow> GLfloat" where
  "dot u v = (vx u * vx v) + (vy u * vy v) + (vz u * vz v)"

definition finite_vec :: "vec3 \<Rightarrow> bool" where
  "finite_vec v = (finite_fl (vx v) \<and> finite_fl (vy v) \<and> finite_fl (vz v))"

section \<open>Wind\<close>

text \<open>
  \<^verbatim>\<open>class Wind { bool enabled; long timeBlowing; vec3 windForce; }\<close>. The \<^verbatim>\<open>long\<close>
  accumulator is an unbounded integer here: it is reset whenever it passes 1200.
\<close>

record Wind =
  enabled :: bool
  timeBlowing :: int
  windForce :: vec3

definition Wind_new :: "vec3 \<Rightarrow> Wind" where
  "Wind_new force = \<lparr>enabled = True, timeBlowing = 0, windForce = force\<rparr>"

text \<open>\<^verbatim>\<open>Wind::generateWindForce\<close>: the returned vector and the object after the call.\<close>

definition generateWindForce :: "int \<Rightarrow> Wind \<Rightarrow> vec3 \<times> Wind" where
  "generateWindForce deltaT w =
     (let w1 = w\<lparr>timeBlowing := timeBlowing w + deltaT\<rparr>;
          w2 = (if timeBlowing w1 > 1200
                then w1\<lparr>timeBlowing := 0, windForce := mulS (windForce w1) (Fin (- 1))\<rparr>
                else w1)
      in (if enabled w2 then windForce w2 else Vec3 (Fin 0) (Fin 0) (Fin 0), w2))"

definition toggleWind :: "Wind \<Rightarrow> Wind" where
  "toggleWind w = w\<lparr>enabled := \<not> enabled w\<rparr>"

text \<open>
  The calls the frame driver and the keyboard handler make on the wind object, and a run
  of them: \<open>Tick deltaT\<close> is \<^verbatim>\<open>generateWindForce(deltaT)\<close>, \<open>Toggle\<close> is
  \<^verbatim>\<open>toggleWind()\<close>.
\<close>

datatype WindCall = Tick int | Toggle

fun windCall :: "WindCall \<Rightarrow> Wind \<Rightarrow> Wind" where
  "windCall (Tick deltaT) w = snd (generateWindForce deltaT w)"
| "windCall Toggle w = toggleWind w"

fun windRun :: "WindCall list \<Rightarrow> Wind \<Rightarrow> Wind" where
  "windRun [] w = w"
| "windRun (c # cs) w = windRun cs (windCall c w)"

fun isTick :: "WindCall \<Rightarrow> bool" where
  "isTick (Tick deltaT) = True"
| "isTick Toggle = False"

text \<open>The number of calls of a run of \<^verbatim>\<open>generateWindForce\<close> that inverted the wind vector.\<close>

fun flipCount :: "int list \<Rightarrow> Wind \<Rightarrow> nat" where
  "flipCount [] w = 0"
| "flipCount (deltaT # ds) w =
     (if timeBlowing w + deltaT > 1200 then 1 else 0)
       + flipCount ds (snd (generateWindForce deltaT w))"

section \<open>Constants\<close>

definition PARTICLE_MASS_KG :: GLfloat where
  "PARTICLE_MASS_KG = Fin 50"

definition CONSTRAINT_ITERATIONS :: nat where
  "CONSTRAINT_ITERATIONS = 50"

definition MIN_TIME_STEP :: int where
  "MIN_TIME_STEP = 16"

definition gravity :: vec3 where
  "gravity = Vec3 (Fin 0) (Fin (- 0.02)) (Fin 0)"

definition springConstK :: GLfloat where
  "springConstK = Fin 0.00000000002"

definition damperConstD :: GLfloat where
  "damperConstD = Fin 1 - Fin 0.00002"

text \<open>The locals \<^verbatim>\<open>timeTSquared\<close> of \<^verbatim>\<open>move\<close> and \<^verbatim>\<open>offsetScalar\<close> of \<^verbatim>\<open>handleCollision\<close>.\<close>

definition timeTSquared :: GLfloat where
  "timeTSquared = Fin 0.01"

definition offsetScalar :: GLfloat where
  "offsetScalar = Fin 0.03"

section \<open>Particles, springs, spheres and the cloth\<close>

record Particle =
  position :: vec3
  prevPosition :: vec3
  acceleration :: vec3
  color :: vec4
  mass :: GLfloat
  pinned :: bool

text \<open>
  A \<^verbatim>\<open>Particle*\<close> into \<^verbatim>\<open>particles\<close> is the pair (row, column) of the particle it
  points to. Reading and writing through the pointer are \<open>getP\<close> and \<open>updP\<close>.
\<close>

type_synonym ParticleRef = "nat \<times> nat"

definition validRef :: "Particle list list \<Rightarrow> ParticleRef \<Rightarrow> bool" where
  "validRef ps r = (fst r < length ps \<and> snd r < length (ps ! fst r))"

definition getP :: "Particle list list \<Rightarrow> ParticleRef \<Rightarrow> Particle" where
  "getP ps r = ps ! fst r ! snd r"

definition updP :: "ParticleRef \<Rightarrow> (Particle \<Rightarrow> Particle) \<Rightarrow> Particle list list \<Rightarrow> Particle list list" where
  "updP r f ps = ps[fst r := (ps ! fst r)[snd r := f (ps ! fst r ! snd r)]]"

record Spring =
  p0 :: ParticleRef
  p1 :: ParticleRef
  restLength :: GLfloat

text \<open>
  \<^verbatim>\<open>class Sphere\<close>: the fields the simulation reads (\<^verbatim>\<open>position\<close> of \<^verbatim>\<open>Actor\<close>, here
  \<open>spherePosition\<close>; \<^verbatim>\<open>radius\<close>, \<^verbatim>\<open>velocity\<close>, \<^verbatim>\<open>isMoving\<close>). The colour, the
  scale vector and the vertex buffer are only drawn.
\<close>

record Sphere =
  spherePosition :: vec3
  radius :: GLfloat
  velocity :: vec3
  isMoving :: bool

definition Sphere_new :: "vec3 \<Rightarrow> GLfloat \<Rightarrow> GLfloat \<Rightarrow> Sphere" where
  "Sphere_new pos rad scale =
     \<lparr>spherePosition = pos, radius = rad * scale,
      velocity = Vec3 (Fin 0.05) (Fin 0) (Fin 0), isMoving = True\<rparr>"

text \<open>\<^verbatim>\<open>Sphere::move\<close>, \<^verbatim>\<open>Sphere::toggleMovement\<close>, \<^verbatim>\<open>Sphere::contains\<close>.\<close>

definition Sphere_move :: "int \<Rightarrow> Sphere \<Rightarrow> Sphere" where
  "Sphere_move deltaT s =
     (if isMoving s then
        (let v = (if vx (spherePosition s) < Fin (- 1.5)
                  then Vec3 (Fin 0.05) (vy (velocity s)) (vz (velocity s))
                  else if Fin 1.5 < vx (spherePosition s)
                  then Vec3 (Fin (- 0.05)) (vy (velocity s)) (vz (velocity s))
                  else velocity s)
         in s\<lparr>velocity := v, spherePosition := spherePosition s + v\<rparr>)
      else s)"

definition toggleMovement :: "Sphere \<Rightarrow> Sphere" where
  "toggleMovement s = s\<lparr>isMoving := \<not> isMoving s\<rparr>"

definition contains :: "Sphere \<Rightarrow> vec3 \<Rightarrow> bool" where
  "contains s point = (magnitude (point - spherePosition s) < radius s)"

text \<open>
  \<^verbatim>\<open>class ClothSheet\<close>. A \<^verbatim>\<open>Sphere*\<close> is an address; the sphere objects live in a store
  that maps addresses to objects, and the global pointer \<^verbatim>\<open>sphere\<close> is an address too.
  \<^verbatim>\<open>position\<close> of \<^verbatim>\<open>Actor\<close> is \<open>clothPosition\<close>; the colour is only drawn.
\<close>

type_synonym SphereStore = "nat \<Rightarrow> Sphere"

record ClothSheet =
  clothPosition :: vec3
  particles :: "Particle list list"
  springs :: "Spring list list"
  potentialColliders :: "nat list"
  pinnedParticles :: "ParticleRef list"
  vWindForce :: vec3

section \<open>Verlet integration\<close>

text \<open>The body of the double loop of \<^verbatim>\<open>ClothSheet::move\<close>, for one particle.\<close>

definition integrate :: "Particle \<Rightarrow> Particle" where
  "integrate particle =
     (if \<not> pinned particle then
        particle\<lparr>position := ((mulS (position particle) (Fin 2)) - mulS (prevPosition particle) damperConstD)
                                + (mulS (acceleration particle) timeTSquared),
                  prevPosition := position particle\<rparr>
      else particle)"

section \<open>Collision\<close>

text \<open>
  The body of the loops of \<^verbatim>\<open>ClothSheet::handleCollision\<close> for one collider and one
  particle. The radius is read from the global \<^verbatim>\<open>sphere\<close>, as in the source, not from
  the collider.
\<close>

definition collide :: "Sphere \<Rightarrow> Sphere \<Rightarrow> Particle \<Rightarrow> Particle" where
  "collide collidable sphere particle =
     (if contains collidable (position particle) then
        (let vDistance = position particle - spherePosition collidable;
             vNormalizedDist = normalize vDistance;
             vScaledDist = mulS vNormalizedDist (radius sphere)
         in particle\<lparr>position := spherePosition collidable
                                     + (mulS vNormalizedDist (radius sphere))
                                     + (mulS vScaledDist offsetScalar)\<rparr>)
      else particle)"

definition handleCollision :: "SphereStore \<Rightarrow> nat \<Rightarrow> ClothSheet \<Rightarrow> ClothSheet" where
  "handleCollision store sphere c =
     c\<lparr>particles :=
         fold (\<lambda>collidable ps. map (map (collide (store collidable) (store sphere))) ps)
              (potentialColliders c) (particles c)\<rparr>"

section \<open>Constraint relaxation\<close>

text \<open>
  The body of the innermost loop of \<^verbatim>\<open>ClothSheet::satisfyConstraints\<close>. The second
  endpoint is read after the first one is written.
\<close>

definition relaxSpring :: "Spring \<Rightarrow> Particle list list \<Rightarrow> Particle list list" where
  "relaxSpring spring ps =
     (let vCurrentDistance = position (getP ps (p0 spring)) - position (getP ps (p1 spring));
          deltaDistance = magnitude vCurrentDistance;
          vConstraints = mulS (mulS vCurrentDistance (Fin 1 - restLength spring / deltaDistance)) (Fin 0.5);
          ps1 = (if \<not> pinned (getP ps (p0 spring))
                 then updP (p0 spring) (\<lambda>p. p\<lparr>position := position p - vConstraints\<rparr>) ps
                 else ps)
      in (if \<not> pinned (getP ps1 (p1 spring))
          then updP (p1 spring) (\<lambda>p. p\<lparr>position := position p + vConstraints\<rparr>) ps1
          else ps1))"

definition relaxAll :: "Spring list list \<Rightarrow> Particle list list \<Rightarrow> Particle list list" where
  "relaxAll sps ps = fold (\<lambda>row ps'. fold relaxSpring row ps') sps ps"

definition satisfyConstraintsN :: "nat \<Rightarrow> ClothSheet \<Rightarrow> ClothSheet" where
  "satisfyConstraintsN n c = c\<lparr>particles := ((relaxAll (springs c)) ^^ n) (particles c)\<rparr>"

definition satisfyConstraints :: "ClothSheet \<Rightarrow> ClothSheet" where
  "satisfyConstraints c = satisfyConstraintsN CONSTRAINT_ITERATIONS c"

section \<open>Force accumulation\<close>

definition addAcceleration :: "vec3 \<Rightarrow> Particle \<Rightarrow> Particle" where
  "addAcceleration a p = p\<lparr>acceleration := acceleration p + a\<rparr>"

text \<open>
  The wind acceleration of the triangle \<open>v0\<close>, \<open>v1\<close>, \<open>v2\<close>: the wind projected on the
  face normal, divided by the mass of the three particles.
\<close>

definition triangleWind :: "vec3 \<Rightarrow> Particle list list \<Rightarrow> ParticleRef \<Rightarrow> ParticleRef \<Rightarrow> ParticleRef \<Rightarrow> vec3" where
  "triangleWind wind ps v0 v1 v2 =
     (let vFaceNormal = normalize (cross (position (getP ps v1) - position (getP ps v0))
                                         (position (getP ps v2) - position (getP ps v0)))
      in divS (mulS vFaceNormal (dot vFaceNormal wind))
              (mass (getP ps v0) + mass (getP ps v1) + mass (getP ps v2)))"

text \<open>It is added to the acceleration of \<open>v0\<close>, then of \<open>v1\<close>, then of \<open>v2\<close>.\<close>

definition windTriangle :: "vec3 \<Rightarrow> ParticleRef \<Rightarrow> ParticleRef \<Rightarrow> ParticleRef \<Rightarrow> Particle list list \<Rightarrow> Particle list list" where
  "windTriangle wind v0 v1 v2 ps =
     (let vWindAcceleration = triangleWind wind ps v0 v1 v2
      in updP v2 (addAcceleration vWindAcceleration)
           (updP v1 (addAcceleration vWindAcceleration)
             (updP v0 (addAcceleration vWindAcceleration) ps)))"

text \<open>The body of the wind loops at (\<open>k\<close>, \<open>l\<close>): the upper and the lower triangle of the quad.\<close>

definition windQuad :: "vec3 \<Rightarrow> nat \<Rightarrow> nat \<Rightarrow> Particle list list \<Rightarrow> Particle list list" where
  "windQuad wind k l ps =
     windTriangle wind (k + 1, l) (k, l + 1) (k + 1, l + 1)
       (windTriangle wind (k + 1, l) (k, l) (k, l + 1) ps)"

text \<open>
  The wind loops. \<^verbatim>\<open>particles.size() - 1\<close> is unsigned: on an empty grid the source loops
  into an \<^verbatim>\<open>at\<close> that throws, the model does nothing; no constructed cloth is empty.
\<close>

definition windPass :: "vec3 \<Rightarrow> Particle list list \<Rightarrow> Particle list list" where
  "windPass wind ps =
     fold (\<lambda>k ps'. fold (\<lambda>l ps''. windQuad wind k l ps'') [0 ..< length (ps' ! k) - 1] ps')
          [0 ..< length ps - 1] ps"

text \<open>The acceleration a spring gives its endpoints, before the sign.\<close>

definition springAcceleration :: "Spring \<Rightarrow> Particle list list \<Rightarrow> vec3" where
  "springAcceleration spring ps =
     (let vCurrentDistance = position (getP ps (p0 spring)) - position (getP ps (p1 spring));
          currentDistMagnitude = magnitude vCurrentDistance;
          deltaDistance = currentDistMagnitude - restLength spring
      in divS (mulS (divS vCurrentDistance currentDistMagnitude) (springConstK * deltaDistance))
              (mass (getP ps (p0 spring))))"

text \<open>The body of the spring loops of \<^verbatim>\<open>ClothSheet::accumulateForces\<close>.\<close>

definition springForce :: "Spring \<Rightarrow> Particle list list \<Rightarrow> Particle list list" where
  "springForce spring ps =
     (let vSpringAcceleration = springAcceleration spring ps
      in updP (p1 spring)
           (\<lambda>p. p\<lparr>acceleration := (divS gravity (mass p)) + vSpringAcceleration + acceleration p\<rparr>)
           (updP (p0 spring)
             (\<lambda>p. p\<lparr>acceleration := (divS gravity (mass p)) - vSpringAcceleration + acceleration p\<rparr>)
             ps))"

definition springPass :: "Spring list list \<Rightarrow> Particle list list \<Rightarrow> Particle list list" where
  "springPass sps ps = fold (\<lambda>row ps'. fold springForce row ps') sps ps"

text \<open>The local \<^verbatim>\<open>vWindNormal\<close> of \<^verbatim>\<open>accumulateForces\<close>; it is computed and never read.\<close>

definition vWindNormal :: "ClothSheet \<Rightarrow> vec3" where
  "vWindNormal c = normalize (vWindForce c)"

definition accumulateForces :: "ClothSheet \<Rightarrow> ClothSheet" where
  "accumulateForces c =
     (let windNormal = vWindNormal c
      in c\<lparr>particles := springPass (springs c) (windPass (vWindForce c) (particles c))\<rparr>)"

text \<open>
  What one pass of \<^verbatim>\<open>accumulateForces\<close> adds to the acceleration of the particle \<open>r\<close>,
  written as sums over the triangles and the springs that touch \<open>r\<close>: a contribution
  counts at \<open>r\<close> when the pointer it is added through is \<open>r\<close>.
\<close>

definition through :: "ParticleRef \<Rightarrow> ParticleRef \<Rightarrow> vec3 \<Rightarrow> vec3" where
  "through r v a = (if v = r then a else 0)"

definition triangleContribution :: "vec3 \<Rightarrow> Particle list list \<Rightarrow> ParticleRef \<Rightarrow> ParticleRef \<Rightarrow> ParticleRef \<Rightarrow> ParticleRef \<Rightarrow> vec3" where
  "triangleContribution wind ps v0 v1 v2 r =
     through r v0 (triangleWind wind ps v0 v1 v2) + through r v1 (triangleWind wind ps v0 v1 v2)
       + through r v2 (triangleWind wind ps v0 v1 v2)"

definition quadContribution :: "vec3 \<Rightarrow> Particle list list \<Rightarrow> nat \<Rightarrow> nat \<Rightarrow> ParticleRef \<Rightarrow> vec3" where
  "quadContribution wind ps k l r =
     triangleContribution wind ps (k + 1, l) (k, l) (k, l + 1) r
       + triangleContribution wind ps (k + 1, l) (k, l + 1) (k + 1, l + 1) r"

definition windContribution :: "vec3 \<Rightarrow> Particle list list \<Rightarrow> ParticleRef \<Rightarrow> vec3" where
  "windContribution wind ps r =
     sum_list (map (\<lambda>k. sum_list (map (\<lambda>l. quadContribution wind ps k l r) [0 ..< length (ps ! k) - 1]))
                   [0 ..< length ps - 1])"

text \<open>The spring degree of \<open>r\<close>: the number of spring endpoints that are \<open>r\<close>.\<close>

definition springDegree :: "Spring list list \<Rightarrow> ParticleRef \<Rightarrow> nat" where
  "springDegree sps r =
     length (filter (\<lambda>s. p0 s = r) (concat sps)) + length (filter (\<lambda>s. p1 s = r) (concat sps))"

definition springContribution :: "Spring list list \<Rightarrow> Particle list list \<Rightarrow> ParticleRef \<Rightarrow> vec3" where
  "springContribution sps ps r =
     sum_list (map (\<lambda>s. through r (p0 s) (0 - springAcceleration s ps) + through r (p1 s) (springAcceleration s ps))
                   (concat sps))"

text \<open>Two grids with the same positions and masses behind every pointer.\<close>

definition samePhysics :: "Particle list list \<Rightarrow> Particle list list \<Rightarrow> bool" where
  "samePhysics ps ps' =
     (\<forall>q. position (getP ps' q) = position (getP ps q) \<and> mass (getP ps' q) = mass (getP ps q))"

section \<open>The step and the other operations of the cloth\<close>

text \<open>\<^verbatim>\<open>ClothSheet::move\<close>. The argument \<open>deltaT\<close> is not read.\<close>

definition integrateAll :: "ClothSheet \<Rightarrow> ClothSheet" where
  "integrateAll c = c\<lparr>particles := map (map integrate) (particles c)\<rparr>"

definition move :: "int \<Rightarrow> SphereStore \<Rightarrow> nat \<Rightarrow> ClothSheet \<Rightarrow> ClothSheet" where
  "move deltaT store sphere c =
     handleCollision store sphere (integrateAll (satisfyConstraints (accumulateForces c)))"

definition applyWindForce :: "vec3 \<Rightarrow> ClothSheet \<Rightarrow> ClothSheet" where
  "applyWindForce windForce' c = c\<lparr>vWindForce := windForce'\<rparr>"

definition pushCollidable :: "nat \<Rightarrow> ClothSheet \<Rightarrow> ClothSheet" where
  "pushCollidable collidable c = c\<lparr>potentialColliders := potentialColliders c @ [collidable]\<rparr>"

text \<open>\<^verbatim>\<open>ClothSheet::detach\<close>: the queue is emptied from the front.\<close>

fun unpinAll :: "ParticleRef list \<Rightarrow> Particle list list \<Rightarrow> Particle list list" where
  "unpinAll [] ps = ps"
| "unpinAll (r # queue) ps = unpinAll queue (updP r (\<lambda>p. p\<lparr>pinned := False\<rparr>) ps)"

definition detach :: "ClothSheet \<Rightarrow> ClothSheet" where
  "detach c = c\<lparr>particles := unpinAll (pinnedParticles c) (particles c), pinnedParticles := []\<rparr>"

text \<open>
  A run of frames of the driver on the cloth: each frame applies the wind vector of the
  frame and then moves the cloth, with the sphere objects as they are in that frame.
\<close>

record Frame =
  frameDeltaT :: int
  frameWind :: vec3
  frameSpheres :: SphereStore

definition frame :: "nat \<Rightarrow> Frame \<Rightarrow> ClothSheet \<Rightarrow> ClothSheet" where
  "frame sphere f c = move (frameDeltaT f) (frameSpheres f) sphere (applyWindForce (frameWind f) c)"

fun frames :: "nat \<Rightarrow> Frame list \<Rightarrow> ClothSheet \<Rightarrow> ClothSheet" where
  "frames sphere [] c = c"
| "frames sphere (f # fs) c = frames sphere fs (frame sphere f c)"

text \<open>
  The invariant behind \<^verbatim>\<open>detach\<close>: every particle whose \<^verbatim>\<open>pinned\<close> flag is set is
  referenced from the queue \<^verbatim>\<open>pinnedParticles\<close>. The constructor sets a flag and pushes
  the pointer together, and nothing else sets a flag.
\<close>

definition pinsQueued :: "ClothSheet \<Rightarrow> bool" where
  "pinsQueued c =
     (\<forall>i < length (particles c). \<forall>j < length (particles c ! i).
        pinned (particles c ! i ! j) \<longrightarrow> (i, j) \<in> set (pinnedParticles c))"

section \<open>Mesh generation\<close>

text \<open>
  A C++ exception (\<^verbatim>\<open>std::out_of_range\<close> of \<^verbatim>\<open>vector::at\<close>, \<^verbatim>\<open>std::length_error\<close> of a
  vector constructed with a negative size) is the value \<open>None\<close>: the constructor of the
  cloth does not return.
\<close>

definition particleColor :: "nat \<Rightarrow> nat \<Rightarrow> vec4" where
  "particleColor i j =
     (if i mod 2 \<noteq> 0 \<and> j mod 2 \<noteq> 0
      then Vec4 (Fin 0.941) (Fin 0.427) (Fin 0.102) (Fin 1)
      else Vec4 (Fin 0.996) (Fin 1) (Fin 0.906) (Fin 1))"

definition newParticle :: "vec3 \<Rightarrow> vec4 \<Rightarrow> Particle" where
  "newParticle vSpacer vColor =
     \<lparr>position = vSpacer, prevPosition = vSpacer,
      acceleration = Vec3 (Fin 0) (Fin 0) (Fin 0),
      color = vColor, mass = PARTICLE_MASS_KG, pinned = False\<rparr>"

text \<open>
  The inner particle loop of \<^verbatim>\<open>generateParticleSheet\<close> from column \<open>j\<close> on, with \<open>n\<close>
  columns left: each particle is placed at \<open>vSpacer\<close>, and \<open>xSpacing\<close> is added to
  \<^verbatim>\<open>vSpacer.x\<close>.
\<close>

fun particleRow :: "nat \<Rightarrow> nat \<Rightarrow> nat \<Rightarrow> GLfloat \<Rightarrow> vec3 \<Rightarrow> Particle list" where
  "particleRow i j 0 xSpacing vSpacer = []"
| "particleRow i j (Suc n) xSpacing vSpacer =
     newParticle vSpacer (particleColor i j)
       # particleRow i (Suc j) n xSpacing (Vec3 (vx vSpacer + xSpacing) (vy vSpacer) (vz vSpacer))"

text \<open>
  The outer particle loop from row \<open>i\<close> on, with \<open>n\<close> rows left. \<^verbatim>\<open>vSpacer.x\<close> is set to
  \<^verbatim>\<open>position.x\<close> at the head of each row (so its value after the inner loop is dead), and
  \<open>ySpacing\<close> is subtracted from \<^verbatim>\<open>vSpacer.y\<close> after each row.
\<close>

fun particleRows :: "nat \<Rightarrow> nat \<Rightarrow> nat \<Rightarrow> vec3 \<Rightarrow> GLfloat \<Rightarrow> GLfloat \<Rightarrow> vec3 \<Rightarrow> Particle list list" where
  "particleRows i 0 width pos xSpacing ySpacing vSpacer = []"
| "particleRows i (Suc n) width pos xSpacing ySpacing vSpacer =
     particleRow i 0 width xSpacing (Vec3 (vx pos) (vy vSpacer) (vz vSpacer))
       # particleRows (Suc i) n width pos xSpacing ySpacing
           (Vec3 (vx pos) (vy vSpacer - ySpacing) (vz vSpacer))"

text \<open>Subtraction of \<^verbatim>\<open>size_t\<close> values (64 bits, unsigned): it wraps around.\<close>

definition usub :: "nat \<Rightarrow> nat \<Rightarrow> nat" where
  "usub a b = (if b \<le> a then a - b else a + 2 ^ 64 - b)"

text \<open>
  \<^verbatim>\<open>&particles.at(row).at(col)\<close>; \<^verbatim>\<open>std::vector<Spring>(n)\<close>, whose slots are
  value-initialised (null pointers; \<open>None\<close> here); \<^verbatim>\<open>v.at(i) = s\<close>.
\<close>

definition ref :: "Particle list list \<Rightarrow> nat \<Rightarrow> nat \<Rightarrow> ParticleRef option" where
  "ref ps row col = (if row < length ps \<and> col < length (ps ! row) then Some (row, col) else None)"

definition newVector :: "int \<Rightarrow> Spring option list option" where
  "newVector n = (if n < 0 then None else Some (replicate (nat n) None))"

definition put :: "Spring option list \<Rightarrow> nat \<Rightarrow> Spring \<Rightarrow> Spring option list option" where
  "put v i s = (if i < length v then Some (v[i := Some s]) else None)"

definition putSpring ::
  "Particle list list \<Rightarrow> Spring option list \<Rightarrow> nat \<Rightarrow> nat \<times> nat \<Rightarrow> nat \<times> nat \<Rightarrow> GLfloat \<Rightarrow> Spring option list option" where
  "putSpring ps v i a b rest =
     do { r0 \<leftarrow> ref ps (fst a) (snd a);
          r1 \<leftarrow> ref ps (fst b) (snd b);
          put v i \<lparr>p0 = r0, p1 = r1, restLength = rest\<rparr> }"

text \<open>
  The body of the inner spring loop: \<open>n\<close> is \<^verbatim>\<open>springs.size()\<close>, \<open>v\<close> is
  \<^verbatim>\<open>springs.at(k)\<close>, \<open>l\<close> the index of the group's first slot.
\<close>

definition springGroup ::
  "Particle list list \<Rightarrow> GLfloat \<Rightarrow> GLfloat \<Rightarrow> nat \<Rightarrow> nat \<Rightarrow> nat \<Rightarrow> nat \<Rightarrow> nat \<Rightarrow> Spring option list \<Rightarrow> Spring option list option" where
  "springGroup ps xSpacing ySpacing n k row col l v =
     do { v \<leftarrow> putSpring ps v l (row, col) (row + 1, col) ySpacing;
          v \<leftarrow> putSpring ps v (l + 1) (row, col) (row, col + 1) xSpacing;
          v \<leftarrow> putSpring ps v (l + 2) (row, col + 1) (row + 1, col + 1) ySpacing;
          v \<leftarrow> putSpring ps v (l + 3) (row + 1, col) (row + 1, col + 1) xSpacing;
          v \<leftarrow> putSpring ps v (l + 4) (row + 1, col) (row, col + 1)
                 (fsqrt ((xSpacing * xSpacing) + (ySpacing * ySpacing)));
          v \<leftarrow> putSpring ps v (l + 5) (row, col) (row + 1, col + 1)
                 (fsqrt ((xSpacing * xSpacing) + (ySpacing * ySpacing)));
          v \<leftarrow> (if k < usub n 3
                 then putSpring ps v (l + 6) (row, col) (row + 2, col) (ySpacing + ySpacing)
                 else Some v);
          (if l + 7 < usub (length v) 3
           then putSpring ps v (l + 7) (row, col) (row, col + 2) (xSpacing + xSpacing)
           else Some v) }"

definition springGroupSize :: "nat \<Rightarrow> nat \<Rightarrow> nat" where
  "springGroupSize n k = (if k < usub n 3 then 8 else 6)"

lemma length_put: "put v i s = Some v' \<Longrightarrow> length v' = length v"
  by (auto simp: put_def split: if_splits)

lemma length_putSpring: "putSpring ps v i a b rest = Some v' \<Longrightarrow> length v' = length v"
  by (auto simp: putSpring_def dest: length_put split: bind_splits)

lemma length_springGroup:
  "springGroup ps xSpacing ySpacing n k row col l v = Some v' \<Longrightarrow> length v' = length v"
  by (auto simp: springGroup_def dest!: length_putSpring split: bind_splits if_splits)

text \<open>The inner spring loop, \<^verbatim>\<open>for (l = 0; l < springs.at(k).size(); l += springGroupSize)\<close>.\<close>

function springLoop ::
  "Particle list list \<Rightarrow> GLfloat \<Rightarrow> GLfloat \<Rightarrow> nat \<Rightarrow> nat \<Rightarrow> nat \<Rightarrow> nat \<Rightarrow> nat \<Rightarrow> Spring option list \<Rightarrow> Spring option list option" where
  "springLoop ps xSpacing ySpacing n k row col l v =
     (if l < length v then
        (case springGroup ps xSpacing ySpacing n k row col l v of
           None \<Rightarrow> None
         | Some v' \<Rightarrow> springLoop ps xSpacing ySpacing n k row (col + 1) (l + springGroupSize n k) v')
      else Some v)"
  by pat_completeness auto
termination
  by (relation "measure (\<lambda>(ps, xSpacing, ySpacing, n, k, row, col, l, v). length v - l)")
     (auto simp: springGroupSize_def dest: length_springGroup)

text \<open>
  The outer spring loop from \<open>k\<close> on, with \<open>m\<close> rows of springs left; \<open>width\<close> is the
  parameter of \<^verbatim>\<open>generateParticleSheet\<close>.
\<close>

fun springRows ::
  "Particle list list \<Rightarrow> nat \<Rightarrow> GLfloat \<Rightarrow> GLfloat \<Rightarrow> nat \<Rightarrow> nat \<Rightarrow> nat \<Rightarrow> nat \<Rightarrow> Spring option list list option" where
  "springRows ps width xSpacing ySpacing n k row 0 = Some []"
| "springRows ps width xSpacing ySpacing n k row (Suc m) =
     do { v \<leftarrow> newVector (if k < usub n 3 then (int width - 1) * 8 - 1 else (int width - 1) * 6);
          v' \<leftarrow> springLoop ps xSpacing ySpacing n k row 0 0 v;
          rest \<leftarrow> springRows ps width xSpacing ySpacing n (k + 1) (row + 1) m;
          Some (v' # rest) }"

text \<open>
  \<^verbatim>\<open>ClothSheet::generateParticleSheet(GLfloat height, GLfloat width)\<close>: the particle grid
  and the rows of spring slots.
\<close>

definition generateParticleSheet ::
  "vec3 \<Rightarrow> nat \<Rightarrow> nat \<Rightarrow> (Particle list list \<times> Spring option list list) option" where
  "generateParticleSheet pos height width =
     (let xSpacing = Fin 2 / (Fin (real height) - Fin 1);
          ySpacing = Fin 2 / (Fin (real width) - Fin 1);
          ps = particleRows 0 height width pos xSpacing ySpacing pos
      in do { n \<leftarrow> (if int height - 1 < 0 then None else Some (nat (int height - 1)));
              sps \<leftarrow> springRows ps width xSpacing ySpacing n 0 0 n;
              Some (ps, sps) })"

text \<open>
  The springs of a cloth are read through their pointers in every step. A slot that the
  generator left value-initialised would hold null pointers; the model refuses such a
  cloth at construction.
\<close>

fun initialised :: "Spring option list \<Rightarrow> Spring list option" where
  "initialised [] = Some []"
| "initialised (None # v) = None"
| "initialised (Some s # v) = do { v' \<leftarrow> initialised v; Some (s # v') }"

fun initialisedRows :: "Spring option list list \<Rightarrow> Spring list list option" where
  "initialisedRows [] = Some []"
| "initialisedRows (v # vs) = do { v' \<leftarrow> initialised v; vs' \<leftarrow> initialisedRows vs; Some (v' # vs') }"

text \<open>
  \<^verbatim>\<open>particles.at(0).at(col).pinned = true; pinnedParticles.push(&particles.at(0).at(col));\<close>
\<close>

definition pin :: "nat \<Rightarrow> Particle list list \<times> ParticleRef list \<Rightarrow> (Particle list list \<times> ParticleRef list) option" where
  "pin col pq =
     do { r \<leftarrow> ref (fst pq) 0 col;
          Some (updP r (\<lambda>p. p\<lparr>pinned := True\<rparr>) (fst pq), snd pq @ [r]) }"

text \<open>
  \<^verbatim>\<open>ClothSheet::ClothSheet(position, color, width, height)\<close>. It calls
  \<^verbatim>\<open>generateParticleSheet((GLfloat)width, (GLfloat)height)\<close>, whose parameters are named
  \<^verbatim>\<open>height\<close> and \<^verbatim>\<open>width\<close> in this order. The columns of the last three pins are computed
  from \<^verbatim>\<open>particles.size()\<close>, the number of rows.
\<close>

definition ClothSheet_new :: "vec3 \<Rightarrow> nat \<Rightarrow> nat \<Rightarrow> ClothSheet option" where
  "ClothSheet_new pos width height =
     do { (ps, slots) \<leftarrow> generateParticleSheet pos width height;
          sps \<leftarrow> initialisedRows slots;
          pq \<leftarrow> pin 0 (ps, []);
          pq \<leftarrow> pin 1 pq;
          pq \<leftarrow> pin 2 pq;
          pq \<leftarrow> pin (usub (length (fst pq)) 1) pq;
          pq \<leftarrow> pin (usub (length (fst pq)) 2) pq;
          pq \<leftarrow> pin (usub (length (fst pq)) 3) pq;
          Some \<lparr>clothPosition = pos, particles = fst pq, springs = sps,
                potentialColliders = [], pinnedParticles = snd pq,
                vWindForce = Vec3 (Fin 0) (Fin 0) (Fin 0)\<rparr> }"

text \<open>
  A grid of \<open>R\<close> rows of \<open>C\<close> particles each.
\<close>

definition rect :: "Particle list list \<Rightarrow> nat \<Rightarrow> nat \<Rightarrow> bool" where
  "rect ps R C = (length ps = R \<and> (\<forall>row \<in> set ps. length row = C))"

text \<open>
  The spring that the generator leaves in slot \<open>i\<close> of the row of springs \<open>row\<close>, for
  groups of \<open>g\<close> slots (8 in the rows with bend springs, 6 in the last three): the group
  is that of the column \<open>i div g\<close>, and the place \<open>i mod g\<close> in the group tells the two
  structural springs from the particle, the two structural springs of its right and
  lower neighbours, the two shear springs, the vertical and the horizontal bend spring.
\<close>

definition slotSpring :: "GLfloat \<Rightarrow> GLfloat \<Rightarrow> nat \<Rightarrow> nat \<Rightarrow> nat \<Rightarrow> Spring" where
  "slotSpring xSpacing ySpacing g row i =
     (let col = i div g; t = i mod g in
      if t = 0 then \<lparr>p0 = (row, col), p1 = (row + 1, col), restLength = ySpacing\<rparr>
      else if t = 1 then \<lparr>p0 = (row, col), p1 = (row, col + 1), restLength = xSpacing\<rparr>
      else if t = 2 then \<lparr>p0 = (row, col + 1), p1 = (row + 1, col + 1), restLength = ySpacing\<rparr>
      else if t = 3 then \<lparr>p0 = (row + 1, col), p1 = (row + 1, col + 1), restLength = xSpacing\<rparr>
      else if t = 4 then \<lparr>p0 = (row + 1, col), p1 = (row, col + 1),
                           restLength = fsqrt ((xSpacing * xSpacing) + (ySpacing * ySpacing))\<rparr>
      else if t = 5 then \<lparr>p0 = (row, col), p1 = (row + 1, col + 1),
                           restLength = fsqrt ((xSpacing * xSpacing) + (ySpacing * ySpacing))\<rparr>
      else if t = 6 then \<lparr>p0 = (row, col), p1 = (row + 2, col), restLength = ySpacing + ySpacing\<rparr>
      else \<lparr>p0 = (row, col), p1 = (row, col + 2), restLength = xSpacing + xSpacing\<rparr>)"

text \<open>The number of slots of the row of springs \<open>k\<close>, of \<open>n\<close> rows, for \<open>C\<close> columns of particles.\<close>

definition rowSlots :: "nat \<Rightarrow> nat \<Rightarrow> nat \<Rightarrow> nat" where
  "rowSlots n C k = (if k < n - 3 then (C - 1) * 8 - 1 else (C - 1) * 6)"

text \<open>The springs of a generated mesh of \<open>R\<close> rows and \<open>C\<close> columns, row of springs by row.\<close>

definition meshSprings :: "GLfloat \<Rightarrow> GLfloat \<Rightarrow> nat \<Rightarrow> nat \<Rightarrow> Spring list list" where
  "meshSprings xSpacing ySpacing R C =
     map (\<lambda>k. map (slotSpring xSpacing ySpacing (springGroupSize (R - 1) k) k) [0 ..< rowSlots (R - 1) C k])
         [0 ..< R - 1]"

text \<open>The six springs that every group holds, written to the slots \<open>l\<close> to \<open>l + 5\<close>.\<close>

definition six :: "GLfloat \<Rightarrow> GLfloat \<Rightarrow> nat \<Rightarrow> nat \<Rightarrow> nat \<Rightarrow> Spring option list \<Rightarrow> Spring option list" where
  "six xSpacing ySpacing row col l v =
     v[l := Some \<lparr>p0 = (row, col), p1 = (row + 1, col), restLength = ySpacing\<rparr>,
       l + 1 := Some \<lparr>p0 = (row, col), p1 = (row, col + 1), restLength = xSpacing\<rparr>,
       l + 2 := Some \<lparr>p0 = (row, col + 1), p1 = (row + 1, col + 1), restLength = ySpacing\<rparr>,
       l + 3 := Some \<lparr>p0 = (row + 1, col), p1 = (row + 1, col + 1), restLength = xSpacing\<rparr>,
       l + 4 := Some \<lparr>p0 = (row + 1, col), p1 = (row, col + 1),
                       restLength = fsqrt ((xSpacing * xSpacing) + (ySpacing * ySpacing))\<rparr>,
       l + 5 := Some \<lparr>p0 = (row, col), p1 = (row + 1, col + 1),
                       restLength = fsqrt ((xSpacing * xSpacing) + (ySpacing * ySpacing))\<rparr>]"

text \<open>
  The pinned flags of a cloth, row by row, and the number of pinned particles; the grid
  of a constructed cloth before the pins are set, and the columns the constructor pins
  in the first row.
\<close>

definition pinnedFlags :: "ClothSheet \<Rightarrow> bool list list" where
  "pinnedFlags c = map (map pinned) (particles c)"

definition pinnedCount :: "ClothSheet \<Rightarrow> nat" where
  "pinnedCount c = length (filter pinned (concat (particles c)))"

definition xSpacingOf :: "nat \<Rightarrow> GLfloat" where
  "xSpacingOf height = Fin 2 / (Fin (real height) - Fin 1)"

definition ySpacingOf :: "nat \<Rightarrow> GLfloat" where
  "ySpacingOf width = Fin 2 / (Fin (real width) - Fin 1)"

definition meshParticles :: "vec3 \<Rightarrow> nat \<Rightarrow> nat \<Rightarrow> Particle list list" where
  "meshParticles pos R C = particleRows 0 R C pos (xSpacingOf R) (ySpacingOf C) pos"

definition pinColumns :: "nat \<Rightarrow> nat list" where
  "pinColumns R = [0, 1, 2, R - 1, R - 2, R - 3]"

definition pinAll :: "nat list \<Rightarrow> Particle list list \<Rightarrow> Particle list list" where
  "pinAll cols ps = fold (\<lambda>col. updP (0, col) (\<lambda>p. p\<lparr>pinned := True\<rparr>)) cols ps"

section \<open>Small configurations used as test inputs\<close>

text \<open>
  A cloth of one row of two particles joined by one spring at its rest length 1: the
  left particle \<open>(0, 0)\<close> is pinned (and queued for \<^verbatim>\<open>detach\<close>), the right one is free
  and has moved since the last step.
\<close>

definition white :: vec4 where
  "white = Vec4 (Fin 0.996) (Fin 1) (Fin 0.906) (Fin 1)"

definition twoParticles :: ClothSheet where
  "twoParticles =
     \<lparr>clothPosition = Vec3 (Fin 0) (Fin 0) (Fin 0),
      particles =
        [[\<lparr>position = Vec3 (Fin 0) (Fin 0) (Fin 0), prevPosition = Vec3 (Fin 0) (Fin 0) (Fin 0),
           acceleration = Vec3 (Fin 0) (Fin 0) (Fin 0), color = white,
           mass = PARTICLE_MASS_KG, pinned = True\<rparr>,
          \<lparr>position = Vec3 (Fin 1) (Fin 0) (Fin 0), prevPosition = Vec3 (Fin 0.5) (Fin 0) (Fin 0),
           acceleration = Vec3 (Fin 0) (Fin (- 1)) (Fin 0), color = white,
           mass = PARTICLE_MASS_KG, pinned = False\<rparr>]],
      springs = [[\<lparr>p0 = (0, 0), p1 = (0, 1), restLength = Fin 1\<rparr>]],
      potentialColliders = [],
      pinnedParticles = [(0, 0)],
      vWindForce = Vec3 (Fin 0) (Fin 0) (Fin 0)\<rparr>"

text \<open>
  A resting sphere of radius 2 centred at \<open>(-1, 0, 0)\<close>, which holds the pinned particle
  of \<open>twoParticles\<close> at distance 1 from its centre, and one centred at \<open>(10, 0, 0)\<close>,
  which holds no particle. In \<open>nearStore\<close> and \<open>farStore\<close> every address holds the one
  or the other, so each is also the global \<^verbatim>\<open>sphere\<close>.
\<close>

definition nearSphere :: Sphere where
  "nearSphere = \<lparr>spherePosition = Vec3 (Fin (- 1)) (Fin 0) (Fin 0), radius = Fin 2,
                  velocity = Vec3 (Fin 0.05) (Fin 0) (Fin 0), isMoving = False\<rparr>"

definition farSphere :: Sphere where
  "farSphere = \<lparr>spherePosition = Vec3 (Fin 10) (Fin 0) (Fin 0), radius = Fin 2,
                 velocity = Vec3 (Fin 0.05) (Fin 0) (Fin 0), isMoving = False\<rparr>"

definition nearStore :: SphereStore where
  "nearStore = (\<lambda>a. nearSphere)"

definition farStore :: SphereStore where
  "farStore = (\<lambda>a. farSphere)"

definition farFrame :: Frame where
  "farFrame = \<lparr>frameDeltaT = 17, frameWind = Vec3 (Fin 0) (Fin (- 2)) (Fin (- 1.5)),
                frameSpheres = farStore\<rparr>"

text \<open>
  A sphere of radius 2 centred at \<open>(1, 0, 0)\<close>, where the free particle of \<open>twoParticles\<close>
  is, and a sphere of radius 1 far from the cloth. \<open>twoStore\<close> holds \<open>nearSphere\<close> at
  address 0 and \<open>centredSphere\<close> elsewhere; \<open>smallStore\<close> holds \<open>smallSphere\<close> at address
  0 and \<open>nearSphere\<close> elsewhere.
\<close>

definition centredSphere :: Sphere where
  "centredSphere = \<lparr>spherePosition = Vec3 (Fin 1) (Fin 0) (Fin 0), radius = Fin 2,
                     velocity = Vec3 (Fin 0.05) (Fin 0) (Fin 0), isMoving = False\<rparr>"

definition smallSphere :: Sphere where
  "smallSphere = \<lparr>spherePosition = Vec3 (Fin 10) (Fin 0) (Fin 0), radius = Fin 1,
                   velocity = Vec3 (Fin 0.05) (Fin 0) (Fin 0), isMoving = False\<rparr>"

definition twoStore :: SphereStore where
  "twoStore = (\<lambda>a. if a = 0 then nearSphere else centredSphere)"

definition smallStore :: SphereStore where
  "smallStore = (\<lambda>a. if a = 0 then smallSphere else nearSphere)"

definition centredStore :: SphereStore where
  "centredStore = (\<lambda>a. centredSphere)"

text \<open>The cloth \<open>twoParticles\<close> with the free particle moved onto the pinned one.\<close>

definition collapsedPair :: ClothSheet where
  "collapsedPair =
     twoParticles\<lparr>particles :=
        [[\<lparr>position = Vec3 (Fin 0) (Fin 0) (Fin 0), prevPosition = Vec3 (Fin 0) (Fin 0) (Fin 0),
           acceleration = Vec3 (Fin 0) (Fin 0) (Fin 0), color = white,
           mass = PARTICLE_MASS_KG, pinned = True\<rparr>,
          \<lparr>position = Vec3 (Fin 0) (Fin 0) (Fin 0), prevPosition = Vec3 (Fin 0) (Fin 0) (Fin 0),
           acceleration = Vec3 (Fin 0) (Fin 0) (Fin 0), color = white,
           mass = PARTICLE_MASS_KG, pinned = False\<rparr>]]\<rparr>"

definition pairSpring :: Spring where
  "pairSpring = \<lparr>p0 = (0, 0), p1 = (0, 1), restLength = Fin 1\<rparr>"

section \<open>Properties of the wind generator\<close>

lemma times_minus_one_sq: "(a * Fin (- 1)) * (a * Fin (- 1)) = a * (a::GLfloat)"
  by (cases a) simp_all

lemma magnitude_flip: "magnitude (mulS v (Fin (- 1))) = magnitude v"
  by (simp add: magnitude_def mulS_def times_minus_one_sq)

lemma generateWindForce_enabled_irrelevant:
  "snd (generateWindForce deltaT (w\<lparr>enabled := b\<rparr>)) = (snd (generateWindForce deltaT w))\<lparr>enabled := b\<rparr>"
  by (simp add: generateWindForce_def Let_def)

lemma windRun_append: "windRun (cs @ ds) w = windRun ds (windRun cs w)"
  by (induction cs arbitrary: w) simp_all

lemma windRun_phase_aux:
  "windRun cs (w\<lparr>enabled := b\<rparr>) = (windRun [c \<leftarrow> cs. isTick c] w)\<lparr>enabled := enabled (windRun cs (w\<lparr>enabled := b\<rparr>))\<rparr>"
proof (induction cs arbitrary: w b)
  case Nil
  show ?case by simp
next
  case (Cons c cs)
  show ?case
  proof (cases c)
    case (Tick deltaT)
    have "windRun (c # cs) (w\<lparr>enabled := b\<rparr>)
          = windRun cs ((snd (generateWindForce deltaT w))\<lparr>enabled := b\<rparr>)"
      by (simp add: Tick generateWindForce_enabled_irrelevant)
    then show ?thesis
      using Cons.IH [where w = "snd (generateWindForce deltaT w)" and b = b] by (simp add: Tick)
  next
    case Toggle
    have "windRun (c # cs) (w\<lparr>enabled := b\<rparr>) = windRun cs (w\<lparr>enabled := \<not> b\<rparr>)"
      by (simp add: Toggle toggleWind_def)
    then show ?thesis
      using Cons.IH [where w = w and b = "\<not> b"] by (simp add: Toggle)
  qed
qed

text \<open>
  C5 (as amended). One call of \<^verbatim>\<open>generateWindForce\<close> adds \<open>deltaT\<close> to the accumulator;
  when the sum is strictly above 1200 the accumulator restarts from 0 and the wind vector
  is multiplied by -1, otherwise the vector is kept; so the vector is inverted at most once
  per call, whatever the size of \<open>deltaT\<close>. The magnitude of the stored vector never
  changes. The call returns the zero vector when the wind is disabled and the stored
  vector otherwise. The accumulator and the stored vector evolve in the same way whether
  the wind is enabled or not: in any run of calls, removing the \<^verbatim>\<open>toggleWind\<close> calls
  changes neither of them.
\<close>

theorem generateWindForce_flip:
  "(timeBlowing (snd (generateWindForce deltaT w)) =
      (if timeBlowing w + deltaT > 1200 then 0 else timeBlowing w + deltaT))
   \<and> (windForce (snd (generateWindForce deltaT w)) =
      (if timeBlowing w + deltaT > 1200 then mulS (windForce w) (Fin (- 1)) else windForce w))
   \<and> magnitude (windForce (snd (generateWindForce deltaT w))) = magnitude (windForce w)
   \<and> enabled (snd (generateWindForce deltaT w)) = enabled w
   \<and> fst (generateWindForce deltaT w) =
      (if enabled w then windForce (snd (generateWindForce deltaT w))
       else Vec3 (Fin 0) (Fin 0) (Fin 0))
   \<and> timeBlowing (windRun cs w) = timeBlowing (windRun [c \<leftarrow> cs. isTick c] w)
   \<and> windForce (windRun cs w) = windForce (windRun [c \<leftarrow> cs. isTick c] w)"
proof -
  have run: "windRun cs w = (windRun [c \<leftarrow> cs. isTick c] w)\<lparr>enabled := enabled (windRun cs w)\<rparr>"
    using windRun_phase_aux [where cs = cs and w = w and b = "enabled w"] by simp
  have tb: "timeBlowing (windRun cs w) = timeBlowing (windRun [c \<leftarrow> cs. isTick c] w)"
    by (subst run) simp
  have wfo: "windForce (windRun cs w) = windForce (windRun [c \<leftarrow> cs. isTick c] w)"
    by (subst run) simp
  show ?thesis
    using tb wfo by (simp add: generateWindForce_def Let_def magnitude_flip)
qed

text \<open>
  C5 as stated fails: a first call that brings the accumulator to exactly 1200 ends a
  whole 1200-unit window without inverting the vector, and a single call with
  \<open>deltaT = 3600\<close>, three windows long, inverts the vector once, not three times.
\<close>

theorem generateWindForce_window_counterexample:
  "flipCount [1200] (Wind_new (Vec3 (Fin 0) (Fin (- 2)) (Fin (- 1.5)))) = 0
   \<and> windForce (snd (generateWindForce 1200 (Wind_new (Vec3 (Fin 0) (Fin (- 2)) (Fin (- 1.5))))))
       = Vec3 (Fin 0) (Fin (- 2)) (Fin (- 1.5))
   \<and> flipCount [3600] (Wind_new (Vec3 (Fin 0) (Fin (- 2)) (Fin (- 1.5)))) = 1
   \<and> flipCount [3600, 1200] (Wind_new (Vec3 (Fin 0) (Fin (- 2)) (Fin (- 1.5)))) = 1"
  by (simp add: generateWindForce_def Wind_new_def Let_def)
section \<open>Reading and writing through particle pointers\<close>

lemma getP_updP_other: "r \<noteq> q \<Longrightarrow> getP (updP r f ps) q = getP ps q"
proof (cases "fst r < length ps")
  case True
  assume "r \<noteq> q"
  then have "fst r \<noteq> fst q \<or> snd r \<noteq> snd q"
    by (auto simp: prod_eq_iff)
  then show ?thesis
    using True by (auto simp: getP_def updP_def nth_list_update)
next
  case False
  then show ?thesis by (simp add: getP_def updP_def list_update_beyond)
qed

lemma getP_updP_same: "validRef ps r \<Longrightarrow> getP (updP r f ps) r = f (getP ps r)"
  by (simp add: getP_def updP_def validRef_def)

lemma validRef_updP: "validRef (updP r f ps) q = validRef ps q"
  by (cases "fst r = fst q") (auto simp: validRef_def updP_def)

lemma updP_invalid: "\<not> validRef ps r \<Longrightarrow> updP r f ps = ps"
  by (cases "fst r < length ps") (auto simp: validRef_def updP_def list_update_beyond)

lemma updP_id: "f (getP ps r) = getP ps r \<Longrightarrow> updP r f ps = ps"
  by (simp add: getP_def updP_def)

lemma getP_map: "validRef ps r \<Longrightarrow> getP (map (map f) ps) r = f (getP ps r)"
  by (simp add: getP_def validRef_def)

lemma validRef_map: "validRef (map (map f) ps) r = validRef ps r"
  by (auto simp: validRef_def)

section \<open>Verlet integration\<close>

lemma integrate_finite:
  assumes "position p = Vec3 (Fin x) (Fin y) (Fin z)"
    and "prevPosition p = Vec3 (Fin px) (Fin py) (Fin pz)"
    and "acceleration p = Vec3 (Fin ax) (Fin ay) (Fin az)"
    and "\<not> pinned p"
  shows "position (integrate p) =
           Vec3 (Fin (2 * x - 0.99998 * px + 0.01 * ax))
                (Fin (2 * y - 0.99998 * py + 0.01 * ay))
                (Fin (2 * z - 0.99998 * pz + 0.01 * az))"
  using assms
  by (simp add: integrate_def mulS_def plus_vec3_def minus_vec3_def damperConstD_def timeTSquared_def)

text \<open>
  C2. For every particle of the grid that is not pinned, the integration loop of
  \<^verbatim>\<open>move\<close> sets the position to (2 \<times> position) - (previous position \<times> damping constant)
  + (acceleration \<times> fixed time step squared), all read from that particle before the
  update, and sets the previous position to the position held before the update. The
  damping constant is 0.99998 and the squared time step is the constant 0.01, the square of 0.1. The
  whole step does not depend on the \<open>deltaT\<close> argument.
\<close>

theorem integrate_verlet:
  assumes "validRef (particles c) r"
    and "\<not> pinned (getP (particles c) r)"
  shows "position (getP (particles (integrateAll c)) r) =
           ((mulS (position (getP (particles c) r)) (Fin 2))
             - mulS (prevPosition (getP (particles c) r)) damperConstD)
           + (mulS (acceleration (getP (particles c) r)) timeTSquared)
       \<and> prevPosition (getP (particles (integrateAll c)) r) = position (getP (particles c) r)
       \<and> damperConstD = Fin 0.99998
       \<and> timeTSquared = Fin 0.1 * Fin 0.1
       \<and> move deltaT1 store sphere c = move deltaT2 store sphere c"
  using assms
  by (simp add: integrateAll_def getP_map integrate_def move_def timeTSquared_def damperConstD_def)

theorem integrate_verlet_witness:
  "validRef (particles twoParticles) (0, 1)
   \<and> \<not> pinned (getP (particles twoParticles) (0, 1))
   \<and> position (getP (particles (integrateAll twoParticles)) (0, 1))
        = Vec3 (Fin 1.50001) (Fin (- 0.01)) (Fin 0)
   \<and> prevPosition (getP (particles (integrateAll twoParticles)) (0, 1))
        = Vec3 (Fin 1) (Fin 0) (Fin 0)"
  using integrate_verlet [of twoParticles "(0, 1)"]
  by (simp add: twoParticles_def validRef_def getP_def mulS_def plus_vec3_def minus_vec3_def
      damperConstD_def timeTSquared_def)

section \<open>Detaching the cloth\<close>

lemma validRef_unpinAll: "validRef (unpinAll q ps) r = validRef ps r"
  by (induction q arbitrary: ps) (simp_all add: validRef_updP)

lemma pinned_unpinAll:
  "validRef ps r \<Longrightarrow> pinned (getP (unpinAll q ps) r) = (pinned (getP ps r) \<and> r \<notin> set q)"
proof (induction q arbitrary: ps)
  case Nil
  then show ?case by simp
next
  case (Cons a q)
  have v: "validRef (updP a (\<lambda>p. p\<lparr>pinned := False\<rparr>) ps) r"
    using Cons.prems by (simp add: validRef_updP)
  show ?case
  proof (cases "a = r")
    case True
    then show ?thesis
      using Cons.IH [OF v] Cons.prems by (simp add: getP_updP_same)
  next
    case False
    then show ?thesis
      using Cons.IH [OF v] by (auto simp: getP_updP_other)
  qed
qed

lemma detach_detach: "detach (detach c) = detach c"
  by (simp add: detach_def)

lemma detach_funpow: "(detach ^^ n) (detach c) = detach c"
  by (induction n) (simp_all add: detach_detach)

text \<open>
  C9. On a cloth whose pinned particles are all in the queue (as the constructor leaves
  it), after \<^verbatim>\<open>detach\<close> no particle of the grid is pinned and the queue is empty; calling
  \<^verbatim>\<open>detach\<close> again, any number of times, changes nothing.
\<close>

theorem detach_unpins_all:
  assumes "pinsQueued c"
    and "validRef (particles (detach c)) r"
  shows "\<not> pinned (getP (particles (detach c)) r)
       \<and> pinnedParticles (detach c) = []
       \<and> detach (detach c) = detach c
       \<and> (detach ^^ n) (detach c) = detach c"
proof -
  have v: "validRef (particles c) r"
    using assms(2) by (simp add: detach_def validRef_unpinAll)
  then have "pinned (getP (particles c) r) \<Longrightarrow> r \<in> set (pinnedParticles c)"
    using assms(1) by (cases r) (auto simp: pinsQueued_def validRef_def getP_def)
  then show ?thesis
    using v by (auto simp: detach_funpow detach_detach) (auto simp: detach_def pinned_unpinAll)
qed

theorem detach_unpins_all_witness:
  "pinsQueued twoParticles
   \<and> validRef (particles (detach twoParticles)) (0, 0)
   \<and> pinned (getP (particles twoParticles) (0, 0))
   \<and> \<not> pinned (getP (particles (detach twoParticles)) (0, 0))
   \<and> pinnedParticles (detach twoParticles) = []
   \<and> detach (detach twoParticles) = detach twoParticles"
proof -
  have q: "pinsQueued twoParticles"
    by (simp add: pinsQueued_def twoParticles_def less_Suc_eq)
  have v: "validRef (particles (detach twoParticles)) (0, 0)"
    by (simp add: validRef_unpinAll detach_def) (simp add: twoParticles_def validRef_def)
  have p: "pinned (getP (particles twoParticles) (0, 0))"
    by (simp add: twoParticles_def getP_def)
  show ?thesis
    using q v p detach_unpins_all [OF q v, of 0] by simp
qed

section \<open>What each stage of a step leaves unchanged\<close>

lemma getP_updP_keeps:
  assumes "\<And>p. h (f p) = h p"
  shows "h (getP (updP q f ps) r) = h (getP ps r)"
proof (cases "q = r")
  case True
  show ?thesis
  proof (cases "validRef ps r")
    case True
    then show ?thesis using \<open>q = r\<close> assms by (simp add: getP_updP_same)
  next
    case False
    then show ?thesis using \<open>q = r\<close> by (simp add: updP_invalid)
  qed
next
  case False
  then show ?thesis by (simp add: getP_updP_other)
qed

lemma length_updP: "length (updP q f ps) = length ps"
  by (simp add: updP_def)

subsection \<open>Force accumulation only writes accelerations\<close>

lemma windTriangle_keeps:
  assumes "\<And>p a. h (addAcceleration a p) = h p"
  shows "h (getP (windTriangle wind v0 v1 v2 ps) r) = h (getP ps r)"
  using assms by (simp add: windTriangle_def Let_def getP_updP_keeps)

lemma windQuad_keeps:
  assumes "\<And>p a. h (addAcceleration a p) = h p"
  shows "h (getP (windQuad wind k l ps) r) = h (getP ps r)"
  using assms by (simp add: windQuad_def windTriangle_keeps)

lemma windPass_keeps:
  assumes "\<And>p a. h (addAcceleration a p) = h p"
  shows "h (getP (windPass wind ps) r) = h (getP ps r)"
proof -
  have inner: "h (getP (fold (\<lambda>l ps''. windQuad wind k l ps'') ls ps') r) = h (getP ps' r)" for k ls ps'
    by (induction ls arbitrary: ps') (simp_all add: windQuad_keeps assms)
  have outer: "h (getP (fold (\<lambda>k ps'. fold (\<lambda>l ps''. windQuad wind k l ps'') (g k ps') ps') ks ps') r) = h (getP ps' r)"
    for ks ps' and g :: "nat \<Rightarrow> Particle list list \<Rightarrow> nat list"
    by (induction ks arbitrary: ps') (simp_all add: inner)
  show ?thesis
    unfolding windPass_def by (rule outer)
qed

lemma springForce_keeps:
  assumes "\<And>p a. h (p\<lparr>acceleration := a\<rparr>) = h p"
  shows "h (getP (springForce sp ps) r) = h (getP ps r)"
  using assms by (simp add: springForce_def Let_def getP_updP_keeps)

lemma springPass_keeps:
  assumes "\<And>p a. h (p\<lparr>acceleration := a\<rparr>) = h p"
  shows "h (getP (springPass sps ps) r) = h (getP ps r)"
proof -
  have inner: "h (getP (fold springForce row ps') r) = h (getP ps' r)" for row ps'
    by (induction row arbitrary: ps') (simp_all add: springForce_keeps assms)
  have "h (getP (fold (\<lambda>row ps'. fold springForce row ps') sps ps) r) = h (getP ps r)"
    by (induction sps arbitrary: ps) (simp_all add: inner)
  then show ?thesis by (simp add: springPass_def)
qed

lemma accumulateForces_keeps:
  assumes "\<And>p a. h (p\<lparr>acceleration := a\<rparr>) = h p"
  shows "h (getP (particles (accumulateForces c)) r) = h (getP (particles c) r)"
proof -
  have "h (addAcceleration a p) = h p" for a p
    by (simp add: addAcceleration_def assms)
  then show ?thesis
    by (simp add: accumulateForces_def Let_def springPass_keeps windPass_keeps assms)
qed

lemma accumulateForces_position:
  "position (getP (particles (accumulateForces c)) r) = position (getP (particles c) r)"
  by (rule accumulateForces_keeps) simp

lemma accumulateForces_pinned:
  "pinned (getP (particles (accumulateForces c)) r) = pinned (getP (particles c) r)"
  by (rule accumulateForces_keeps) simp

subsection \<open>Relaxation never writes a pinned particle\<close>

lemma relaxSpring_pinned_same:
  assumes "pinned (getP ps r)"
  shows "getP (relaxSpring sp ps) r = getP ps r"
proof -
  define vc where "vc = mulS (mulS (position (getP ps (p0 sp)) - position (getP ps (p1 sp)))
                          (Fin 1 - restLength sp / magnitude (position (getP ps (p0 sp)) - position (getP ps (p1 sp))))) (Fin 0.5)"
  define ps1 where "ps1 = (if \<not> pinned (getP ps (p0 sp))
                 then updP (p0 sp) (\<lambda>p. p\<lparr>position := position p - vc\<rparr>) ps else ps)"
  have r1: "getP ps1 r = getP ps r"
    using assms by (cases "p0 sp = r") (auto simp: ps1_def getP_updP_other)
  have "relaxSpring sp ps = (if \<not> pinned (getP ps1 (p1 sp))
          then updP (p1 sp) (\<lambda>p. p\<lparr>position := position p + vc\<rparr>) ps1 else ps1)"
    by (simp add: relaxSpring_def Let_def vc_def ps1_def)
  then show ?thesis
    using assms r1 by (cases "p1 sp = r") (auto simp: getP_updP_other)
qed

lemma relaxAll_pinned_same:
  assumes "pinned (getP ps r)"
  shows "getP (relaxAll sps ps) r = getP ps r"
proof -
  have inner: "pinned (getP ps' r) \<Longrightarrow> getP (fold relaxSpring row ps') r = getP ps' r" for row ps'
    by (induction row arbitrary: ps') (simp_all add: relaxSpring_pinned_same)
  have "pinned (getP ps r) \<Longrightarrow> getP (fold (\<lambda>row ps'. fold relaxSpring row ps') sps ps) r = getP ps r"
    by (induction sps arbitrary: ps) (simp_all add: inner)
  then show ?thesis using assms by (simp add: relaxAll_def)
qed

lemma relaxAll_funpow_pinned_same:
  assumes "pinned (getP ps r)"
  shows "getP ((relaxAll sps ^^ n) ps) r = getP ps r"
  using assms by (induction n) (simp_all add: relaxAll_pinned_same)

lemma satisfyConstraintsN_pinned_same:
  "pinned (getP (particles c) r) \<Longrightarrow>
     getP (particles (satisfyConstraintsN n c)) r = getP (particles c) r"
  by (simp add: satisfyConstraintsN_def relaxAll_funpow_pinned_same)

section \<open>Pinned particles through a step\<close>

lemma integrate_pinned: "pinned p \<Longrightarrow> integrate p = p"
  by (simp add: integrate_def)

lemma integrateAll_pinned_same:
  "validRef (particles c) r \<Longrightarrow> pinned (getP (particles c) r) \<Longrightarrow>
     getP (particles (integrateAll c)) r = getP (particles c) r"
  by (simp add: integrateAll_def getP_map integrate_pinned)

lemma validRef_collisions:
  "validRef (fold (\<lambda>a ps. map (map (g a)) ps) cs ps) r = validRef ps r"
  by (induction cs arbitrary: ps) (simp_all add: validRef_map)

lemma getP_collisions:
  "validRef ps r \<Longrightarrow>
     getP (fold (\<lambda>a ps. map (map (g a)) ps) cs ps) r = fold g cs (getP ps r)"
  by (induction cs arbitrary: ps) (simp_all add: validRef_map getP_map)

lemma getP_handleCollision:
  "validRef (particles c) r \<Longrightarrow>
     getP (particles (handleCollision store sphere c)) r
       = fold (\<lambda>a. collide (store a) (store sphere)) (potentialColliders c) (getP (particles c) r)"
  by (simp add: handleCollision_def getP_collisions)

lemma collide_outside: "\<not> contains s (position p) \<Longrightarrow> collide s g p = p"
  by (simp add: collide_def)

lemma fold_collide_outside:
  "\<forall>a \<in> set cs. \<not> contains (store a) (position p) \<Longrightarrow>
     fold (\<lambda>a. collide (store a) g) cs p = p"
  by (induction cs) (simp_all add: collide_outside)

subsection \<open>The shape of the grid\<close>

lemma shape_updP: "map length (updP q f ps) = map length ps"
  by (simp add: updP_def map_update) (metis length_list_update list_update_id length_map map_update)

lemma validRef_shape: "map length ps' = map length ps \<Longrightarrow> validRef ps' r = validRef ps r"
proof -
  assume a: "map length ps' = map length ps"
  then have l: "length ps' = length ps"
    by (metis length_map)
  have "fst r < length ps \<Longrightarrow> length (ps' ! fst r) = length (ps ! fst r)"
    using a l by (metis nth_map)
  then show ?thesis
    using l by (auto simp: validRef_def)
qed

lemma shape_windPass: "map length (windPass wind ps) = map length ps"
proof -
  have tri: "map length (windTriangle wind v0 v1 v2 ps') = map length ps'" for v0 v1 v2 ps'
    by (simp add: windTriangle_def Let_def shape_updP)
  have inner: "map length (fold (\<lambda>l ps''. windQuad wind k l ps'') ls ps') = map length ps'" for k ls ps'
    by (induction ls arbitrary: ps') (simp_all add: windQuad_def tri)
  have outer: "map length (fold (\<lambda>k ps'. fold (\<lambda>l ps''. windQuad wind k l ps'') (g k ps') ps') ks ps') = map length ps'"
    for ks ps' and g :: "nat \<Rightarrow> Particle list list \<Rightarrow> nat list"
    by (induction ks arbitrary: ps') (simp_all add: inner)
  show ?thesis
    unfolding windPass_def by (rule outer)
qed

lemma shape_springPass: "map length (springPass sps ps) = map length ps"
proof -
  have inner: "map length (fold springForce row ps') = map length ps'" for row ps'
    by (induction row arbitrary: ps') (simp_all add: springForce_def Let_def shape_updP)
  have "map length (fold (\<lambda>row ps'. fold springForce row ps') sps ps) = map length ps"
    by (induction sps arbitrary: ps) (simp_all add: inner)
  then show ?thesis by (simp add: springPass_def)
qed

lemma shape_accumulateForces:
  "map length (particles (accumulateForces c)) = map length (particles c)"
  by (simp add: accumulateForces_def Let_def shape_springPass shape_windPass)

lemma shape_relaxSpring: "map length (relaxSpring sp ps) = map length ps"
  by (simp add: relaxSpring_def Let_def shape_updP)

lemma shape_relaxAll: "map length (relaxAll sps ps) = map length ps"
proof -
  have inner: "map length (fold relaxSpring row ps') = map length ps'" for row ps'
    by (induction row arbitrary: ps') (simp_all add: shape_relaxSpring)
  have "map length (fold (\<lambda>row ps'. fold relaxSpring row ps') sps ps) = map length ps"
    by (induction sps arbitrary: ps) (simp_all add: inner)
  then show ?thesis by (simp add: relaxAll_def)
qed

lemma shape_satisfyConstraintsN:
  "map length (particles (satisfyConstraintsN n c)) = map length (particles c)"
  by (induction n) (simp_all add: satisfyConstraintsN_def shape_relaxAll)

lemma shape_integrateAll: "map length (particles (integrateAll c)) = map length (particles c)"
  by (simp add: integrateAll_def comp_def)

lemma shape_handleCollision:
  "map length (particles (handleCollision store sphere c)) = map length (particles c)"
proof -
  have "map length (fold (\<lambda>a ps. map (map (g a)) ps) cs ps) = map length ps" for g :: "nat \<Rightarrow> Particle \<Rightarrow> Particle" and cs ps
    by (induction cs arbitrary: ps) (simp_all add: comp_def)
  then show ?thesis by (simp add: handleCollision_def)
qed

lemma shape_move: "map length (particles (move deltaT store sphere c)) = map length (particles c)"
  by (simp add: move_def shape_handleCollision shape_integrateAll satisfyConstraints_def
      shape_satisfyConstraintsN shape_accumulateForces)

subsection \<open>Fields that a step never writes\<close>

lemma move_colliders: "potentialColliders (move deltaT store sphere c) = potentialColliders c"
  by (simp add: move_def handleCollision_def integrateAll_def satisfyConstraints_def
      satisfyConstraintsN_def accumulateForces_def Let_def)

lemma move_queue: "pinnedParticles (move deltaT store sphere c) = pinnedParticles c"
  by (simp add: move_def handleCollision_def integrateAll_def satisfyConstraints_def
      satisfyConstraintsN_def accumulateForces_def Let_def)

lemma move_springs: "springs (move deltaT store sphere c) = springs c"
  by (simp add: move_def handleCollision_def integrateAll_def satisfyConstraints_def
      satisfyConstraintsN_def accumulateForces_def Let_def)

subsection \<open>A pinned particle through one step\<close>

lemma before_collision_pinned:
  assumes "validRef (particles c) r" and "pinned (getP (particles c) r)"
  shows "position (getP (particles (integrateAll (satisfyConstraints (accumulateForces c)))) r)
           = position (getP (particles c) r)
       \<and> pinned (getP (particles (integrateAll (satisfyConstraints (accumulateForces c)))) r)
       \<and> validRef (particles (integrateAll (satisfyConstraints (accumulateForces c)))) r"
proof -
  let ?a = "accumulateForces c"
  let ?s = "satisfyConstraints ?a"
  have pa: "pinned (getP (particles ?a) r)"
    using assms(2) by (simp add: accumulateForces_pinned)
  have sa: "getP (particles ?s) r = getP (particles ?a) r"
    using pa by (simp add: satisfyConstraints_def satisfyConstraintsN_pinned_same)
  have vs: "validRef (particles ?s) r"
    using assms(1)
    by (simp add: validRef_shape [OF shape_satisfyConstraintsN] satisfyConstraints_def
        validRef_shape [OF shape_accumulateForces])
  have ia: "getP (particles (integrateAll ?s)) r = getP (particles ?s) r"
    using vs pa sa by (simp add: integrateAll_pinned_same)
  have vi: "validRef (particles (integrateAll ?s)) r"
    using vs by (simp add: validRef_shape [OF shape_integrateAll])
  show ?thesis
    using ia sa pa vi by (simp add: accumulateForces_position)
qed

lemma collide_pinned: "pinned (collide s g p) = pinned p"
  by (simp add: collide_def Let_def)

lemma fold_collide_pinned: "pinned (fold (\<lambda>a. collide (store a) g) cs p) = pinned p"
  by (induction cs arbitrary: p) (simp_all add: collide_pinned)

lemma move_pinned_outside:
  assumes "validRef (particles c) r" and "pinned (getP (particles c) r)"
    and "\<forall>a \<in> set (potentialColliders c). \<not> contains (store a) (position (getP (particles c) r))"
  shows "position (getP (particles (move deltaT store sphere c)) r) = position (getP (particles c) r)
       \<and> pinned (getP (particles (move deltaT store sphere c)) r)"
proof -
  let ?b = "integrateAll (satisfyConstraints (accumulateForces c))"
  have b: "position (getP (particles ?b) r) = position (getP (particles c) r)"
    "pinned (getP (particles ?b) r)" "validRef (particles ?b) r"
    using before_collision_pinned [OF assms(1,2)] by simp_all
  have cs: "potentialColliders ?b = potentialColliders c"
    by (simp add: integrateAll_def satisfyConstraints_def satisfyConstraintsN_def
        accumulateForces_def Let_def)
  have "getP (particles (move deltaT store sphere c)) r
          = fold (\<lambda>a. collide (store a) (store sphere)) (potentialColliders c) (getP (particles ?b) r)"
    using b(3) cs by (simp add: move_def getP_handleCollision)
  also have "\<dots> = getP (particles ?b) r"
    using assms(3) b(1) by (simp add: fold_collide_outside)
  finally show ?thesis
    using b by simp
qed

lemma frame_pinned_outside:
  assumes "validRef (particles c) r" and "pinned (getP (particles c) r)"
    and "\<forall>a \<in> set (potentialColliders c). \<not> contains (frameSpheres f a) (position (getP (particles c) r))"
  shows "position (getP (particles (frame sphere f c)) r) = position (getP (particles c) r)
       \<and> pinned (getP (particles (frame sphere f c)) r)
       \<and> validRef (particles (frame sphere f c)) r
       \<and> potentialColliders (frame sphere f c) = potentialColliders c"
  using move_pinned_outside [of "applyWindForce (frameWind f) c" r "frameSpheres f" "frameDeltaT f" sphere] assms
  by (simp add: frame_def applyWindForce_def move_colliders validRef_shape [OF shape_move])

lemma frames_pinned_outside:
  assumes "validRef (particles c) r" and "pinned (getP (particles c) r)"
    and "\<forall>f \<in> set fs. \<forall>a \<in> set (potentialColliders c).
           \<not> contains (frameSpheres f a) (position (getP (particles c) r))"
  shows "position (getP (particles (frames sphere fs c)) r) = position (getP (particles c) r)
       \<and> pinned (getP (particles (frames sphere fs c)) r)"
  using assms
proof (induction fs arbitrary: c)
  case Nil
  then show ?case by simp
next
  case (Cons f fs)
  have st: "position (getP (particles (frame sphere f c)) r) = position (getP (particles c) r)"
    "pinned (getP (particles (frame sphere f c)) r)"
    "validRef (particles (frame sphere f c)) r"
    "potentialColliders (frame sphere f c) = potentialColliders c"
    using frame_pinned_outside [OF Cons.prems(1,2), of f sphere] Cons.prems(3) by simp_all
  have "position (getP (particles (frames sphere fs (frame sphere f c))) r)
          = position (getP (particles (frame sphere f c)) r)
        \<and> pinned (getP (particles (frames sphere fs (frame sphere f c))) r)"
    using Cons.prems(3) st by (intro Cons.IH) simp_all
  then show ?case
    using st by simp
qed

subsection \<open>Evaluating a collision\<close>

lemma magnitude_x_axis: "magnitude (Vec3 (Fin a) (Fin 0) (Fin 0)) = Fin \<bar>a\<bar>"
  by (simp add: magnitude_def)

lemma position_collide:
  "position (collide s g p) =
     (if contains s (position p)
      then spherePosition s + mulS (normalize (position p - spherePosition s)) (radius g)
             + mulS (mulS (normalize (position p - spherePosition s)) (radius g)) offsetScalar
      else position p)"
  by (simp add: collide_def Let_def)

section \<open>C1: pinned particles\<close>

text \<open>
  C1 (as amended). For every particle of the grid whose pinned flag is set, force
  accumulation, constraint relaxation (any number of iterations) and the integration loop
  leave its position unchanged; and over any run of frames (wind update, then
  \<^verbatim>\<open>move\<close>) during which no registered collider holds that position strictly inside
  its radius, the position is unchanged and the particle stays pinned. Collision
  resolution itself has no test of the pinned flag.
\<close>

theorem pinned_position_invariant:
  assumes "validRef (particles c) r"
    and "pinned (getP (particles c) r)"
    and "\<forall>f \<in> set fs. \<forall>a \<in> set (potentialColliders c).
           \<not> contains (frameSpheres f a) (position (getP (particles c) r))"
  shows "position (getP (particles (accumulateForces c)) r) = position (getP (particles c) r)
       \<and> position (getP (particles (satisfyConstraintsN n c)) r) = position (getP (particles c) r)
       \<and> position (getP (particles (integrateAll c)) r) = position (getP (particles c) r)
       \<and> position (getP (particles (frames sphere fs c)) r) = position (getP (particles c) r)
       \<and> pinned (getP (particles (frames sphere fs c)) r)"
  using assms frames_pinned_outside [OF assms, of sphere]
  by (simp add: accumulateForces_position satisfyConstraintsN_pinned_same integrateAll_pinned_same)

theorem pinned_position_invariant_witness:
  "validRef (particles (pushCollidable 0 twoParticles)) (0, 0)
   \<and> pinned (getP (particles (pushCollidable 0 twoParticles)) (0, 0))
   \<and> potentialColliders (pushCollidable 0 twoParticles) = [0]
   \<and> \<not> contains (frameSpheres farFrame 0) (position (getP (particles (pushCollidable 0 twoParticles)) (0, 0)))
   \<and> position (getP (particles (frames 0 [farFrame, farFrame] (pushCollidable 0 twoParticles))) (0, 0))
        = Vec3 (Fin 0) (Fin 0) (Fin 0)"
proof -
  let ?c = "pushCollidable 0 twoParticles"
  have v: "validRef (particles ?c) (0, 0)"
    by (simp add: pushCollidable_def twoParticles_def validRef_def)
  have p: "pinned (getP (particles ?c) (0, 0))"
    by (simp add: pushCollidable_def twoParticles_def getP_def)
  have pos: "position (getP (particles ?c) (0, 0)) = Vec3 (Fin 0) (Fin 0) (Fin 0)"
    by (simp add: pushCollidable_def twoParticles_def getP_def)
  have cs: "potentialColliders ?c = [0]"
    by (simp add: pushCollidable_def twoParticles_def)
  have out: "\<not> contains (frameSpheres farFrame 0) (position (getP (particles ?c) (0, 0)))"
    by (simp add: pos farFrame_def farStore_def farSphere_def contains_def minus_vec3_def
        magnitude_x_axis)
  have h: "\<forall>f \<in> set [farFrame, farFrame]. \<forall>a \<in> set (potentialColliders ?c).
             \<not> contains (frameSpheres f a) (position (getP (particles ?c) (0, 0)))"
    using out cs by simp
  show ?thesis
    using pinned_position_invariant [OF v p h, of 0 0] v p cs out pos by simp
qed

text \<open>
  C1 as stated fails for a collider that reaches a pinned particle: the pinned particle at
  the origin, at distance 1 from the centre \<open>(-1, 0, 0)\<close> of a registered sphere of radius
  2, is moved by one \<^verbatim>\<open>move\<close> to \<open>(1.06, 0, 0)\<close>, the surface of the sphere plus the
  3 percent offset.
\<close>

theorem pinned_in_collider_counterexample:
  "pinned (getP (particles (pushCollidable 0 twoParticles)) (0, 0))
   \<and> position (getP (particles (pushCollidable 0 twoParticles)) (0, 0)) = Vec3 (Fin 0) (Fin 0) (Fin 0)
   \<and> position (getP (particles (move 17 nearStore 0 (pushCollidable 0 twoParticles))) (0, 0))
        = Vec3 (Fin 1.06) (Fin 0) (Fin 0)"
proof -
  let ?c = "pushCollidable 0 twoParticles"
  let ?b = "integrateAll (satisfyConstraints (accumulateForces ?c))"
  have v: "validRef (particles ?c) (0, 0)"
    by (simp add: pushCollidable_def twoParticles_def validRef_def)
  have p: "pinned (getP (particles ?c) (0, 0))"
    by (simp add: pushCollidable_def twoParticles_def getP_def)
  have pos: "position (getP (particles ?c) (0, 0)) = Vec3 (Fin 0) (Fin 0) (Fin 0)"
    by (simp add: pushCollidable_def twoParticles_def getP_def)
  have b: "position (getP (particles ?b) (0, 0)) = Vec3 (Fin 0) (Fin 0) (Fin 0)"
    "validRef (particles ?b) (0, 0)"
    using before_collision_pinned [OF v p] pos by simp_all
  have cs: "potentialColliders ?b = [0]"
    by (simp add: integrateAll_def satisfyConstraints_def satisfyConstraintsN_def
        accumulateForces_def Let_def pushCollidable_def twoParticles_def)
  have "position (getP (particles (move 17 nearStore 0 ?c)) (0, 0))
          = position (collide nearSphere nearSphere (getP (particles ?b) (0, 0)))"
    using b(2) cs by (simp add: move_def getP_handleCollision nearStore_def)
  also have "\<dots> = Vec3 (Fin 1.06) (Fin 0) (Fin 0)"
    by (simp add: position_collide b(1) nearSphere_def contains_def minus_vec3_def plus_vec3_def
        magnitude_x_axis normalize_def divS_def mulS_def offsetScalar_def)
  finally show ?thesis
    using p pos by simp
qed

section \<open>Finite floats behind a successful test\<close>

lemma less_GLfloatE:
  assumes "(u::GLfloat) < v"
  obtains a b where "u = Fin a" "v = Fin b" "a < b"
  using assms by (cases u; cases v) simp_all

lemma fsqrt_FinE:
  assumes "fsqrt u = Fin m"
  obtains a where "u = Fin a" "0 \<le> a" "m = sqrt a"
  using assms by (cases u) (auto split: if_splits)

lemma plus_FinE:
  assumes "(u::GLfloat) + v = Fin s"
  obtains a b where "u = Fin a" "v = Fin b" "s = a + b"
  using assms by (cases u; cases v) auto

lemma minus_FinE:
  assumes "(u::GLfloat) - v = Fin s"
  obtains a b where "u = Fin a" "v = Fin b" "s = a - b"
  using assms by (cases u; cases v) auto

lemma times_FinE:
  assumes "(u::GLfloat) * v = Fin s"
  obtains a b where "u = Fin a" "v = Fin b" "s = a * b"
  using assms by (cases u; cases v) auto

lemma magnitude_FinE:
  assumes "magnitude v = Fin m"
  obtains a b c where "v = Vec3 (Fin a) (Fin b) (Fin c)" "m = sqrt (a * a + b * b + c * c)"
proof -
  obtain s where s: "(vx v * vx v) + (vy v * vy v) + (vz v * vz v) = Fin s" "m = sqrt s"
    using assms unfolding magnitude_def by (elim fsqrt_FinE) auto
  obtain s1 s2 where s12: "(vx v * vx v) + (vy v * vy v) = Fin s1" "vz v * vz v = Fin s2" "s = s1 + s2"
    using s(1) by (elim plus_FinE) auto
  obtain s3 s4 where s34: "vx v * vx v = Fin s3" "vy v * vy v = Fin s4" "s1 = s3 + s4"
    using s12(1) by (elim plus_FinE) auto
  obtain a where a: "vx v = Fin a" "s3 = a * a"
    using s34(1) by (elim times_FinE) auto
  obtain b where b: "vy v = Fin b" "s4 = b * b"
    using s34(2) by (elim times_FinE) auto
  obtain c where c: "vz v = Fin c" "s2 = c * c"
    using s12(2) by (elim times_FinE) auto
  have "v = Vec3 (Fin a) (Fin b) (Fin c)"
    using a b c by (cases v) simp
  then show ?thesis
    using that s s12 s34 a b c by simp
qed

lemma minus_vec3_FinE:
  assumes "u - w = Vec3 (Fin a) (Fin b) (Fin c)"
  obtains x y z cx cy cz where "u = Vec3 (Fin x) (Fin y) (Fin z)" "w = Vec3 (Fin cx) (Fin cy) (Fin cz)"
    "a = x - cx" "b = y - cy" "c = z - cz"
proof -
  have e: "vx u - vx w = Fin a" "vy u - vy w = Fin b" "vz u - vz w = Fin c"
    using assms by (simp_all add: minus_vec3_def)
  obtain x cx where x: "vx u = Fin x" "vx w = Fin cx" "a = x - cx"
    using e(1) by (elim minus_FinE) auto
  obtain y cy where y: "vy u = Fin y" "vy w = Fin cy" "b = y - cy"
    using e(2) by (elim minus_FinE) auto
  obtain z cz where z: "vz u = Fin z" "vz w = Fin cz" "c = z - cz"
    using e(3) by (elim minus_FinE) auto
  have "u = Vec3 (Fin x) (Fin y) (Fin z)"
    using x y z by (cases u) simp
  moreover have "w = Vec3 (Fin cx) (Fin cy) (Fin cz)"
    using x y z by (cases w) simp
  ultimately show ?thesis
    using that x y z by simp
qed

text \<open>The shape of a containment test that succeeds.\<close>

lemma containsE:
  assumes "contains s pt"
  obtains x y z cx cy cz rr where
    "pt = Vec3 (Fin x) (Fin y) (Fin z)"
    "spherePosition s = Vec3 (Fin cx) (Fin cy) (Fin cz)"
    "radius s = Fin rr"
    "sqrt ((x - cx) * (x - cx) + (y - cy) * (y - cy) + (z - cz) * (z - cz)) < rr"
proof -
  obtain m rr where m: "magnitude (pt - spherePosition s) = Fin m" "radius s = Fin rr" "m < rr"
    using assms unfolding contains_def by (elim less_GLfloatE) auto
  obtain a b c where abc: "pt - spherePosition s = Vec3 (Fin a) (Fin b) (Fin c)"
      "m = sqrt (a * a + b * b + c * c)"
    using m(1) by (elim magnitude_FinE) auto
  obtain x y z cx cy cz where "pt = Vec3 (Fin x) (Fin y) (Fin z)"
      "spherePosition s = Vec3 (Fin cx) (Fin cy) (Fin cz)" "a = x - cx" "b = y - cy" "c = z - cz"
    using abc(1) by (elim minus_vec3_FinE) auto
  then show ?thesis
    using that m abc by simp
qed

lemma projected_distance:
  fixes a b c d rr k :: real
  assumes "d = sqrt (a * a + b * b + c * c)" and "0 < d" and "0 \<le> rr" and "0 \<le> k"
  shows "sqrt ((cx + a / d * rr + a / d * rr * k - cx) * (cx + a / d * rr + a / d * rr * k - cx)
             + (cy + b / d * rr + b / d * rr * k - cy) * (cy + b / d * rr + b / d * rr * k - cy)
             + (cz + c / d * rr + c / d * rr * k - cz) * (cz + c / d * rr + c / d * rr * k - cz))
         = rr + rr * k"
proof -
  have dd: "d * d = a * a + b * b + c * c"
    using assms(1,2) by (metis abs_of_nonneg less_eq_real_def real_sqrt_abs2 real_sqrt_mult_self real_sqrt_ge_0_iff
        real_sqrt_mult)
  let ?q = "(rr + rr * k) / d"
  have "(cx + a / d * rr + a / d * rr * k - cx) * (cx + a / d * rr + a / d * rr * k - cx)
             + (cy + b / d * rr + b / d * rr * k - cy) * (cy + b / d * rr + b / d * rr * k - cy)
             + (cz + c / d * rr + c / d * rr * k - cz) * (cz + c / d * rr + c / d * rr * k - cz)
        = ?q * ?q * (a * a + b * b + c * c)"
    using assms(2) by (simp add: field_simps)
  also have "\<dots> = ?q * ?q * (d * d)"
    by (simp only: dd)
  also have "\<dots> = (rr + rr * k) * (rr + rr * k)"
    using assms(2) by simp
  finally show ?thesis
    using assms(3,4) by (simp add: real_sqrt_mult_self)
qed

section \<open>Projection onto the collider\<close>

lemma sum_squares_nonneg: "\<not> (a * a + b * b + c * c < (0::real))"
proof -
  have "0 \<le> a * a" "0 \<le> b * b" "0 \<le> c * c" by simp_all
  then show ?thesis by linarith
qed

lemma magnitude_Fin:
  "magnitude (Vec3 (Fin a) (Fin b) (Fin c)) = Fin (sqrt (a * a + b * b + c * c))"
  by (simp add: magnitude_def sum_squares_nonneg)

lemma magnitude_diff_Fin:
  "magnitude (Vec3 (Fin x) (Fin y) (Fin z) - Vec3 (Fin cx) (Fin cy) (Fin cz))
     = Fin (sqrt ((x - cx) * (x - cx) + (y - cy) * (y - cy) + (z - cz) * (z - cz)))"
  by (simp add: magnitude_Fin minus_vec3_def)

lemma sum_squares_pos:
  fixes a b c :: real
  assumes "a \<noteq> 0 \<or> b \<noteq> 0 \<or> c \<noteq> 0"
  shows "0 < sqrt (a * a + b * b + c * c)"
proof -
  have "0 \<le> a * a" "0 \<le> b * b" "0 \<le> c * c" by simp_all
  moreover have "0 < a * a \<or> 0 < b * b \<or> 0 < c * c"
    using assms by (auto simp: zero_less_mult_iff not_less)
  ultimately have "0 < a * a + b * b + c * c"
    by linarith
  then show ?thesis by simp
qed

lemma collide_projects:
  assumes "contains s (position p)"
    and "position p \<noteq> spherePosition s"
    and "radius g = radius s"
  shows "magnitude (position (collide s g p) - spherePosition s) = radius s + radius s * offsetScalar"
    and "\<not> contains s (position (collide s g p))"
proof -
  obtain x y z cx cy cz rr where f:
    "position p = Vec3 (Fin x) (Fin y) (Fin z)"
    "spherePosition s = Vec3 (Fin cx) (Fin cy) (Fin cz)"
    "radius s = Fin rr"
    "sqrt ((x - cx) * (x - cx) + (y - cy) * (y - cy) + (z - cz) * (z - cz)) < rr"
    using assms(1) by (rule containsE)
  define d where "d = sqrt ((x - cx) * (x - cx) + (y - cy) * (y - cy) + (z - cz) * (z - cz))"
  have ne: "x - cx \<noteq> 0 \<or> y - cy \<noteq> 0 \<or> z - cz \<noteq> 0"
    using assms(2) f by auto
  have dpos: "0 < d"
    unfolding d_def by (rule sum_squares_pos [OF ne])
  have rpos: "0 \<le> rr"
    using f(4) dpos [unfolded d_def] by linarith
  have m: "magnitude (position p - spherePosition s) = Fin d"
    by (simp add: f magnitude_diff_Fin d_def)
  have newpos: "position (collide s g p) =
      Vec3 (Fin (cx + (x - cx) / d * rr + (x - cx) / d * rr * 0.03))
           (Fin (cy + (y - cy) / d * rr + (y - cy) / d * rr * 0.03))
           (Fin (cz + (z - cz) / d * rr + (z - cz) / d * rr * 0.03))"
    using assms(1,3) dpos
    by (simp add: position_collide normalize_def m)
       (simp add: f divS_def mulS_def minus_vec3_def plus_vec3_def offsetScalar_def)
  have dist: "magnitude (position (collide s g p) - spherePosition s) = Fin (rr + rr * 0.03)"
    unfolding newpos f(2) magnitude_diff_Fin
    using projected_distance [OF d_def dpos rpos, of "0.03" cx cy cz] by simp
  show "magnitude (position (collide s g p) - spherePosition s) = radius s + radius s * offsetScalar"
    by (simp add: dist f(3) offsetScalar_def)
  show "\<not> contains s (position (collide s g p))"
    using rpos by (simp add: contains_def dist f(3))
qed

lemma collide_centre:
  assumes "contains s (position p)"
    and "position p = spherePosition s"
  shows "position (collide s g p) = Vec3 NonFinite NonFinite NonFinite"
    and "\<not> contains s (position (collide s g p))"
proof -
  obtain x y z cx cy cz rr where f:
    "position p = Vec3 (Fin x) (Fin y) (Fin z)"
    "spherePosition s = Vec3 (Fin cx) (Fin cy) (Fin cz)"
    using assms(1) by (rule containsE)
  have e: "x = cx" "y = cy" "z = cz"
    using assms(2) f by simp_all
  show n: "position (collide s g p) = Vec3 NonFinite NonFinite NonFinite"
    using assms(1)
    by (simp add: position_collide f e magnitude_diff_Fin normalize_def)
       (simp add: divS_def mulS_def minus_vec3_def plus_vec3_def)
  show "\<not> contains s (position (collide s g p))"
    by (simp add: n contains_def magnitude_def minus_vec3_def)
qed

lemma collide_idem: "collide s s (collide s s p) = collide s s p"
proof (cases "contains s (position p)")
  case True
  have "\<not> contains s (position (collide s s p))"
    using True collide_projects(2) [of s p s] collide_centre(2) [of s p s]
    by (cases "position p = spherePosition s") simp_all
  then show ?thesis
    by (simp add: collide_outside)
next
  case False
  then show ?thesis by (simp add: collide_outside)
qed

lemma handleCollision_idem:
  assumes "potentialColliders c = [sphere]"
  shows "handleCollision store sphere (handleCollision store sphere c) = handleCollision store sphere c"
  using assms by (simp add: handleCollision_def comp_def collide_idem)

lemma handleCollision_funpow_idem:
  assumes "potentialColliders c = [sphere]"
  shows "(handleCollision store sphere ^^ n) (handleCollision store sphere c) = handleCollision store sphere c"
  by (induction n) (simp_all add: handleCollision_idem [OF assms])

lemma collide_prevPosition: "prevPosition (collide s g p) = prevPosition p"
  by (simp add: collide_def Let_def)

lemma fold_collide_prevPosition:
  "prevPosition (fold (\<lambda>a. collide (store a) g) cs p) = prevPosition p"
  by (induction cs arbitrary: p) (simp_all add: collide_prevPosition)

lemmas collide_eval = position_collide contains_def minus_vec3_def plus_vec3_def
  magnitude_x_axis normalize_def divS_def mulS_def offsetScalar_def

section \<open>C4: collision resolution\<close>

text \<open>
  C4 (as amended). When the one registered collider is the global sphere, a particle of
  the grid whose position lies strictly inside its radius, and not exactly at its centre,
  is after one pass of \<^verbatim>\<open>handleCollision\<close> at distance radius + radius \<times> 0.03 from
  the centre of the collider; further passes with the collider at rest change nothing
  at all, so the distance never decreases; and the pass does not modify the previous
  position of the particle.
\<close>

theorem collision_projects_to_offset_surface:
  assumes "validRef (particles c) r"
    and "potentialColliders c = [sphere]"
    and "contains (store sphere) (position (getP (particles c) r))"
    and "position (getP (particles c) r) \<noteq> spherePosition (store sphere)"
  shows "magnitude (position (getP (particles (handleCollision store sphere c)) r)
                     - spherePosition (store sphere))
           = radius (store sphere) + radius (store sphere) * offsetScalar
       \<and> (handleCollision store sphere ^^ n) (handleCollision store sphere c)
           = handleCollision store sphere c
       \<and> prevPosition (getP (particles (handleCollision store sphere c)) r)
           = prevPosition (getP (particles c) r)"
  using assms
  by (simp add: getP_handleCollision collide_projects(1) handleCollision_funpow_idem
      collide_prevPosition)

theorem collision_projects_to_offset_surface_witness:
  "validRef (particles (pushCollidable 0 twoParticles)) (0, 0)
   \<and> potentialColliders (pushCollidable 0 twoParticles) = [0]
   \<and> contains (nearStore 0) (position (getP (particles (pushCollidable 0 twoParticles)) (0, 0)))
   \<and> position (getP (particles (pushCollidable 0 twoParticles)) (0, 0)) \<noteq> spherePosition (nearStore 0)
   \<and> magnitude (position (getP (particles (handleCollision nearStore 0 (pushCollidable 0 twoParticles))) (0, 0))
                    - spherePosition (nearStore 0))
        = Fin 2.06"
proof -
  let ?c = "pushCollidable 0 twoParticles"
  have v: "validRef (particles ?c) (0, 0)"
    by (simp add: pushCollidable_def twoParticles_def validRef_def)
  have cs: "potentialColliders ?c = [0]"
    by (simp add: pushCollidable_def twoParticles_def)
  have pos: "position (getP (particles ?c) (0, 0)) = Vec3 (Fin 0) (Fin 0) (Fin 0)"
    by (simp add: pushCollidable_def twoParticles_def getP_def)
  have inside: "contains (nearStore 0) (position (getP (particles ?c) (0, 0)))"
    by (simp add: pos nearStore_def nearSphere_def contains_def minus_vec3_def magnitude_x_axis)
  have off: "position (getP (particles ?c) (0, 0)) \<noteq> spherePosition (nearStore 0)"
    by (simp add: pos nearStore_def nearSphere_def)
  have "radius (nearStore 0) + radius (nearStore 0) * offsetScalar = Fin 2.06"
    by (simp add: nearStore_def nearSphere_def offsetScalar_def)
  then show ?thesis
    using collision_projects_to_offset_surface
            [where c = "?c" and r = "(0, 0)" and sphere = 0 and store = nearStore and n = 0]
          v cs inside off
    by simp
qed

text \<open>
  C4 as stated fails in three ways. With two registered colliders of radius 2 that both
  hold the particle, the pass ends at distance 4.06 from the centre of the first one,
  not 2.06. A particle exactly at the centre of a collider gets a non-finite position.
  And the radius is read from the global sphere: with a global sphere of radius 1 and a
  registered collider of radius 2 the particle ends at distance 1.03 from the centre of
  the collider, not 2.06.
\<close>

theorem collision_distance_counterexample:
  "contains (twoStore 0) (position (getP (particles (pushCollidable 1 (pushCollidable 0 twoParticles))) (0, 0)))
   \<and> radius (twoStore 0) + radius (twoStore 0) * offsetScalar = Fin 2.06
   \<and> magnitude (position (getP (particles (handleCollision twoStore 0
                       (pushCollidable 1 (pushCollidable 0 twoParticles)))) (0, 0))
                    - spherePosition (twoStore 0))
        = Fin 4.06
   \<and> contains (centredStore 0) (position (getP (particles (pushCollidable 0 twoParticles)) (0, 1)))
   \<and> position (getP (particles (handleCollision centredStore 0 (pushCollidable 0 twoParticles))) (0, 1))
        = Vec3 NonFinite NonFinite NonFinite
   \<and> contains (smallStore 1) (position (getP (particles (pushCollidable 1 twoParticles)) (0, 0)))
   \<and> radius (smallStore 1) + radius (smallStore 1) * offsetScalar = Fin 2.06
   \<and> magnitude (position (getP (particles (handleCollision smallStore 0 (pushCollidable 1 twoParticles))) (0, 0))
                    - spherePosition (smallStore 1))
        = Fin 1.03"
proof -
  have v0: "validRef (particles (pushCollidable a c)) r = validRef (particles c) r" for a c r
    by (simp add: pushCollidable_def)
  have v: "validRef (particles twoParticles) (0, 0)" "validRef (particles twoParticles) (0, Suc 0)"
    by (simp_all add: twoParticles_def validRef_def)
  have g: "getP (particles (pushCollidable a c)) r = getP (particles c) r" for a c r
    by (simp add: pushCollidable_def)
  have p0: "position (getP (particles twoParticles) (0, 0)) = Vec3 (Fin 0) (Fin 0) (Fin 0)"
    by (simp add: twoParticles_def getP_def)
  have p1: "position (getP (particles twoParticles) (0, Suc 0)) = Vec3 (Fin 1) (Fin 0) (Fin 0)"
    by (simp add: twoParticles_def getP_def)
  have cs: "potentialColliders (pushCollidable a c) = potentialColliders c @ [a]"
    "potentialColliders twoParticles = []" for a c
    by (simp_all add: pushCollidable_def twoParticles_def)
  have a1: "contains (twoStore 0) (position (getP (particles (pushCollidable 1 (pushCollidable 0 twoParticles))) (0, 0)))"
    by (simp add: g p0 twoStore_def nearSphere_def collide_eval)
  have a2: "radius (twoStore 0) + radius (twoStore 0) * offsetScalar = Fin 2.06"
    by (simp add: twoStore_def nearSphere_def offsetScalar_def)
  have s1: "position (collide nearSphere nearSphere (getP (particles twoParticles) (0, 0)))
              = Vec3 (Fin 1.06) (Fin 0) (Fin 0)"
    by (simp add: p0 nearSphere_def collide_eval)
  have s2: "position (collide centredSphere nearSphere
              (collide nearSphere nearSphere (getP (particles twoParticles) (0, 0))))
              = Vec3 (Fin 3.06) (Fin 0) (Fin 0)"
    by (simp add: position_collide [of centredSphere] s1) (simp add: centredSphere_def nearSphere_def collide_eval)
  have a3: "magnitude (position (getP (particles (handleCollision twoStore 0
                       (pushCollidable 1 (pushCollidable 0 twoParticles)))) (0, 0))
                    - spherePosition (twoStore 0)) = Fin 4.06"
  proof -
    have "getP (particles (handleCollision twoStore 0
                       (pushCollidable 1 (pushCollidable 0 twoParticles)))) (0, 0)
            = collide centredSphere nearSphere
                (collide nearSphere nearSphere (getP (particles twoParticles) (0, 0)))"
      by (simp add: getP_handleCollision v0 v cs g twoStore_def)
    then show ?thesis
      by (simp add: s2) (simp add: twoStore_def nearSphere_def minus_vec3_def magnitude_x_axis)
  qed
  have b1: "contains (centredStore 0) (position (getP (particles (pushCollidable 0 twoParticles)) (0, 1)))"
    by (simp add: g p1 centredStore_def centredSphere_def collide_eval)
  have b2: "position (getP (particles (handleCollision centredStore 0 (pushCollidable 0 twoParticles))) (0, 1))
        = Vec3 NonFinite NonFinite NonFinite"
    by (simp add: getP_handleCollision v0 v cs g centredStore_def position_collide [of centredSphere] p1)
       (simp add: centredSphere_def collide_eval)
  have c1: "contains (smallStore 1) (position (getP (particles (pushCollidable 1 twoParticles)) (0, 0)))"
    by (simp add: g p0 smallStore_def nearSphere_def collide_eval)
  have c2: "radius (smallStore 1) + radius (smallStore 1) * offsetScalar = Fin 2.06"
    by (simp add: smallStore_def nearSphere_def offsetScalar_def)
  have s3: "position (collide nearSphere smallSphere (getP (particles twoParticles) (0, 0)))
              = Vec3 (Fin 0.03) (Fin 0) (Fin 0)"
    by (simp add: p0 nearSphere_def smallSphere_def collide_eval)
  have c3: "magnitude (position (getP (particles (handleCollision smallStore 0 (pushCollidable 1 twoParticles))) (0, 0))
                    - spherePosition (smallStore 1)) = Fin 1.03"
  proof -
    have "getP (particles (handleCollision smallStore 0 (pushCollidable 1 twoParticles))) (0, 0)
            = collide nearSphere smallSphere (getP (particles twoParticles) (0, 0))"
      by (simp add: getP_handleCollision v0 v cs g smallStore_def)
    then show ?thesis
      by (simp add: s3) (simp add: smallStore_def nearSphere_def minus_vec3_def magnitude_x_axis)
  qed
  show ?thesis
    using a1 a2 a3 b1 b2 c1 c2 c3 by simp
qed

section \<open>C6: the rest configuration\<close>

lemma less_Fin0E:
  assumes "Fin 0 < u"
  obtains a where "u = Fin a" "0 < a"
  using assms by (cases u) simp_all

lemma relaxSpring_rest:
  assumes "Fin 0 < restLength sp"
    and "magnitude (position (getP ps (p0 sp)) - position (getP ps (p1 sp))) = restLength sp"
  shows "relaxSpring sp ps = ps"
proof -
  obtain rl where rl: "restLength sp = Fin rl" "0 < rl"
    using assms(1) by (rule less_Fin0E)
  obtain a b c where abc: "position (getP ps (p0 sp)) - position (getP ps (p1 sp)) = Vec3 (Fin a) (Fin b) (Fin c)"
  proof -
    have "magnitude (position (getP ps (p0 sp)) - position (getP ps (p1 sp))) = Fin rl"
      using assms(2) rl(1) by simp
    then show ?thesis
      using that by (elim magnitude_FinE) blast
  qed
  obtain x y z x' y' z' where f: "position (getP ps (p0 sp)) = Vec3 (Fin x) (Fin y) (Fin z)"
      "position (getP ps (p1 sp)) = Vec3 (Fin x') (Fin y') (Fin z')"
    using abc by (elim minus_vec3_FinE)
  have vc: "mulS (mulS (position (getP ps (p0 sp)) - position (getP ps (p1 sp)))
              (Fin 1 - restLength sp / magnitude (position (getP ps (p0 sp)) - position (getP ps (p1 sp)))))
              (Fin 0.5) = Vec3 (Fin 0) (Fin 0) (Fin 0)"
    using rl by (simp add: assms(2)) (simp add: abc mulS_def)
  have u0: "updP (p0 sp) (\<lambda>p. p\<lparr>position := position p - Vec3 (Fin 0) (Fin 0) (Fin 0)\<rparr>) ps = ps"
    by (rule updP_id) (simp add: f minus_vec3_def)
  have u1: "updP (p1 sp) (\<lambda>p. p\<lparr>position := position p + Vec3 (Fin 0) (Fin 0) (Fin 0)\<rparr>) ps = ps"
    by (rule updP_id) (simp add: f plus_vec3_def)
  show ?thesis
    unfolding relaxSpring_def Let_def vc u0 if_cancel u1 by simp
qed

lemma relaxAll_rest:
  assumes "\<forall>sp \<in> set (concat sps). Fin 0 < restLength sp
             \<and> magnitude (position (getP ps (p0 sp)) - position (getP ps (p1 sp))) = restLength sp"
  shows "relaxAll sps ps = ps"
proof -
  have inner: "fold relaxSpring row ps = ps" if "set row \<subseteq> set (concat sps)" for row
    using that
  proof (induction row)
    case Nil
    then show ?case by simp
  next
    case (Cons sp row)
    have "relaxSpring sp ps = ps"
      using Cons.prems assms by (intro relaxSpring_rest) auto
    then show ?case
      using Cons by simp
  qed
  have "fold (\<lambda>row ps'. fold relaxSpring row ps') rows ps = ps" if "set rows \<subseteq> set sps" for rows
    using that
  proof (induction rows)
    case Nil
    then show ?case by simp
  next
    case (Cons row rows)
    then have "set row \<subseteq> set (concat sps)" by auto
    then show ?case using Cons by (simp add: inner)
  qed
  then show ?thesis by (simp add: relaxAll_def)
qed

text \<open>
  C6. On a mesh whose springs all have a current length exactly equal to their rest
  length (a positive length, as every generated spring has), constraint relaxation
  alone, for any positive number of iterations, changes nothing: every particle position
  is as before.
\<close>

theorem rest_configuration_fixed:
  assumes "\<forall>sp \<in> set (concat (springs c)). Fin 0 < restLength sp
             \<and> magnitude (position (getP (particles c) (p0 sp)) - position (getP (particles c) (p1 sp)))
                 = restLength sp"
    and "0 < n"
  shows "satisfyConstraintsN n c = c
       \<and> position (getP (particles (satisfyConstraintsN n c)) r) = position (getP (particles c) r)
       \<and> satisfyConstraints c = c"
proof -
  have "(relaxAll (springs c) ^^ m) (particles c) = particles c" for m
    by (induction m) (simp_all add: relaxAll_rest [OF assms(1)])
  then show ?thesis
    by (simp add: satisfyConstraints_def satisfyConstraintsN_def)
qed

theorem rest_configuration_fixed_witness:
  "concat (springs twoParticles) = [pairSpring]
   \<and> Fin 0 < restLength pairSpring
   \<and> magnitude (position (getP (particles twoParticles) (p0 pairSpring))
                    - position (getP (particles twoParticles) (p1 pairSpring)))
        = restLength pairSpring
   \<and> satisfyConstraintsN 50 twoParticles = twoParticles
   \<and> position (getP (particles (satisfyConstraintsN 50 twoParticles)) (0, 1)) = Vec3 (Fin 1) (Fin 0) (Fin 0)"
proof -
  have s: "concat (springs twoParticles) = [pairSpring]"
    by (simp add: twoParticles_def pairSpring_def)
  have l: "Fin 0 < restLength pairSpring"
    by (simp add: pairSpring_def)
  have m: "magnitude (position (getP (particles twoParticles) (p0 pairSpring))
                    - position (getP (particles twoParticles) (p1 pairSpring)))
        = restLength pairSpring"
    by (simp add: twoParticles_def pairSpring_def getP_def minus_vec3_def magnitude_x_axis)
  have h: "\<forall>sp \<in> set (concat (springs twoParticles)). Fin 0 < restLength sp
      \<and> magnitude (position (getP (particles twoParticles) (p0 sp)) - position (getP (particles twoParticles) (p1 sp)))
                 = restLength sp"
    using l m by (simp add: s)
  have p: "position (getP (particles twoParticles) (0, 1)) = Vec3 (Fin 1) (Fin 0) (Fin 0)"
    by (simp add: twoParticles_def getP_def)
  show ?thesis
    using rest_configuration_fixed [OF h, of 50 "(0, 1)"] s l m p by simp
qed

section \<open>C10: unguarded divisions\<close>

lemma finite_vecE:
  assumes "finite_vec v"
  obtains a b c where "v = Vec3 (Fin a) (Fin b) (Fin c)"
  using assms by (cases v; cases "vx v"; cases "vy v"; cases "vz v") (simp_all add: finite_vec_def)

lemma normalize_zero: "normalize (Vec3 (Fin 0) (Fin 0) (Fin 0)) = Vec3 NonFinite NonFinite NonFinite"
  by (simp add: normalize_def divS_def magnitude_def)

lemma degenerate_constraint:
  assumes "position a = position b" and "finite_vec (position a)"
  shows "mulS (mulS (position a - position b)
           (Fin 1 - rest / magnitude (position a - position b))) (Fin 0.5)
         = Vec3 NonFinite NonFinite NonFinite"
proof -
  obtain x y z where "position a = Vec3 (Fin x) (Fin y) (Fin z)"
    using assms(2) by (rule finite_vecE)
  then show ?thesis
    using assms(1) by (cases rest) (simp_all add: minus_vec3_def magnitude_def mulS_def)
qed

lemma minus_nan: "v - Vec3 NonFinite NonFinite NonFinite = Vec3 NonFinite NonFinite NonFinite"
  by (cases v; cases "vx v"; cases "vy v"; cases "vz v") (simp_all add: minus_vec3_def)

lemma plus_nan: "v + Vec3 NonFinite NonFinite NonFinite = Vec3 NonFinite NonFinite NonFinite"
  by (cases v; cases "vx v"; cases "vy v"; cases "vz v") (simp_all add: plus_vec3_def)

lemma nan_plus: "Vec3 NonFinite NonFinite NonFinite + v = Vec3 NonFinite NonFinite NonFinite"
  by (simp add: plus_vec3_def)

lemma relaxSpring_degenerate:
  assumes "position (getP ps (p0 sp)) = position (getP ps (p1 sp))"
    and "finite_vec (position (getP ps (p0 sp)))"
    and "e = p0 sp \<or> e = p1 sp"
    and "validRef ps e"
    and "\<not> pinned (getP ps e)"
  shows "position (getP (relaxSpring sp ps) e) = Vec3 NonFinite NonFinite NonFinite"
proof -
  let ?n = "Vec3 NonFinite NonFinite NonFinite"
  define ps1 where "ps1 = (if \<not> pinned (getP ps (p0 sp))
                 then updP (p0 sp) (\<lambda>p. p\<lparr>position := position p - ?n\<rparr>) ps else ps)"
  have rs: "relaxSpring sp ps = (if \<not> pinned (getP ps1 (p1 sp))
          then updP (p1 sp) (\<lambda>p. p\<lparr>position := position p + ?n\<rparr>) ps1 else ps1)"
    unfolding relaxSpring_def Let_def degenerate_constraint [OF assms(1,2)] ps1_def by simp
  have v1: "validRef ps1 e"
    using assms(4) by (simp add: ps1_def validRef_updP)
  have pin1: "pinned (getP ps1 q) = pinned (getP ps q)" for q
    unfolding ps1_def by (simp add: getP_updP_keeps)
  show ?thesis
  proof (cases "e = p1 sp")
    case True
    then show ?thesis
      using assms(5) v1 by (simp add: rs pin1 getP_updP_same plus_nan)
  next
    case False
    then have e0: "e = p0 sp" using assms(3) by simp
    have "position (getP ps1 e) = ?n"
      using assms(4,5) e0 by (simp add: ps1_def getP_updP_same minus_nan)
    then show ?thesis
      using False by (simp add: rs getP_updP_other)
  qed
qed

lemma springAcceleration_degenerate:
  assumes "position (getP ps (p0 sp)) = position (getP ps (p1 sp))"
    and "finite_vec (position (getP ps (p0 sp)))"
  shows "springAcceleration sp ps = Vec3 NonFinite NonFinite NonFinite"
proof -
  obtain x y z where "position (getP ps (p0 sp)) = Vec3 (Fin x) (Fin y) (Fin z)"
    using assms(2) by (rule finite_vecE)
  then show ?thesis
    using assms(1)
    by (simp add: springAcceleration_def Let_def minus_vec3_def magnitude_def mulS_def divS_def)
qed

lemma springForce_degenerate:
  assumes "position (getP ps (p0 sp)) = position (getP ps (p1 sp))"
    and "finite_vec (position (getP ps (p0 sp)))"
    and "e = p0 sp \<or> e = p1 sp"
    and "validRef ps e"
  shows "acceleration (getP (springForce sp ps) e) = Vec3 NonFinite NonFinite NonFinite"
proof -
  let ?n = "Vec3 NonFinite NonFinite NonFinite"
  let ?f0 = "\<lambda>p. p\<lparr>acceleration := (divS gravity (mass p)) - ?n + acceleration p\<rparr>"
  let ?f1 = "\<lambda>p. p\<lparr>acceleration := (divS gravity (mass p)) + ?n + acceleration p\<rparr>"
  have sf: "springForce sp ps = updP (p1 sp) ?f1 (updP (p0 sp) ?f0 ps)"
    by (simp add: springForce_def Let_def springAcceleration_degenerate [OF assms(1,2)])
  have v1: "validRef (updP (p0 sp) ?f0 ps) e"
    using assms(4) by (simp add: validRef_updP)
  show ?thesis
  proof (cases "e = p1 sp")
    case True
    then show ?thesis
      using v1 by (simp add: sf getP_updP_same plus_nan nan_plus)
  next
    case False
    then have e0: "e = p0 sp" using assms(3) by simp
    then show ?thesis
      using False assms(4) by (simp add: sf getP_updP_other getP_updP_same minus_nan nan_plus)
  qed
qed

lemma getP_updP_pred:
  assumes "\<And>p. Q p \<Longrightarrow> Q (f p)" and "Q (getP ps r)"
  shows "Q (getP (updP q f ps) r)"
proof (cases "q = r \<and> validRef ps r")
  case True
  then show ?thesis using assms by (simp add: getP_updP_same)
next
  case False
  then show ?thesis
    using assms(2) by (cases "q = r") (simp_all add: updP_invalid getP_updP_other)
qed

lemma springForce_nan_stays:
  assumes "acceleration (getP ps r) = Vec3 NonFinite NonFinite NonFinite"
  shows "acceleration (getP (springForce s ps) r) = Vec3 NonFinite NonFinite NonFinite"
  unfolding springForce_def Let_def
  by (intro getP_updP_pred [where Q = "\<lambda>p. acceleration p = Vec3 NonFinite NonFinite NonFinite"])
     (simp_all add: plus_nan assms)

lemma fold_springForce_nan_stays:
  assumes "acceleration (getP ps r) = Vec3 NonFinite NonFinite NonFinite"
  shows "acceleration (getP (fold springForce row ps) r) = Vec3 NonFinite NonFinite NonFinite"
  using assms by (induction row arbitrary: ps) (simp_all add: springForce_nan_stays)

lemma shape_springForce: "map length (springForce s ps) = map length ps"
  by (simp add: springForce_def Let_def shape_updP)

lemma fold_springForce_position:
  "position (getP (fold springForce row ps) r) = position (getP ps r)"
  by (induction row arbitrary: ps) (simp_all add: springForce_keeps)

lemma shape_fold_springForce: "map length (fold springForce row ps) = map length ps"
  by (induction row arbitrary: ps) (simp_all add: shape_springForce)

lemma fold_springForce_degenerate:
  assumes "sp \<in> set row"
    and "position (getP ps (p0 sp)) = position (getP ps (p1 sp))"
    and "finite_vec (position (getP ps (p0 sp)))"
    and "e = p0 sp \<or> e = p1 sp"
    and "validRef ps e"
  shows "acceleration (getP (fold springForce row ps) e) = Vec3 NonFinite NonFinite NonFinite"
  using assms
proof (induction row arbitrary: ps)
  case Nil
  then show ?case by simp
next
  case (Cons s row)
  show ?case
  proof (cases "s = sp")
    case True
    have "acceleration (getP (springForce sp ps) e) = Vec3 NonFinite NonFinite NonFinite"
      using Cons.prems by (intro springForce_degenerate) simp_all
    then show ?thesis
      using True by (simp add: fold_springForce_nan_stays)
  next
    case False
    then have m: "sp \<in> set row" using Cons.prems(1) by simp
    have "acceleration (getP (fold springForce row (springForce s ps)) e)
            = Vec3 NonFinite NonFinite NonFinite"
      using Cons.prems(2-5)
      by (intro Cons.IH [OF m]) (simp_all add: springForce_keeps validRef_shape [OF shape_springForce])
    then show ?thesis by simp
  qed
qed

lemma springPass_degenerate:
  assumes "sp \<in> set (concat sps)"
    and "position (getP ps (p0 sp)) = position (getP ps (p1 sp))"
    and "finite_vec (position (getP ps (p0 sp)))"
    and "e = p0 sp \<or> e = p1 sp"
    and "validRef ps e"
  shows "acceleration (getP (springPass sps ps) e) = Vec3 NonFinite NonFinite NonFinite"
proof -
  have nan_rows: "acceleration (getP (fold (\<lambda>row ps'. fold springForce row ps') rows ps') e)
            = Vec3 NonFinite NonFinite NonFinite"
    if "acceleration (getP ps' e) = Vec3 NonFinite NonFinite NonFinite" for rows ps'
    using that by (induction rows arbitrary: ps') (simp_all add: fold_springForce_nan_stays)
  have "acceleration (getP (fold (\<lambda>row ps'. fold springForce row ps') sps ps) e)
            = Vec3 NonFinite NonFinite NonFinite"
    using assms
  proof (induction sps arbitrary: ps)
    case Nil
    then show ?case by simp
  next
    case (Cons row sps)
    show ?case
    proof (cases "sp \<in> set row")
      case True
      have "acceleration (getP (fold springForce row ps) e) = Vec3 NonFinite NonFinite NonFinite"
        using Cons.prems by (intro fold_springForce_degenerate [OF True]) simp_all
      then show ?thesis
        by (simp add: nan_rows)
    next
      case False
      then have m: "sp \<in> set (concat sps)" using Cons.prems(1) by simp
      have "acceleration (getP (fold (\<lambda>row ps'. fold springForce row ps') sps (fold springForce row ps)) e)
              = Vec3 NonFinite NonFinite NonFinite"
        using Cons.prems(2-5)
        by (intro Cons.IH [OF m])
           (simp_all add: fold_springForce_position validRef_shape [OF shape_fold_springForce])
      then show ?thesis by simp
    qed
  qed
  then show ?thesis by (simp add: springPass_def)
qed

lemma accumulateForces_degenerate:
  assumes "sp \<in> set (concat (springs c))"
    and "position (getP (particles c) (p0 sp)) = position (getP (particles c) (p1 sp))"
    and "finite_vec (position (getP (particles c) (p0 sp)))"
    and "e = p0 sp \<or> e = p1 sp"
    and "validRef (particles c) e"
  shows "acceleration (getP (particles (accumulateForces c)) e) = Vec3 NonFinite NonFinite NonFinite"
proof -
  have pos: "position (getP (windPass w ps) r) = position (getP ps r)" for w ps r
    by (rule windPass_keeps) (simp add: addAcceleration_def)
  show ?thesis
    using assms
    by (simp add: accumulateForces_def Let_def)
       (intro springPass_degenerate, simp_all add: pos validRef_shape [OF shape_windPass])
qed

text \<open>
  C10. Nothing guards the divisions by a magnitude. For a spring of the cloth whose
  endpoints coincide (finite positions, so the current length is exactly 0), one
  relaxation of that spring makes the position of each unpinned endpoint non-finite, the
  spring acceleration is non-finite and after the force pass so is the acceleration of
  the endpoints; and for a zero wind vector the normalisation at the head of
  \<^verbatim>\<open>accumulateForces\<close> divides by the zero magnitude and yields a non-finite vector.
\<close>

theorem degenerate_divisions_unguarded:
  assumes "sp \<in> set (concat (springs c))"
    and "position (getP (particles c) (p0 sp)) = position (getP (particles c) (p1 sp))"
    and "finite_vec (position (getP (particles c) (p0 sp)))"
    and "e = p0 sp \<or> e = p1 sp"
    and "validRef (particles c) e"
    and "\<not> pinned (getP (particles c) e)"
  shows "magnitude (position (getP (particles c) (p0 sp)) - position (getP (particles c) (p1 sp))) = Fin 0
       \<and> position (getP (relaxSpring sp (particles c)) e) = Vec3 NonFinite NonFinite NonFinite
       \<and> springAcceleration sp (particles c) = Vec3 NonFinite NonFinite NonFinite
       \<and> acceleration (getP (particles (accumulateForces c)) e) = Vec3 NonFinite NonFinite NonFinite
       \<and> (vWindForce c = Vec3 (Fin 0) (Fin 0) (Fin 0)
            \<longrightarrow> vWindNormal c = Vec3 NonFinite NonFinite NonFinite)"
proof -
  obtain x y z where "position (getP (particles c) (p0 sp)) = Vec3 (Fin x) (Fin y) (Fin z)"
    using assms(3) by (rule finite_vecE)
  then have "magnitude (position (getP (particles c) (p0 sp)) - position (getP (particles c) (p1 sp))) = Fin 0"
    using assms(2) by (simp add: minus_vec3_def magnitude_def)
  then show ?thesis
    using assms
    by (simp add: relaxSpring_degenerate springAcceleration_degenerate accumulateForces_degenerate
        vWindNormal_def normalize_zero)
qed

theorem degenerate_divisions_unguarded_witness:
  "pairSpring \<in> set (concat (springs collapsedPair))
   \<and> position (getP (particles collapsedPair) (p0 pairSpring)) = position (getP (particles collapsedPair) (p1 pairSpring))
   \<and> finite_vec (position (getP (particles collapsedPair) (p0 pairSpring)))
   \<and> validRef (particles collapsedPair) (0, 1)
   \<and> \<not> pinned (getP (particles collapsedPair) (0, 1))
   \<and> position (getP (relaxSpring pairSpring (particles collapsedPair)) (0, 1)) = Vec3 NonFinite NonFinite NonFinite
   \<and> acceleration (getP (particles (accumulateForces collapsedPair)) (0, 1)) = Vec3 NonFinite NonFinite NonFinite
   \<and> vWindNormal collapsedPair = Vec3 NonFinite NonFinite NonFinite"
proof -
  have a: "pairSpring \<in> set (concat (springs collapsedPair))"
    by (simp add: collapsedPair_def twoParticles_def pairSpring_def)
  have b: "position (getP (particles collapsedPair) (p0 pairSpring)) = position (getP (particles collapsedPair) (p1 pairSpring))"
    by (simp add: collapsedPair_def pairSpring_def getP_def)
  have c: "finite_vec (position (getP (particles collapsedPair) (p0 pairSpring)))"
    by (simp add: collapsedPair_def pairSpring_def getP_def finite_vec_def)
  have d: "(0, 1) = p0 pairSpring \<or> (0, 1) = p1 pairSpring"
    by (simp add: pairSpring_def)
  have e: "validRef (particles collapsedPair) (0, 1)"
    by (simp add: collapsedPair_def validRef_def)
  have f: "\<not> pinned (getP (particles collapsedPair) (0, 1))"
    by (simp add: collapsedPair_def getP_def)
  have w: "vWindForce collapsedPair = Vec3 (Fin 0) (Fin 0) (Fin 0)"
    by (simp add: collapsedPair_def twoParticles_def)
  show ?thesis
    using degenerate_divisions_unguarded [OF a b c d e f] a b c e f w by simp
qed

section \<open>What the wind pass adds\<close>

lemma acceleration_updP:
  assumes "validRef ps r"
  shows "acceleration (getP (updP v f ps) r)
           = (if v = r then acceleration (f (getP ps r)) else acceleration (getP ps r))"
  using assms by (simp add: getP_updP_same getP_updP_other)

lemma acceleration_addAcceleration:
  assumes "validRef ps r"
  shows "acceleration (getP (updP v (addAcceleration a) ps) r) = acceleration (getP ps r) + through r v a"
  using assms by (simp add: acceleration_updP through_def addAcceleration_def)

lemma samePhysicsD:
  assumes "samePhysics ps0 ps"
  shows "position (getP ps q) = position (getP ps0 q)" and "mass (getP ps q) = mass (getP ps0 q)"
  using assms unfolding samePhysics_def by blast+

lemma samePhysics_refl: "samePhysics ps ps"
  by (simp add: samePhysics_def)

lemma samePhysics_updP:
  assumes "\<And>p. position (f p) = position p" and "\<And>p. mass (f p) = mass p"
    and "samePhysics ps0 ps"
  shows "samePhysics ps0 (updP v f ps)"
  unfolding samePhysics_def
proof (intro allI conjI)
  fix q
  show "position (getP (updP v f ps) q) = position (getP ps0 q)"
    using assms(1) samePhysicsD(1) [OF assms(3)] by (simp add: getP_updP_keeps)
  show "mass (getP (updP v f ps) q) = mass (getP ps0 q)"
    using assms(2) samePhysicsD(2) [OF assms(3)] by (simp add: getP_updP_keeps)
qed

lemma triangleWind_samePhysics:
  "samePhysics ps0 ps \<Longrightarrow> triangleWind wind ps v0 v1 v2 = triangleWind wind ps0 v0 v1 v2"
  by (simp add: triangleWind_def samePhysicsD)

lemma springAcceleration_samePhysics:
  "samePhysics ps0 ps \<Longrightarrow> springAcceleration s ps = springAcceleration s ps0"
  by (simp add: springAcceleration_def samePhysicsD)

lemma samePhysics_windTriangle:
  "samePhysics ps0 ps \<Longrightarrow> samePhysics ps0 (windTriangle wind v0 v1 v2 ps)"
  by (simp add: windTriangle_def Let_def samePhysics_updP addAcceleration_def)

lemma shape_windTriangle: "map length (windTriangle wind v0 v1 v2 ps) = map length ps"
  by (simp add: windTriangle_def Let_def shape_updP)

lemma shape_windQuad: "map length (windQuad wind k l ps) = map length ps"
  by (simp add: windQuad_def shape_windTriangle)

lemma samePhysics_windQuad:
  "samePhysics ps0 ps \<Longrightarrow> samePhysics ps0 (windQuad wind k l ps)"
  by (simp add: windQuad_def samePhysics_windTriangle)

lemma acceleration_windTriangle:
  assumes "validRef ps r" and "samePhysics ps0 ps"
  shows "acceleration (getP (windTriangle wind v0 v1 v2 ps) r)
           = acceleration (getP ps r) + triangleContribution wind ps0 v0 v1 v2 r"
  using assms
  by (simp add: windTriangle_def Let_def acceleration_addAcceleration validRef_updP
      triangleContribution_def triangleWind_samePhysics [OF assms(2)] add.assoc)

lemma acceleration_windQuad:
  assumes "validRef ps r" and "samePhysics ps0 ps"
  shows "acceleration (getP (windQuad wind k l ps) r)
           = acceleration (getP ps r) + quadContribution wind ps0 k l r"
proof -
  let ?ps1 = "windTriangle wind (k + 1, l) (k, l) (k, l + 1) ps"
  have v1: "validRef ?ps1 r"
    using assms(1) by (simp add: validRef_shape [OF shape_windTriangle])
  have s1: "samePhysics ps0 ?ps1"
    using assms(2) by (rule samePhysics_windTriangle)
  have "acceleration (getP (windQuad wind k l ps) r)
          = acceleration (getP ?ps1 r) + triangleContribution wind ps0 (k + 1, l) (k, l + 1) (k + 1, l + 1) r"
    unfolding windQuad_def by (rule acceleration_windTriangle [OF v1 s1])
  also have "acceleration (getP ?ps1 r)
          = acceleration (getP ps r) + triangleContribution wind ps0 (k + 1, l) (k, l) (k, l + 1) r"
    by (rule acceleration_windTriangle [OF assms])
  finally show ?thesis
    by (simp only: quadContribution_def add.assoc)
qed

lemma acceleration_wind_inner:
  assumes "validRef ps r" and "samePhysics ps0 ps"
  shows "acceleration (getP (fold (\<lambda>l ps''. windQuad wind k l ps'') ls ps) r)
           = acceleration (getP ps r) + sum_list (map (\<lambda>l. quadContribution wind ps0 k l r) ls)"
  using assms
proof (induction ls arbitrary: ps)
  case Nil
  then show ?case by simp
next
  case (Cons l ls)
  have "acceleration (getP (fold (\<lambda>l ps''. windQuad wind k l ps'') ls (windQuad wind k l ps)) r)
          = acceleration (getP (windQuad wind k l ps) r)
            + sum_list (map (\<lambda>l. quadContribution wind ps0 k l r) ls)"
    using Cons.prems
    by (intro Cons.IH) (simp_all add: validRef_shape [OF shape_windQuad] samePhysics_windQuad)
  then show ?case
    by (simp add: acceleration_windQuad [OF Cons.prems] add.assoc)
qed

lemma shape_wind_inner: "map length (fold (\<lambda>l ps''. windQuad wind k l ps'') ls ps) = map length ps"
  by (induction ls arbitrary: ps) (simp_all add: shape_windQuad)

lemma samePhysics_wind_inner:
  "samePhysics ps0 ps \<Longrightarrow> samePhysics ps0 (fold (\<lambda>l ps''. windQuad wind k l ps'') ls ps)"
  by (induction ls arbitrary: ps) (simp_all add: samePhysics_windQuad)

lemma row_length_shape:
  assumes "map length ps = map length ps0" and "k < length ps0"
  shows "length (ps ! k) = length (ps0 ! k)"
  using assms by (metis length_map nth_map)

lemma acceleration_wind_outer:
  assumes "validRef ps r" and "samePhysics ps0 ps" and "map length ps = map length ps0"
    and "\<forall>k \<in> set ks. k < length ps0"
  shows "acceleration (getP (fold (\<lambda>k ps'. fold (\<lambda>l ps''. windQuad wind k l ps'') [0 ..< length (ps' ! k) - 1] ps') ks ps) r)
           = acceleration (getP ps r)
             + sum_list (map (\<lambda>k. sum_list (map (\<lambda>l. quadContribution wind ps0 k l r) [0 ..< length (ps0 ! k) - 1])) ks)"
  using assms
proof (induction ks arbitrary: ps)
  case Nil
  then show ?case by simp
next
  case (Cons k ks)
  let ?ps1 = "fold (\<lambda>l ps''. windQuad wind k l ps'') [0 ..< length (ps ! k) - 1] ps"
  have len: "length (ps ! k) = length (ps0 ! k)"
    using Cons.prems(3,4) by (intro row_length_shape) simp_all
  have step: "acceleration (getP ?ps1 r)
      = acceleration (getP ps r) + sum_list (map (\<lambda>l. quadContribution wind ps0 k l r) [0 ..< length (ps0 ! k) - 1])"
    unfolding len by (rule acceleration_wind_inner [OF Cons.prems(1,2)])
  have "acceleration (getP (fold (\<lambda>k ps'. fold (\<lambda>l ps''. windQuad wind k l ps'') [0 ..< length (ps' ! k) - 1] ps') ks ?ps1) r)
           = acceleration (getP ?ps1 r)
             + sum_list (map (\<lambda>k. sum_list (map (\<lambda>l. quadContribution wind ps0 k l r) [0 ..< length (ps0 ! k) - 1])) ks)"
    using Cons.prems
    by (intro Cons.IH)
       (simp_all add: validRef_shape [OF shape_wind_inner] samePhysics_wind_inner shape_wind_inner)
  then show ?case
    unfolding fold_Cons comp_def list.map sum_list.Cons step add.assoc .
qed

lemma acceleration_windPass:
  assumes "validRef ps r"
  shows "acceleration (getP (windPass wind ps) r) = acceleration (getP ps r) + windContribution wind ps r"
  unfolding windPass_def windContribution_def
  using assms by (intro acceleration_wind_outer) (auto simp: samePhysics_refl)

lemma samePhysics_windPass: "samePhysics ps (windPass wind ps)"
  unfolding samePhysics_def
  by (intro allI conjI windPass_keeps) (simp_all add: addAcceleration_def)

section \<open>What the spring pass adds\<close>

lemma samePhysics_springForce:
  "samePhysics ps0 ps \<Longrightarrow> samePhysics ps0 (springForce s ps)"
  by (simp add: springForce_def Let_def samePhysics_updP)

lemma acceleration_updP_adds:
  assumes "validRef ps r"
  shows "acceleration (getP (updP v (\<lambda>p. p\<lparr>acceleration := X p + acceleration p\<rparr>) ps) r)
           = acceleration (getP ps r) + through r v (X (getP ps r))"
  using assms by (simp add: acceleration_updP through_def add.commute)

lemma acceleration_springForce:
  assumes "validRef ps r" and "samePhysics ps0 ps"
  shows "acceleration (getP (springForce s ps) r)
           = acceleration (getP ps r)
             + (through r (p0 s) (divS gravity (mass (getP ps0 r)) - springAcceleration s ps0)
                + through r (p1 s) (divS gravity (mass (getP ps0 r)) + springAcceleration s ps0))"
proof -
  let ?sa = "springAcceleration s ps0"
  let ?f0 = "\<lambda>p. p\<lparr>acceleration := (divS gravity (mass p)) - ?sa + acceleration p\<rparr>"
  let ?f1 = "\<lambda>p. p\<lparr>acceleration := (divS gravity (mass p)) + ?sa + acceleration p\<rparr>"
  let ?ps1 = "updP (p0 s) ?f0 ps"
  have sf: "springForce s ps = updP (p1 s) ?f1 ?ps1"
    by (simp add: springForce_def Let_def springAcceleration_samePhysics [OF assms(2)])
  have m: "mass (getP ps r) = mass (getP ps0 r)"
    by (rule samePhysicsD(2) [OF assms(2)])
  have m1: "mass (getP ?ps1 r) = mass (getP ps r)"
    by (rule getP_updP_keeps) simp
  have v1: "validRef ?ps1 r"
    using assms(1) by (simp add: validRef_updP)
  have a1: "acceleration (getP ?ps1 r)
      = acceleration (getP ps r) + through r (p0 s) (divS gravity (mass (getP ps0 r)) - ?sa)"
    unfolding acceleration_updP_adds [OF assms(1), of "p0 s" "\<lambda>p. divS gravity (mass p) - ?sa"] m ..
  have "acceleration (getP (springForce s ps) r)
      = acceleration (getP ?ps1 r) + through r (p1 s) (divS gravity (mass (getP ps0 r)) + ?sa)"
    unfolding sf acceleration_updP_adds [OF v1, of "p1 s" "\<lambda>p. divS gravity (mass p) + ?sa"] m1 m ..
  then show ?thesis
    by (simp only: a1 add.assoc)
qed

lemma acceleration_spring_row:
  assumes "validRef ps r" and "samePhysics ps0 ps"
  shows "acceleration (getP (fold springForce row ps) r)
           = acceleration (getP ps r)
             + sum_list (map (\<lambda>s. through r (p0 s) (divS gravity (mass (getP ps0 r)) - springAcceleration s ps0)
                + through r (p1 s) (divS gravity (mass (getP ps0 r)) + springAcceleration s ps0)) row)"
  using assms
proof (induction row arbitrary: ps)
  case Nil
  then show ?case by simp
next
  case (Cons s row)
  have "acceleration (getP (fold springForce row (springForce s ps)) r)
          = acceleration (getP (springForce s ps) r)
            + sum_list (map (\<lambda>s. through r (p0 s) (divS gravity (mass (getP ps0 r)) - springAcceleration s ps0)
                + through r (p1 s) (divS gravity (mass (getP ps0 r)) + springAcceleration s ps0)) row)"
    using Cons.prems
    by (intro Cons.IH) (simp_all add: validRef_shape [OF shape_springForce] samePhysics_springForce)
  then show ?case
    unfolding fold_Cons comp_def list.map sum_list.Cons acceleration_springForce [OF Cons.prems] add.assoc .
qed

lemma samePhysics_spring_row:
  "samePhysics ps0 ps \<Longrightarrow> samePhysics ps0 (fold springForce row ps)"
  by (induction row arbitrary: ps) (simp_all add: samePhysics_springForce)

lemma acceleration_springPass:
  assumes "validRef ps r" and "samePhysics ps0 ps"
  shows "acceleration (getP (springPass sps ps) r)
           = acceleration (getP ps r)
             + sum_list (map (\<lambda>s. through r (p0 s) (divS gravity (mass (getP ps0 r)) - springAcceleration s ps0)
                + through r (p1 s) (divS gravity (mass (getP ps0 r)) + springAcceleration s ps0)) (concat sps))"
proof -
  have "acceleration (getP (fold (\<lambda>row ps'. fold springForce row ps') sps ps) r)
           = acceleration (getP ps r)
             + sum_list (map (\<lambda>s. through r (p0 s) (divS gravity (mass (getP ps0 r)) - springAcceleration s ps0)
                + through r (p1 s) (divS gravity (mass (getP ps0 r)) + springAcceleration s ps0)) (concat sps))"
    using assms
  proof (induction sps arbitrary: ps)
    case Nil
    then show ?case by simp
  next
    case (Cons row sps)
    let ?ps1 = "fold springForce row ps"
    have "acceleration (getP (fold (\<lambda>row ps'. fold springForce row ps') sps ?ps1) r)
           = acceleration (getP ?ps1 r)
             + sum_list (map (\<lambda>s. through r (p0 s) (divS gravity (mass (getP ps0 r)) - springAcceleration s ps0)
                + through r (p1 s) (divS gravity (mass (getP ps0 r)) + springAcceleration s ps0)) (concat sps))"
      using Cons.prems
      by (intro Cons.IH)
         (simp_all add: validRef_shape [OF shape_fold_springForce] samePhysics_spring_row)
    then show ?case
      unfolding fold_Cons comp_def concat.simps map_append sum_list_append
        acceleration_spring_row [OF Cons.prems] add.assoc .
  qed
  then show ?thesis by (simp add: springPass_def)
qed

lemma minus_as_plus_fl: "(u::GLfloat) - v = u + (Fin 0 - v)"
  by (cases u; cases v) simp_all

lemma minus_as_plus_vec: "(u::vec3) - v = u + (0 - v)"
  by (simp add: minus_vec3_def plus_vec3_def zero_vec3_def minus_as_plus_fl [symmetric])

lemma sum_replicate_Suc: "sum_list (replicate (Suc n) (G::vec3)) = G + sum_list (replicate n G)"
  by simp

lemma gravity_split:
  fixes G :: vec3
  shows "sum_list (map (\<lambda>s. through r (p0 s) (G - sa s) + through r (p1 s) (G + sa s)) ss)
       = sum_list (replicate (length (filter (\<lambda>s. p0 s = r) ss) + length (filter (\<lambda>s. p1 s = r) ss)) G)
         + sum_list (map (\<lambda>s. through r (p0 s) (0 - sa s) + through r (p1 s) (sa s)) ss)"
proof (induction ss)
  case Nil
  then show ?case by simp
next
  case (Cons s ss)
  define L where "L = sum_list (map (\<lambda>s. through r (p0 s) (G - sa s) + through r (p1 s) (G + sa s)) ss)"
  define R where "R = sum_list (map (\<lambda>s. through r (p0 s) (0 - sa s) + through r (p1 s) (sa s)) ss)"
  define n where "n = length (filter (\<lambda>s. p0 s = r) ss) + length (filter (\<lambda>s. p1 s = r) ss)"
  define N where "N = sum_list (replicate n G)"
  have ih: "L = N + R"
    using Cons.IH by (simp add: L_def R_def N_def n_def)
  have m: "G - sa s = G + (0 - sa s)"
    by (rule minus_as_plus_vec)
  have cnt: "length (filter (\<lambda>s. p0 s = r) (s # ss)) + length (filter (\<lambda>s. p1 s = r) (s # ss))
               = (if p0 s = r then 1 else 0) + (if p1 s = r then 1 else 0) + n"
    by (simp add: n_def)
  have rep: "sum_list (replicate ((if p0 s = r then 1 else 0) + (if p1 s = r then 1 else 0) + n) G)
               = through r (p0 s) G + through r (p1 s) G + N"
    by (simp add: through_def N_def add.assoc)
  have "through r (p0 s) (G - sa s) + through r (p1 s) (G + sa s) + L
          = (through r (p0 s) G + through r (p1 s) G + N)
            + (through r (p0 s) (0 - sa s) + through r (p1 s) (sa s) + R)"
    unfolding ih by (simp add: through_def m ac_simps)
  then show ?case
    unfolding list.map sum_list.Cons cnt rep L_def R_def by (simp only: add.assoc)
qed

section \<open>C3: force accumulation is additive\<close>

lemma triangleContribution_samePhysics:
  "samePhysics ps0 ps \<Longrightarrow> triangleContribution wind ps v0 v1 v2 r = triangleContribution wind ps0 v0 v1 v2 r"
  by (simp add: triangleContribution_def triangleWind_samePhysics)

lemma quadContribution_samePhysics:
  "samePhysics ps0 ps \<Longrightarrow> quadContribution wind ps k l r = quadContribution wind ps0 k l r"
  by (simp add: quadContribution_def triangleContribution_samePhysics)

lemma windContribution_samePhysics:
  assumes "samePhysics ps0 ps" and "map length ps = map length ps0"
  shows "windContribution wind ps r = windContribution wind ps0 r"
proof -
  have l: "length ps = length ps0"
    using assms(2) by (metis length_map)
  have "map (\<lambda>k. sum_list (map (\<lambda>l. quadContribution wind ps k l r) [0 ..< length (ps ! k) - 1])) [0 ..< length ps0 - 1]
      = map (\<lambda>k. sum_list (map (\<lambda>l. quadContribution wind ps0 k l r) [0 ..< length (ps0 ! k) - 1])) [0 ..< length ps0 - 1]"
  proof (rule map_cong [OF refl])
    fix k assume "k \<in> set [0 ..< length ps0 - 1]"
    then have "k < length ps0" by auto
    then have "length (ps ! k) = length (ps0 ! k)"
      by (rule row_length_shape [OF assms(2)])
    then show "sum_list (map (\<lambda>l. quadContribution wind ps k l r) [0 ..< length (ps ! k) - 1])
             = sum_list (map (\<lambda>l. quadContribution wind ps0 k l r) [0 ..< length (ps0 ! k) - 1])"
      by (simp add: quadContribution_samePhysics [OF assms(1)])
  qed
  then show ?thesis
    unfolding windContribution_def l by (rule arg_cong)
qed

lemma springContribution_samePhysics:
  "samePhysics ps0 ps \<Longrightarrow> springContribution sps ps r = springContribution sps ps0 r"
  by (simp add: springContribution_def springAcceleration_samePhysics)

lemma samePhysics_accumulateForces: "samePhysics (particles c) (particles (accumulateForces c))"
  unfolding samePhysics_def
  by (intro allI conjI accumulateForces_keeps) simp_all

lemma accumulateForces_fields:
  "springs (accumulateForces c) = springs c" "vWindForce (accumulateForces c) = vWindForce c"
  by (simp_all add: accumulateForces_def Let_def)

lemma accumulateForces_adds_aux:
  assumes "validRef (particles c) r"
  shows "acceleration (getP (particles (accumulateForces c)) r)
           = acceleration (getP (particles c) r)
             + windContribution (vWindForce c) (particles c) r
             + sum_list (replicate (springDegree (springs c) r) (divS gravity (mass (getP (particles c) r))))
             + springContribution (springs c) (particles c) r"
proof -
  let ?ps = "particles c"
  let ?w = "windPass (vWindForce c) ?ps"
  have vw: "validRef ?w r"
    using assms by (simp add: validRef_shape [OF shape_windPass])
  have "acceleration (getP (particles (accumulateForces c)) r) = acceleration (getP (springPass (springs c) ?w) r)"
    by (simp add: accumulateForces_def Let_def)
  also have "\<dots> = acceleration (getP ?w r)
             + sum_list (map (\<lambda>s. through r (p0 s) (divS gravity (mass (getP ?ps r)) - springAcceleration s ?ps)
                + through r (p1 s) (divS gravity (mass (getP ?ps r)) + springAcceleration s ?ps)) (concat (springs c)))"
    by (rule acceleration_springPass [OF vw samePhysics_windPass])
  also have "\<dots> = acceleration (getP ?w r)
             + (sum_list (replicate (springDegree (springs c) r) (divS gravity (mass (getP ?ps r))))
                + springContribution (springs c) ?ps r)"
    unfolding gravity_split springDegree_def springContribution_def ..
  also have "acceleration (getP ?w r) = acceleration (getP ?ps r) + windContribution (vWindForce c) ?ps r"
    by (rule acceleration_windPass [OF assms])
  finally show ?thesis
    by (simp only: add.assoc)
qed

text \<open>
  C3. \<^verbatim>\<open>accumulateForces\<close> never resets an acceleration. For every particle \<open>r\<close> of
  the grid, the acceleration after the pass is the acceleration stored before it, plus
  the wind contributions of the triangles that touch \<open>r\<close>, plus gravity divided by the
  mass of \<open>r\<close> once for every spring endpoint that is \<open>r\<close> (so as many times as the
  spring degree of \<open>r\<close>), plus the signed spring accelerations of those springs. What is
  added depends on positions and masses only, so a second pass adds the same amount
  again onto the value the first pass left.
\<close>

theorem accumulateForces_adds:
  assumes "validRef (particles c) r"
  shows "acceleration (getP (particles (accumulateForces c)) r)
           = acceleration (getP (particles c) r)
             + windContribution (vWindForce c) (particles c) r
             + sum_list (replicate (springDegree (springs c) r) (divS gravity (mass (getP (particles c) r))))
             + springContribution (springs c) (particles c) r
       \<and> acceleration (getP (particles (accumulateForces (accumulateForces c))) r)
           = acceleration (getP (particles (accumulateForces c)) r)
             + windContribution (vWindForce c) (particles c) r
             + sum_list (replicate (springDegree (springs c) r) (divS gravity (mass (getP (particles c) r))))
             + springContribution (springs c) (particles c) r"
proof -
  let ?c1 = "accumulateForces c"
  have v1: "validRef (particles ?c1) r"
    using assms by (simp add: validRef_shape [OF shape_accumulateForces])
  have s: "samePhysics (particles c) (particles ?c1)"
    by (rule samePhysics_accumulateForces)
  have w: "windContribution (vWindForce c) (particles ?c1) r = windContribution (vWindForce c) (particles c) r"
    by (rule windContribution_samePhysics [OF s shape_accumulateForces])
  have sp: "springContribution (springs c) (particles ?c1) r = springContribution (springs c) (particles c) r"
    by (rule springContribution_samePhysics [OF s])
  have m: "mass (getP (particles ?c1) r) = mass (getP (particles c) r)"
    by (rule samePhysicsD(2) [OF s])
  show ?thesis
    using accumulateForces_adds_aux [OF assms] accumulateForces_adds_aux [OF v1]
    unfolding accumulateForces_fields w sp m by simp
qed

theorem accumulateForces_adds_witness:
  "validRef (particles twoParticles) (0, 1)
   \<and> springDegree (springs twoParticles) (0, 1) = 1
   \<and> acceleration (getP (particles twoParticles) (0, 1)) = Vec3 (Fin 0) (Fin (- 1)) (Fin 0)
   \<and> acceleration (getP (particles (accumulateForces twoParticles)) (0, 1))
        = Vec3 (Fin 0) (Fin (- 1.0004)) (Fin 0)
   \<and> acceleration (getP (particles (accumulateForces (accumulateForces twoParticles))) (0, 1))
        = Vec3 (Fin 0) (Fin (- 1.0008)) (Fin 0)"
proof -
  have v: "validRef (particles twoParticles) (0, Suc 0)"
    by (simp add: twoParticles_def validRef_def)
  have d: "springDegree (springs twoParticles) (0, Suc 0) = Suc 0"
    by (simp add: twoParticles_def springDegree_def)
  have a: "acceleration (getP (particles twoParticles) (0, Suc 0)) = Vec3 (Fin 0) (Fin (- 1)) (Fin 0)"
    by (simp add: twoParticles_def getP_def)
  have w: "windContribution (vWindForce twoParticles) (particles twoParticles) (0, Suc 0) = 0"
    by (simp add: twoParticles_def windContribution_def)
  have sa: "springAcceleration \<lparr>p0 = (0, 0), p1 = (0, Suc 0), restLength = Fin 1\<rparr> (particles twoParticles)
              = Vec3 (Fin 0) (Fin 0) (Fin 0)"
    by (simp add: springAcceleration_def Let_def twoParticles_def getP_def minus_vec3_def
        magnitude_x_axis divS_def mulS_def springConstK_def PARTICLE_MASS_KG_def)
  have s: "springContribution (springs twoParticles) (particles twoParticles) (0, Suc 0) = 0"
    unfolding springContribution_def
    by (simp add: through_def)
       (simp add: twoParticles_def through_def sa [unfolded twoParticles_def, simplified]
          zero_vec3_def plus_vec3_def)
  have g: "divS gravity (mass (getP (particles twoParticles) (0, Suc 0))) = Vec3 (Fin 0) (Fin (- 0.0004)) (Fin 0)"
    by (simp add: twoParticles_def getP_def gravity_def divS_def PARTICLE_MASS_KG_def)
  show ?thesis
    using accumulateForces_adds [OF v] v d a
    by (simp add: w s g d a plus_vec3_def zero_vec3_def)
qed

section \<open>The generated particle grid\<close>

lemma length_particleRow: "length (particleRow i j n xSpacing vSpacer) = n"
  by (induction n arbitrary: j vSpacer) simp_all

lemma particleRow_unpinned:
  "b < n \<Longrightarrow> \<not> pinned (particleRow i j n xSpacing vSpacer ! b)"
proof (induction n arbitrary: j vSpacer b)
  case 0
  then show ?case by simp
next
  case (Suc n)
  then show ?case by (cases b) (simp_all add: newParticle_def)
qed

lemma particleRow_nth:
  "b < n \<Longrightarrow>
     particleRow i j n (Fin dx) (Vec3 (Fin x) (Fin y) (Fin z)) ! b
       = newParticle (Vec3 (Fin (x + real b * dx)) (Fin y) (Fin z)) (particleColor i (j + b))"
proof (induction n arbitrary: j x b)
  case 0
  then show ?case by simp
next
  case (Suc n)
  show ?case
  proof (cases b)
    case 0
    then show ?thesis by simp
  next
    case (Suc b')
    then have "b' < n" using Suc.prems by simp
    then show ?thesis
      using Suc.IH [of b' "Suc j" "x + dx"] Suc by (simp add: algebra_simps)
  qed
qed

lemma length_particleRows: "length (particleRows i n width pos xSpacing ySpacing vSpacer) = n"
  by (induction n arbitrary: i vSpacer) simp_all

lemma particleRows_nth_length:
  "a < n \<Longrightarrow> length (particleRows i n width pos xSpacing ySpacing vSpacer ! a) = width"
proof (induction n arbitrary: i vSpacer a)
  case 0
  then show ?case by simp
next
  case (Suc n)
  then show ?case by (cases a) (simp_all add: length_particleRow)
qed

lemma rect_particleRows: "rect (particleRows i n width pos xSpacing ySpacing vSpacer) n width"
  unfolding rect_def
  by (auto simp: length_particleRows in_set_conv_nth particleRows_nth_length)

lemma particleRows_unpinned:
  "a < n \<Longrightarrow> b < width \<Longrightarrow> \<not> pinned (particleRows i n width pos xSpacing ySpacing vSpacer ! a ! b)"
proof (induction n arbitrary: i vSpacer a)
  case 0
  then show ?case by simp
next
  case (Suc n)
  then show ?case by (cases a) (simp_all add: particleRow_unpinned)
qed

lemma particleRows_nth:
  "a < n \<Longrightarrow> b < width \<Longrightarrow>
     particleRows i n width (Vec3 (Fin px) (Fin py) (Fin pz)) (Fin dx) (Fin dy) (Vec3 u (Fin y) (Fin z)) ! a ! b
       = newParticle (Vec3 (Fin (px + real b * dx)) (Fin (y - real a * dy)) (Fin z)) (particleColor (i + a) b)"
proof (induction n arbitrary: i y a u)
  case 0
  then show ?case by simp
next
  case (Suc n)
  show ?case
  proof (cases a)
    case 0
    then show ?thesis using Suc.prems by (simp add: particleRow_nth)
  next
    case (Suc a')
    then have "a' < n" using Suc.prems by simp
    then show ?thesis
      using Suc.IH [of a' "Suc i" "Fin px" "y - dy"] Suc Suc.prems by (simp add: algebra_simps)
  qed
qed

section \<open>The generated springs\<close>

lemma ref_ok: "rect ps R C \<Longrightarrow> a < R \<Longrightarrow> b < C \<Longrightarrow> ref ps a b = Some (a, b)"
  by (simp add: rect_def ref_def)

lemma putSpring_ok:
  assumes "rect ps R C" and "fst a < R" and "snd a < C" and "fst b < R" and "snd b < C"
    and "i < length v"
  shows "putSpring ps v i a b rest = Some (v[i := Some \<lparr>p0 = a, p1 = b, restLength = rest\<rparr>])"
  using assms by (simp add: putSpring_def put_def ref_ok [OF assms(1)])

lemma length_six: "length (six xSpacing ySpacing row col l v) = length v"
  by (simp add: six_def)

lemma springGroup_six:
  assumes "rect ps R C" and "row + 1 < R" and "col + 1 < C" and "l + 5 < length v"
  shows "springGroup ps xSpacing ySpacing n k row col l v =
     do { v \<leftarrow> (if k < usub n 3
                 then putSpring ps (six xSpacing ySpacing row col l v) (l + 6) (row, col) (row + 2, col) (ySpacing + ySpacing)
                 else Some (six xSpacing ySpacing row col l v));
          (if l + 7 < usub (length v) 3
           then putSpring ps v (l + 7) (row, col) (row, col + 2) (xSpacing + xSpacing)
           else Some v) }"
  using assms
  by (simp add: springGroup_def six_def putSpring_ok [OF assms(1)])

lemma slot_div_mod:
  assumes "t < g"
  shows "(g * col + t) div g = col" and "(g * col + t) mod g = (t::nat)"
  using assms by simp_all

lemma six_before: "i < l \<Longrightarrow> six xSpacing ySpacing row col l v ! i = v ! i"
  by (simp add: six_def)

lemma six_slot:
  assumes "l = g * col" and "6 \<le> g" and "l \<le> i" and "i < l + 6" and "i < length v"
  shows "six xSpacing ySpacing row col l v ! i = Some (slotSpring xSpacing ySpacing g row i)"
proof -
  obtain t where t: "i = g * col + t" "t < 6"
    using assms(1,3,4) by (metis add.commute le_Suc_ex nat_add_left_cancel_less)
  then have tg: "t < g" using assms(2) by simp
  have dm: "i div g = col" "i mod g = t"
    using slot_div_mod [OF tg, of col] t(1) by simp_all
  have il: "i = l + t" using t(1) assms(1) by simp
  have lt: "l + t < length v" using assms(5) il by simp
  define e where "e =
     (if t = 0 then \<lparr>p0 = (row, col), p1 = (row + 1, col), restLength = ySpacing\<rparr>
      else if t = 1 then \<lparr>p0 = (row, col), p1 = (row, col + 1), restLength = xSpacing\<rparr>
      else if t = 2 then \<lparr>p0 = (row, col + 1), p1 = (row + 1, col + 1), restLength = ySpacing\<rparr>
      else if t = 3 then \<lparr>p0 = (row + 1, col), p1 = (row + 1, col + 1), restLength = xSpacing\<rparr>
      else if t = 4 then \<lparr>p0 = (row + 1, col), p1 = (row, col + 1),
                           restLength = fsqrt ((xSpacing * xSpacing) + (ySpacing * ySpacing))\<rparr>
      else \<lparr>p0 = (row, col), p1 = (row + 1, col + 1),
                           restLength = fsqrt ((xSpacing * xSpacing) + (ySpacing * ySpacing))\<rparr>)"
  have ss: "slotSpring xSpacing ySpacing g row i = e"
    using t(2) by (simp add: slotSpring_def dm Let_def e_def)
  consider "t = 0" | "t = 1" | "t = 2" | "t = 3" | "t = 4" | "t = 5"
    using t(2) by linarith
  then have "six xSpacing ySpacing row col l v ! (l + t) = Some e"
    using lt by cases (simp_all add: six_def e_def)
  then show ?thesis
    by (simp only: il [symmetric] ss)
qed

lemma usub_ge: "b \<le> a \<Longrightarrow> usub a b = a - b"
  by (simp add: usub_def)

lemma springLoop_plain:
  assumes "rect ps R C" and "row + 1 < R" and "\<not> k < usub n 3"
    and "length v = (C - 1) * 6" and "l = 6 * col"
    and "\<forall>i<l. i < length v \<longrightarrow> v ! i = Some (slotSpring xSpacing ySpacing 6 row i)"
  shows "\<exists>v'. springLoop ps xSpacing ySpacing n k row col l v = Some v'
            \<and> length v' = length v
            \<and> (\<forall>i < length v. v' ! i = Some (slotSpring xSpacing ySpacing 6 row i))"
  using assms
proof (induction ps xSpacing ySpacing n k row col l v rule: springLoop.induct)
  case (1 ps xSpacing ySpacing n k row col l v)
  show ?case
  proof (cases "l < length v")
    case False
    then show ?thesis
      using "1.prems"(6) by (subst springLoop.simps) simp
  next
    case True
    have c1: "col + 1 < C" using True "1.prems"(4,5) by simp
    have l5: "l + 5 < length v" using True "1.prems"(4,5) by simp
    have len3: "3 \<le> length v" using l5 by simp
    let ?v6 = "six xSpacing ySpacing row col l v"
    let ?s7 = "\<lparr>p0 = (row, col), p1 = (row, col + 2), restLength = xSpacing + xSpacing\<rparr>"
    let ?v' = "if l + 7 < length v - 3 then ?v6[l + 7 := Some ?s7] else ?v6"
    have c2: "col + 2 < C" if "l + 7 < length v - 3"
      using that "1.prems"(4,5) by simp
    have put7: "putSpring ps ?v6 (l + 7) (row, col) (row, col + 2) (xSpacing + xSpacing)
                  = Some (?v6[l + 7 := Some ?s7])" if "l + 7 < length v - 3"
    proof (rule putSpring_ok [OF "1.prems"(1)])
      show "fst (row, col) < R" using "1.prems"(2) by simp
      show "snd (row, col) < C" using c1 by simp
      show "fst (row, col + 2) < R" using "1.prems"(2) by simp
      show "snd (row, col + 2) < C" using c2 [OF that] by simp
      show "l + 7 < length ?v6" using that by (simp add: length_six)
    qed
    have grp: "springGroup ps xSpacing ySpacing n k row col l v = Some ?v'"
      using "1.prems"(3) put7
      by (simp add: springGroup_six [OF "1.prems"(1,2) c1 l5] length_six usub_ge [OF len3])
    have g6: "springGroupSize n k = 6"
      using "1.prems"(3) by (simp add: springGroupSize_def)
    have len': "length ?v' = length v"
      by (simp add: length_six)
    have inv': "\<forall>i < l + 6. i < length ?v' \<longrightarrow> ?v' ! i = Some (slotSpring xSpacing ySpacing 6 row i)"
    proof (intro allI impI)
      fix i assume i: "i < l + 6" "i < length ?v'"
      have "?v' ! i = ?v6 ! i" using i(1) by simp
      also have "\<dots> = Some (slotSpring xSpacing ySpacing 6 row i)"
      proof (cases "i < l")
        case True
        then show ?thesis using "1.prems"(6) i(2) len' by (simp add: six_before)
      next
        case False
        then show ?thesis
          using i len' "1.prems"(5) by (intro six_slot) simp_all
      qed
      finally show "?v' ! i = Some (slotSpring xSpacing ySpacing 6 row i)" .
    qed
    have "\<exists>v''. springLoop ps xSpacing ySpacing n k row (col + 1) (l + springGroupSize n k) ?v' = Some v''
            \<and> length v'' = length ?v'
            \<and> (\<forall>i < length ?v'. v'' ! i = Some (slotSpring xSpacing ySpacing 6 row i))"
      using True grp "1.prems"(1-5) inv' len'
      by (intro "1.IH") (simp_all add: g6)
    then show ?thesis
      using True grp len' by (subst springLoop.simps) (simp add: g6)
  qed
qed

lemma slotSpring_6:
  "slotSpring xSpacing ySpacing 8 row (8 * col + 6)
     = \<lparr>p0 = (row, col), p1 = (row + 2, col), restLength = ySpacing + ySpacing\<rparr>"
  by (simp add: slotSpring_def Let_def)

lemma slotSpring_7:
  "slotSpring xSpacing ySpacing 8 row (8 * col + 7)
     = \<lparr>p0 = (row, col), p1 = (row, col + 2), restLength = xSpacing + xSpacing\<rparr>"
  by (simp add: slotSpring_def Let_def)

lemma springLoop_bend:
  assumes "rect ps R C" and "row + 2 < R" and "k < usub n 3"
    and "length v = (C - 1) * 8 - 1" and "l = 8 * col"
    and "\<forall>i<l. i < length v \<longrightarrow> v ! i = Some (slotSpring xSpacing ySpacing 8 row i)"
  shows "\<exists>v'. springLoop ps xSpacing ySpacing n k row col l v = Some v'
            \<and> length v' = length v
            \<and> (\<forall>i < length v. v' ! i = Some (slotSpring xSpacing ySpacing 8 row i))"
  using assms
proof (induction ps xSpacing ySpacing n k row col l v rule: springLoop.induct)
  case (1 ps xSpacing ySpacing n k row col l v)
  show ?case
  proof (cases "l < length v")
    case False
    then show ?thesis
      using "1.prems"(6) by (subst springLoop.simps) simp
  next
    case True
    have r1: "row + 1 < R" using "1.prems"(2) by simp
    have cc: "col + 1 \<le> C - 1" using True "1.prems"(4,5) by arith
    have c1: "col + 1 < C" using cc by arith
    have l6: "l + 6 < length v" using cc "1.prems"(4,5) by arith
    have l5: "l + 5 < length v" using l6 by simp
    have len3: "3 \<le> length v" using l5 by simp
    let ?v6 = "six xSpacing ySpacing row col l v"
    let ?s6 = "\<lparr>p0 = (row, col), p1 = (row + 2, col), restLength = ySpacing + ySpacing\<rparr>"
    let ?s7 = "\<lparr>p0 = (row, col), p1 = (row, col + 2), restLength = xSpacing + xSpacing\<rparr>"
    let ?v7 = "?v6[l + 6 := Some ?s6]"
    let ?v' = "if l + 7 < length v - 3 then ?v7[l + 7 := Some ?s7] else ?v7"
    have c2: "col + 2 < C" if "l + 7 < length v - 3"
      using that "1.prems"(4,5) by arith
    have far: "l + 7 < length v - 3" if "l + 7 < length v"
    proof -
      have "col + 2 \<le> C - 1" using that "1.prems"(4,5) by arith
      then show ?thesis using "1.prems"(4,5) by arith
    qed
    have put6: "putSpring ps ?v6 (l + 6) (row, col) (row + 2, col) (ySpacing + ySpacing) = Some ?v7"
    proof (rule putSpring_ok [OF "1.prems"(1)])
      show "fst (row, col) < R" using r1 by simp
      show "snd (row, col) < C" using c1 by simp
      show "fst (row + 2, col) < R" using "1.prems"(2) by simp
      show "snd (row + 2, col) < C" using c1 by simp
      show "l + 6 < length ?v6" using l6 by (simp add: length_six)
    qed
    have put7: "putSpring ps ?v7 (l + 7) (row, col) (row, col + 2) (xSpacing + xSpacing)
                  = Some (?v7[l + 7 := Some ?s7])" if "l + 7 < length v - 3"
    proof (rule putSpring_ok [OF "1.prems"(1)])
      show "fst (row, col) < R" using r1 by simp
      show "snd (row, col) < C" using c1 by simp
      show "fst (row, col + 2) < R" using r1 by simp
      show "snd (row, col + 2) < C" using c2 [OF that] by simp
      show "l + 7 < length ?v7" using that by (simp add: length_six)
    qed
    have u7: "usub (length ?v7) 3 = length v - 3"
      using len3 by (simp add: length_six usub_ge)
    have "springGroup ps xSpacing ySpacing n k row col l v
            = (if l + 7 < usub (length ?v7) 3
               then putSpring ps ?v7 (l + 7) (row, col) (row, col + 2) (xSpacing + xSpacing)
               else Some ?v7)"
      unfolding springGroup_six [OF "1.prems"(1) r1 c1 l5]
      by (simp only: "1.prems"(3) if_True put6 Option.bind.bind_lunit)
    also have "\<dots> = Some ?v'"
      unfolding u7 using put7 by (cases "l + 7 < length v - 3") (simp_all only: if_True if_False)
    finally have grp: "springGroup ps xSpacing ySpacing n k row col l v = Some ?v'" .
    have g8: "springGroupSize n k = 8"
      using "1.prems"(3) by (simp add: springGroupSize_def)
    have len': "length ?v' = length v"
      by (simp add: length_six)
    have inv': "\<forall>i < l + 8. i < length ?v' \<longrightarrow> ?v' ! i = Some (slotSpring xSpacing ySpacing 8 row i)"
    proof (intro allI impI)
      fix i assume i: "i < l + 8" "i < length ?v'"
      have iv: "i < length v" using i(2) len' by simp
      consider "i < l" | "l \<le> i \<and> i < l + 6" | "i = l + 6" | "i = l + 7"
        using i(1) by linarith
      then show "?v' ! i = Some (slotSpring xSpacing ySpacing 8 row i)"
      proof cases
        case 1
        then have "?v' ! i = v ! i" by (simp add: six_before)
        then show ?thesis using 1 "1.prems"(6) iv by simp
      next
        case 2
        then have "?v' ! i = ?v6 ! i" by simp
        also have "\<dots> = Some (slotSpring xSpacing ySpacing 8 row i)"
          using 2 iv "1.prems"(5) by (intro six_slot) simp_all
        finally show ?thesis .
      next
        case 3
        then have "?v' ! i = Some ?s6"
          using l6 by (simp add: length_six)
        then show ?thesis
          using 3 "1.prems"(5) slotSpring_6 [of xSpacing ySpacing row col] by simp
      next
        case 4
        then have "l + 7 < length v - 3" using far iv by simp
        then have "?v' ! i = Some ?s7"
          using 4 iv by (simp add: length_six)
        then show ?thesis
          using 4 "1.prems"(5) slotSpring_7 [of xSpacing ySpacing row col] by simp
      qed
    qed
    have "\<exists>v''. springLoop ps xSpacing ySpacing n k row (col + 1) (l + springGroupSize n k) ?v' = Some v''
            \<and> length v'' = length ?v'
            \<and> (\<forall>i < length ?v'. v'' ! i = Some (slotSpring xSpacing ySpacing 8 row i))"
      using True grp "1.prems"(1-5) inv' len'
      by (intro "1.IH") (simp_all add: g8)
    then show ?thesis
      using True grp len' by (subst springLoop.simps) (simp add: g8)
  qed
qed

lemma springLoop_row:
  assumes "rect ps R C" and "2 \<le> C" and "n = R - 1" and "3 \<le> n" and "k < n"
  shows "springLoop ps xSpacing ySpacing n k k 0 0 (replicate (rowSlots n C k) None)
           = Some (map (\<lambda>i. Some (slotSpring xSpacing ySpacing (springGroupSize n k) k i))
                       [0 ..< rowSlots n C k])"
proof -
  let ?v = "replicate (rowSlots n C k) (None :: Spring option)"
  let ?g = "springGroupSize n k"
  have u: "usub n 3 = n - 3" using assms(4) by (rule usub_ge)
  have "\<exists>v'. springLoop ps xSpacing ySpacing n k k 0 0 ?v = Some v'
            \<and> length v' = length ?v
            \<and> (\<forall>i < length ?v. v' ! i = Some (slotSpring xSpacing ySpacing ?g k i))"
  proof (cases "k < n - 3")
    case True
    have g: "?g = 8" using True u by (simp add: springGroupSize_def)
    have "k + 2 < R" using True assms(3) by arith
    then show ?thesis
      unfolding g using True u
      by (intro springLoop_bend [OF assms(1)]) (simp_all add: rowSlots_def)
  next
    case False
    have g: "?g = 6" using False u by (simp add: springGroupSize_def)
    have "k + 1 < R" using assms(3,5) by arith
    then show ?thesis
      unfolding g using False u
      by (intro springLoop_plain [OF assms(1)]) (simp_all add: rowSlots_def)
  qed
  then obtain v' where v': "springLoop ps xSpacing ySpacing n k k 0 0 ?v = Some v'"
      "length v' = rowSlots n C k"
      "\<forall>i < rowSlots n C k. v' ! i = Some (slotSpring xSpacing ySpacing ?g k i)"
    by auto
  have "v' = map (\<lambda>i. Some (slotSpring xSpacing ySpacing ?g k i)) [0 ..< rowSlots n C k]"
    using v'(2,3) by (intro nth_equalityI) simp_all
  then show ?thesis using v'(1) by simp
qed

lemma newVector_row:
  assumes "2 \<le> C" and "3 \<le> n"
  shows "newVector (if k < usub n 3 then (int C - 1) * 8 - 1 else (int C - 1) * 6)
           = Some (replicate (rowSlots n C k) None)"
proof -
  have u: "usub n 3 = n - 3" using assms(2) by (rule usub_ge)
  obtain c where c: "C = 2 + c"
    using assms(1) le_Suc_ex by blast
  show ?thesis
  proof (cases "k < n - 3")
    case True
    have "\<not> (int C - 1) * 8 - 1 < 0" using assms(1) by arith
    moreover have "nat ((int C - 1) * 8 - 1) = (C - 1) * 8 - 1"
      unfolding c by (simp add: algebra_simps nat_add_distrib nat_mult_distrib)
    ultimately show ?thesis
      using True by (simp only: newVector_def rowSlots_def u if_True if_False)
  next
    case False
    have "\<not> (int C - 1) * 6 < 0" using assms(1) by arith
    moreover have "nat ((int C - 1) * 6) = (C - 1) * 6"
      unfolding c by (simp add: algebra_simps nat_add_distrib nat_mult_distrib)
    ultimately show ?thesis
      using False by (simp only: newVector_def rowSlots_def u if_True if_False)
  qed
qed

lemma springRows_ok:
  assumes "rect ps R C" and "2 \<le> C" and "n = R - 1" and "3 \<le> n" and "k + m = n"
  shows "springRows ps C xSpacing ySpacing n k k m
           = Some (map (\<lambda>k. map (\<lambda>i. Some (slotSpring xSpacing ySpacing (springGroupSize n k) k i))
                                  [0 ..< rowSlots n C k]) [k ..< n])"
  using assms(5)
proof (induction m arbitrary: k)
  case 0
  then show ?case by simp
next
  case (Suc m)
  have k: "k < n" using Suc.prems by simp
  have rest: "springRows ps C xSpacing ySpacing n (k + 1) (k + 1) m
           = Some (map (\<lambda>k. map (\<lambda>i. Some (slotSpring xSpacing ySpacing (springGroupSize n k) k i))
                                  [0 ..< rowSlots n C k]) [k + 1 ..< n])"
    using Suc.prems by (intro Suc.IH) simp
  have up: "[k ..< n] = k # [k + 1 ..< n]"
    using k by (simp add: upt_conv_Cons)
  show ?case
    unfolding springRows.simps newVector_row [OF assms(2,4)]
      Option.bind.bind_lunit springLoop_row [OF assms(1-4) k] rest up
    by simp
qed

lemma initialised_map_Some: "initialised (map Some xs) = Some xs"
  by (induction xs) simp_all

lemma initialisedRows_map_Some: "initialisedRows (map (map Some) xss) = Some xss"
  by (induction xss) (simp_all add: initialised_map_Some)

lemma generateParticleSheet_ok:
  assumes "4 \<le> R" and "2 \<le> C"
  shows "generateParticleSheet pos R C
           = Some (particleRows 0 R C pos (Fin 2 / (Fin (real R) - Fin 1)) (Fin 2 / (Fin (real C) - Fin 1)) pos,
                   map (map Some) (meshSprings (Fin 2 / (Fin (real R) - Fin 1)) (Fin 2 / (Fin (real C) - Fin 1)) R C))"
proof -
  let ?xs = "Fin 2 / (Fin (real R) - Fin 1)"
  let ?ys = "Fin 2 / (Fin (real C) - Fin 1)"
  let ?ps = "particleRows 0 R C pos ?xs ?ys pos"
  have n: "\<not> int R - 1 < 0" "nat (int R - 1) = R - 1" using assms(1) by simp_all
  have rows: "springRows ?ps C ?xs ?ys (R - 1) 0 0 (R - 1)
        = Some (map (\<lambda>k. map (\<lambda>i. Some (slotSpring ?xs ?ys (springGroupSize (R - 1) k) k i))
                                  [0 ..< rowSlots (R - 1) C k]) [0 ..< R - 1])"
    using assms by (intro springRows_ok [OF rect_particleRows]) simp_all
  have m: "map (map Some) (meshSprings ?xs ?ys R C)
        = map (\<lambda>k. map (\<lambda>i. Some (slotSpring ?xs ?ys (springGroupSize (R - 1) k) k i))
                                  [0 ..< rowSlots (R - 1) C k]) [0 ..< R - 1]"
    by (simp add: meshSprings_def comp_def)
  show ?thesis
    unfolding generateParticleSheet_def Let_def m
    by (simp only: n if_False Option.bind.bind_lunit rows)
qed

section \<open>The constructor\<close>

lemma generateParticleSheet_mesh:
  assumes "4 \<le> R" and "2 \<le> C"
  shows "generateParticleSheet pos R C
           = Some (meshParticles pos R C, map (map Some) (meshSprings (xSpacingOf R) (ySpacingOf C) R C))"
  unfolding meshParticles_def xSpacingOf_def ySpacingOf_def
  by (rule generateParticleSheet_ok [OF assms])

lemma rect_iff: "rect ps R C = (map length ps = replicate R C)"
proof
  assume "rect ps R C"
  then show "map length ps = replicate R C"
    unfolding rect_def by (intro replicate_eqI) auto
next
  assume a: "map length ps = replicate R C"
  have l: "length ps = R"
    using a by (metis length_map length_replicate)
  have "length row = C" if "row \<in> set ps" for row
  proof -
    have "length row \<in> set (map length ps)" using that by simp
    then show ?thesis unfolding a by simp
  qed
  then show "rect ps R C"
    using l by (simp add: rect_def)
qed

lemma rect_shape: "map length ps' = map length ps \<Longrightarrow> rect ps' R C = rect ps R C"
  by (simp add: rect_iff)

lemma rect_updP: "rect (updP r f ps) R C = rect ps R C"
  by (rule rect_shape [OF shape_updP])

lemma pin_ok:
  assumes "rect ps R C" and "0 < R" and "col < C"
  shows "pin col (ps, q) = Some (updP (0, col) (\<lambda>p. p\<lparr>pinned := True\<rparr>) ps, q @ [(0, col)])"
  using assms by (simp add: pin_def ref_ok [OF assms(1)])

lemma rect_meshParticles: "rect (meshParticles pos R C) R C"
  unfolding meshParticles_def by (rule rect_particleRows)

lemma ClothSheet_new_ok:
  assumes "4 \<le> W" and "W \<le> H"
  shows "ClothSheet_new pos W H
           = Some \<lparr>clothPosition = pos,
                   particles = pinAll (pinColumns W) (meshParticles pos W H),
                   springs = meshSprings (xSpacingOf W) (ySpacingOf H) W H,
                   potentialColliders = [],
                   pinnedParticles = map (Pair 0) (pinColumns W),
                   vWindForce = Vec3 (Fin 0) (Fin 0) (Fin 0)\<rparr>"
proof -
  let ?f = "\<lambda>p. p\<lparr>pinned := True\<rparr>"
  let ?p0 = "meshParticles pos W H"
  let ?p1 = "updP (0, 0) ?f ?p0"
  let ?p2 = "updP (0, 1) ?f ?p1"
  let ?p3 = "updP (0, 2) ?f ?p2"
  let ?p4 = "updP (0, W - 1) ?f ?p3"
  let ?p5 = "updP (0, W - 2) ?f ?p4"
  let ?p6 = "updP (0, W - 3) ?f ?p5"
  have r: "rect ?p0 W H" "rect ?p1 W H" "rect ?p2 W H" "rect ?p3 W H" "rect ?p4 W H" "rect ?p5 W H"
    by (simp_all add: rect_updP rect_meshParticles)
  have len: "length ?p3 = W" "length ?p4 = W" "length ?p5 = W"
    using r by (simp_all add: rect_def)
  have u: "usub W 1 = W - 1" "usub W 2 = W - 2" "usub W 3 = W - 3"
    using assms(1) by (simp_all add: usub_ge)
  have W0: "0 < W" using assms(1) by simp
  have c: "0 < H" "1 < H" "2 < H" "W - 1 < H" "W - 2 < H" "W - 3 < H"
    using assms by simp_all
  have g: "generateParticleSheet pos W H
             = Some (?p0, map (map Some) (meshSprings (xSpacingOf W) (ySpacingOf H) W H))"
    using assms by (intro generateParticleSheet_mesh) simp_all
  have s1: "pin 0 (?p0, []) = Some (?p1, [(0, 0)])"
    using pin_ok [OF r(1) W0 c(1), of "[]"] by simp
  have s2: "pin 1 (?p1, [(0, 0)]) = Some (?p2, [(0, 0), (0, 1)])"
    using pin_ok [OF r(2) W0 c(2), of "[(0, 0)]"] by simp
  have s3: "pin 2 (?p2, [(0, 0), (0, 1)]) = Some (?p3, [(0, 0), (0, 1), (0, 2)])"
    using pin_ok [OF r(3) W0 c(3), of "[(0, 0), (0, 1)]"] by simp
  have s4: "pin (W - 1) (?p3, [(0, 0), (0, 1), (0, 2)]) = Some (?p4, [(0, 0), (0, 1), (0, 2), (0, W - 1)])"
    using pin_ok [OF r(4) W0 c(4), of "[(0, 0), (0, 1), (0, 2)]"] by simp
  have s5: "pin (W - 2) (?p4, [(0, 0), (0, 1), (0, 2), (0, W - 1)])
              = Some (?p5, [(0, 0), (0, 1), (0, 2), (0, W - 1), (0, W - 2)])"
    using pin_ok [OF r(5) W0 c(5), of "[(0, 0), (0, 1), (0, 2), (0, W - 1)]"] by simp
  have s6: "pin (W - 3) (?p5, [(0, 0), (0, 1), (0, 2), (0, W - 1), (0, W - 2)])
              = Some (?p6, [(0, 0), (0, 1), (0, 2), (0, W - 1), (0, W - 2), (0, W - 3)])"
    using pin_ok [OF r(6) W0 c(6), of "[(0, 0), (0, 1), (0, 2), (0, W - 1), (0, W - 2)]"] by simp
  have fin: "pinAll (pinColumns W) ?p0 = ?p6"
    by (simp add: pinAll_def pinColumns_def)
  have q: "map (Pair 0) (pinColumns W) = [(0, 0), (0, 1), (0, 2), (0, W - 1), (0, W - 2), (0, W - 3)]"
    by (simp add: pinColumns_def)
  show ?thesis
    unfolding ClothSheet_new_def g Option.bind.bind_lunit prod.case initialisedRows_map_Some
      s1 fst_conv snd_conv s2 s3 len u s4 s5 s6 fin q ..
qed

lemma validRef_rect: "rect ps R C \<Longrightarrow> validRef ps (i, j) = (i < R \<and> j < C)"
  by (auto simp: rect_def validRef_def)

lemma validRef_pinAll: "validRef (pinAll cols ps) r = validRef ps r"
  unfolding pinAll_def by (induction cols arbitrary: ps) (simp_all add: validRef_updP)

lemma rect_pinAll: "rect (pinAll cols ps) R C = rect ps R C"
  unfolding pinAll_def by (induction cols arbitrary: ps) (simp_all add: rect_updP)

lemma pinned_pinAll:
  "validRef ps r \<Longrightarrow>
     pinned (getP (pinAll cols ps) r) = (pinned (getP ps r) \<or> r \<in> set (map (Pair 0) cols))"
  unfolding pinAll_def
proof (induction cols arbitrary: ps)
  case Nil
  then show ?case by simp
next
  case (Cons col cols)
  let ?ps1 = "updP (0, col) (\<lambda>p. p\<lparr>pinned := True\<rparr>) ps"
  have v: "validRef ?ps1 r" using Cons.prems by (simp add: validRef_updP)
  have p: "pinned (getP ?ps1 r) = (pinned (getP ps r) \<or> r = (0, col))"
    using Cons.prems by (cases "r = (0, col)") (simp_all add: getP_updP_same getP_updP_other)
  show ?case
    using Cons.IH [OF v] p by auto
qed

lemma meshParticles_unpinned:
  "i < R \<Longrightarrow> j < C \<Longrightarrow> \<not> pinned (getP (meshParticles pos R C) (i, j))"
  by (simp add: meshParticles_def getP_def particleRows_unpinned)

lemma pinned_constructed:
  assumes "i < R" and "j < C"
  shows "pinned (getP (pinAll cols (meshParticles pos R C)) (i, j)) = (i = 0 \<and> j \<in> set cols)"
proof -
  have v: "validRef (meshParticles pos R C) (i, j)"
    using assms by (simp add: validRef_rect [OF rect_meshParticles])
  show ?thesis
    using assms by (auto simp: pinned_pinAll [OF v] meshParticles_unpinned)
qed

lemma pinnedFlags_constructed:
  assumes "particles c = pinAll cols (meshParticles pos R C)" and "0 < R"
  shows "pinnedFlags c = map (\<lambda>j. j \<in> set cols) [0 ..< C] # replicate (R - 1) (replicate C False)"
proof (rule nth_equalityI)
  have r: "rect (particles c) R C"
    by (simp add: assms(1) rect_pinAll rect_meshParticles)
  show l: "length (pinnedFlags c) = length (map (\<lambda>j. j \<in> set cols) [0 ..< C] # replicate (R - 1) (replicate C False))"
    using r assms(2) by (simp add: pinnedFlags_def rect_def)
  fix i assume "i < length (pinnedFlags c)"
  then have i: "i < R" using r by (simp add: pinnedFlags_def rect_def)
  have li: "length (particles c ! i) = C"
    using r i by (simp add: rect_def)
  have "map pinned (particles c ! i) = map (\<lambda>j. i = 0 \<and> j \<in> set cols) [0 ..< C]"
  proof (rule nth_equalityI)
    show "length (map pinned (particles c ! i)) = length (map (\<lambda>j. i = 0 \<and> j \<in> set cols) [0 ..< C])"
      by (simp add: li)
    fix j assume "j < length (map pinned (particles c ! i))"
    then have j: "j < C" by (simp add: li)
    show "map pinned (particles c ! i) ! j = map (\<lambda>j. i = 0 \<and> j \<in> set cols) [0 ..< C] ! j"
      using pinned_constructed [OF i j, of cols pos] j li
      by (simp add: assms(1) getP_def)
  qed
  also have "\<dots> = (map (\<lambda>j. j \<in> set cols) [0 ..< C] # replicate (R - 1) (replicate C False)) ! i"
    using i by (cases i) (simp_all add: map_replicate_const)
  finally show "pinnedFlags c ! i = (map (\<lambda>j. j \<in> set cols) [0 ..< C] # replicate (R - 1) (replicate C False)) ! i"
    using i r by (simp add: pinnedFlags_def rect_def)
qed

lemma pinnedCount_flags: "pinnedCount c = length (filter (\<lambda>b. b) (concat (pinnedFlags c)))"
  by (simp add: pinnedCount_def pinnedFlags_def map_concat [symmetric] filter_map comp_def)

lemma no_True_in_replicate: "filter (\<lambda>b. b) (concat (replicate m (replicate k False))) = []"
  by (induction m) simp_all

lemma pinnedCount_constructed:
  assumes "particles c = pinAll cols (meshParticles pos R C)" and "0 < R"
  shows "pinnedCount c = card {j. j < C \<and> j \<in> set cols}"
proof -
  have "pinnedCount c = length (filter (\<lambda>j. j \<in> set cols) [0 ..< C])"
    by (simp add: pinnedCount_flags pinnedFlags_constructed [OF assms] no_True_in_replicate
        filter_map comp_def)
  also have "\<dots> = card {j. j < C \<and> j \<in> set cols}"
  proof -
    have "{i. i < C \<and> [0 ..< C] ! i \<in> set cols} = {j. j < C \<and> j \<in> set cols}"
      by auto
    then show ?thesis by (simp add: length_filter_conv_card)
  qed
  finally show ?thesis .
qed

section \<open>C8: the pins of a constructed cloth\<close>

text \<open>
  C8 (as amended). For every square mesh of \<open>n\<close> by \<open>n\<close> particles with \<open>n\<close> at least 6,
  the constructor returns a cloth in which exactly six particles are pinned: the first
  three and the last three particles of the first row, and no other particle; the queue
  holds these six, the left ones first.
\<close>

theorem constructor_pins_six:
  assumes "6 \<le> n"
  shows "\<exists>c. ClothSheet_new pos n n = Some c
           \<and> rect (particles c) n n
           \<and> pinnedParticles c = [(0, 0), (0, 1), (0, 2), (0, n - 1), (0, n - 2), (0, n - 3)]
           \<and> pinnedFlags c = map (\<lambda>j. j < 3 \<or> n - 3 \<le> j) [0 ..< n] # replicate (n - 1) (replicate n False)
           \<and> pinnedCount c = 6"
proof -
  let ?c = "\<lparr>clothPosition = pos,
             particles = pinAll (pinColumns n) (meshParticles pos n n),
             springs = meshSprings (xSpacingOf n) (ySpacingOf n) n n,
             potentialColliders = [],
             pinnedParticles = map (Pair 0) (pinColumns n),
             vWindForce = Vec3 (Fin 0) (Fin 0) (Fin 0)\<rparr>"
  have new: "ClothSheet_new pos n n = Some ?c"
    using assms by (intro ClothSheet_new_ok) simp_all
  have p: "particles ?c = pinAll (pinColumns n) (meshParticles pos n n)"
    by simp
  have n0: "0 < n" using assms by simp
  have r: "rect (particles ?c) n n"
    by (simp add: rect_pinAll rect_meshParticles)
  have q: "pinnedParticles ?c = [(0, 0), (0, 1), (0, 2), (0, n - 1), (0, n - 2), (0, n - 3)]"
    by (simp add: pinColumns_def)
  have "map (\<lambda>j. j \<in> set (pinColumns n)) [0 ..< n] = map (\<lambda>j. j < 3 \<or> n - 3 \<le> j) [0 ..< n]"
    using assms by (intro map_cong [OF refl]) (auto simp: pinColumns_def)
  then have f: "pinnedFlags ?c = map (\<lambda>j. j < 3 \<or> n - 3 \<le> j) [0 ..< n] # replicate (n - 1) (replicate n False)"
    using pinnedFlags_constructed [OF p n0] by simp
  have "{j. j < n \<and> j \<in> set (pinColumns n)} = {0, 1, 2, n - 1, n - 2, n - 3}"
    using assms by (auto simp: pinColumns_def)
  moreover have "card {0, 1, 2, n - 1, n - 2, n - 3} = 6"
  proof -
    have "distinct [0, 1, 2, n - 1, n - 2, n - 3]"
      using assms by (simp; arith)
    then have "card (set [0, 1, 2, n - 1, n - 2, n - 3]) = length [0, 1, 2, n - 1, n - 2, n - 3]"
      by (rule distinct_card)
    then show ?thesis by simp
  qed
  ultimately have k: "pinnedCount ?c = 6"
    using pinnedCount_constructed [OF p n0] by simp
  show ?thesis
    using new r q f k by blast
qed

theorem constructor_pins_six_witness:
  "\<exists>c. ClothSheet_new (Vec3 (Fin (- 1)) (Fin 1) (Fin (- 2))) 7 7 = Some c
       \<and> pinnedParticles c = [(0, 0), (0, 1), (0, 2), (0, 6), (0, 5), (0, 4)]
       \<and> pinnedFlags c = [True, True, True, False, True, True, True] # replicate 6 (replicate 7 False)
       \<and> pinnedCount c = 6"
proof -
  have u: "[0 ..< 7] = [0, 1, 2, 3, 4, 5, 6::nat]"
    by (simp add: upt_rec)
  show ?thesis
    using constructor_pins_six [of 7 "Vec3 (Fin (- 1)) (Fin 1) (Fin (- 2))"]
    by (simp add: u) blast
qed

text \<open>
  C8 as stated fails on the smallest meshes: in a 4 by 4 mesh the three left and the three
  right pins overlap, the queue holds \<open>(0, 2)\<close> and \<open>(0, 1)\<close> twice and four particles
  are pinned; in a 5 by 5 mesh five are.
\<close>

theorem constructor_pins_fewer_counterexample:
  "map_option pinnedCount (ClothSheet_new (Vec3 (Fin (- 1)) (Fin 1) (Fin (- 2))) 4 4) = Some 4
   \<and> map_option pinnedParticles (ClothSheet_new (Vec3 (Fin (- 1)) (Fin 1) (Fin (- 2))) 4 4)
        = Some [(0, 0), (0, 1), (0, 2), (0, 3), (0, 2), (0, 1)]
   \<and> map_option pinnedCount (ClothSheet_new (Vec3 (Fin (- 1)) (Fin 1) (Fin (- 2))) 5 5) = Some 5"
proof -
  let ?pos = "Vec3 (Fin (- 1)) (Fin 1) (Fin (- 2))"
  let ?c4 = "\<lparr>clothPosition = ?pos,
             particles = pinAll (pinColumns 4) (meshParticles ?pos 4 4),
             springs = meshSprings (xSpacingOf 4) (ySpacingOf 4) 4 4,
             potentialColliders = [],
             pinnedParticles = map (Pair 0) (pinColumns 4),
             vWindForce = Vec3 (Fin 0) (Fin 0) (Fin 0)\<rparr>"
  let ?c5 = "\<lparr>clothPosition = ?pos,
             particles = pinAll (pinColumns 5) (meshParticles ?pos 5 5),
             springs = meshSprings (xSpacingOf 5) (ySpacingOf 5) 5 5,
             potentialColliders = [],
             pinnedParticles = map (Pair 0) (pinColumns 5),
             vWindForce = Vec3 (Fin 0) (Fin 0) (Fin 0)\<rparr>"
  have n4: "ClothSheet_new ?pos 4 4 = Some ?c4"
    by (rule ClothSheet_new_ok) simp_all
  have n5: "ClothSheet_new ?pos 5 5 = Some ?c5"
    by (rule ClothSheet_new_ok) simp_all
  have "{j. j < 4 \<and> j \<in> set (pinColumns 4)} = {0, 1, 2, 3::nat}"
    by (auto simp: pinColumns_def)
  then have k4: "pinnedCount ?c4 = 4"
    using pinnedCount_constructed [of ?c4 "pinColumns 4" ?pos 4 4] by simp
  have "{j. j < 5 \<and> j \<in> set (pinColumns 5)} = {0, 1, 2, 3, 4::nat}"
    by (auto simp: pinColumns_def)
  then have k5: "pinnedCount ?c5 = 5"
    using pinnedCount_constructed [of ?c5 "pinColumns 5" ?pos 5 5] by simp
  have q4: "pinnedParticles ?c4 = [(0, 0), (0, 1), (0, 2), (0, 3), (0, 2), (0, 1)]"
    by (simp add: pinColumns_def)
  show ?thesis
    unfolding n4 n5 option.map using k4 k5 q4 by simp
qed

section \<open>The structure of a generated mesh\<close>

lemma spacing_finite:
  assumes "2 \<le> n"
  shows "xSpacingOf n = Fin (2 / (real n - 1))" and "ySpacingOf n = Fin (2 / (real n - 1))"
    and "0 < 2 / (real n - 1)"
  using assms by (simp_all add: xSpacingOf_def ySpacingOf_def)

lemma position_pinAll: "position (getP (pinAll cols ps) r) = position (getP ps r)"
  unfolding pinAll_def by (induction cols arbitrary: ps) (simp_all add: getP_updP_keeps)

lemma meshParticles_position:
  assumes "2 \<le> R" and "2 \<le> C" and "i < R" and "j < C"
  shows "position (getP (meshParticles (Vec3 (Fin px) (Fin py) (Fin pz)) R C) (i, j))
           = Vec3 (Fin (px + real j * (2 / (real R - 1)))) (Fin (py - real i * (2 / (real C - 1)))) (Fin pz)"
  using assms
  by (simp add: meshParticles_def getP_def spacing_finite particleRows_nth newParticle_def)

lemma concat_rect_length: "rect ps R C \<Longrightarrow> length (concat ps) = R * C"
proof -
  assume "rect ps R C"
  then have "map length ps = replicate R C" by (simp add: rect_iff)
  then show ?thesis by (simp add: length_concat sum_list_replicate)
qed

text \<open>The springs of the mesh, slot by slot.\<close>

lemma meshSprings_member:
  assumes "s \<in> set (concat (meshSprings xSpacing ySpacing R C))"
  obtains k i where "k < R - 1" "i < rowSlots (R - 1) C k"
    "s = slotSpring xSpacing ySpacing (springGroupSize (R - 1) k) k i"
  using assms by (auto simp: meshSprings_def)

lemma slot_column:
  assumes "i < rowSlots n C k" and "3 \<le> n"
  shows "i div springGroupSize n k + 1 < C"
proof (cases "k < n - 3")
  case True
  then have "i < (C - 1) * 8" using assms(1) by (simp add: rowSlots_def)
  then have "i div 8 < C - 1" by (simp add: less_mult_imp_div_less)
  then show ?thesis using True assms(2) by (simp add: springGroupSize_def usub_ge)
next
  case False
  then have "i < (C - 1) * 6" using assms(1) by (simp add: rowSlots_def)
  then have "i div 6 < C - 1" by (simp add: less_mult_imp_div_less)
  then show ?thesis using False assms(2) by (simp add: springGroupSize_def usub_ge)
qed

lemma slot_place:
  assumes "3 \<le> n"
  shows "i mod springGroupSize n k < (if k < n - 3 then 8 else 6)"
  using assms by (simp add: springGroupSize_def usub_ge)

lemma slot_bend_column:
  assumes "i < rowSlots n C k" and "k < n - 3" and "i mod 8 = 7"
  shows "i div 8 + 2 < C"
proof -
  have i: "i = 8 * (i div 8) + 7" using assms(3) by (metis mult_div_mod_eq)
  have "i < (C - 1) * 8 - 1" using assms(1,2) by (simp add: rowSlots_def)
  then show ?thesis using i by arith
qed

lemma grid_difference:
  assumes "\<And>i j. i < R \<Longrightarrow> j < C \<Longrightarrow>
             position (getP ps (i, j)) = Vec3 (Fin (px + real j * dx)) (Fin (py - real i * dy)) (Fin pz)"
    and "i < R" and "j < C" and "i' < R" and "j' < C"
  shows "magnitude (position (getP ps (i, j)) - position (getP ps (i', j')))
           = Fin (sqrt (((real j - real j') * dx) * ((real j - real j') * dx)
                        + ((real i' - real i) * dy) * ((real i' - real i) * dy)))"
proof -
  have "px + real j * dx - (px + real j' * dx) = (real j - real j') * dx"
    "py - real i * dy - (py - real i' * dy) = (real i' - real i) * dy"
    by (simp_all add: algebra_simps)
  then show ?thesis
    by (simp add: assms magnitude_diff_Fin)
qed

lemma sqrt_four_squares: "0 < d \<Longrightarrow> sqrt (4 * (d * d)) = 2 * d"
proof -
  assume d: "0 < d"
  have "4 * (d * d) = (2 * d) * (2 * d)" by simp
  then have "sqrt (4 * (d * d)) = \<bar>2 * d\<bar>"
    by (simp only: real_sqrt_abs2)
  then show ?thesis using d by simp
qed

lemma slot_spring_at_rest:
  assumes grid: "\<And>i j. i < R \<Longrightarrow> j < C \<Longrightarrow>
             position (getP ps (i, j)) = Vec3 (Fin (px + real j * dx)) (Fin (py - real i * dy)) (Fin pz)"
    and "rect ps R C" and "0 < dx" and "0 < dy"
    and "k + 1 < R" and "col + 1 < C" and "t < 8"
    and "t = 6 \<Longrightarrow> k + 2 < R" and "t = 7 \<Longrightarrow> col + 2 < C"
    and "i div g = col" and "i mod g = t"
  shows "validRef ps (p0 (slotSpring (Fin dx) (Fin dy) g k i))
       \<and> validRef ps (p1 (slotSpring (Fin dx) (Fin dy) g k i))
       \<and> Fin 0 < restLength (slotSpring (Fin dx) (Fin dy) g k i)
       \<and> magnitude (position (getP ps (p0 (slotSpring (Fin dx) (Fin dy) g k i)))
                      - position (getP ps (p1 (slotSpring (Fin dx) (Fin dy) g k i))))
           = restLength (slotSpring (Fin dx) (Fin dy) g k i)"
proof -
  note v = validRef_rect [OF assms(2)]
  have sq: "0 < dx * dx + dy * dy" "\<not> dx * dx + dy * dy < 0"
    using assms(3,4) by (simp_all add: add_pos_pos not_less add_nonneg_nonneg)
  have k0: "k < R" and c0: "col < C" using assms(5,6) by simp_all
  consider "t = 0" | "t = 1" | "t = 2" | "t = 3" | "t = 4" | "t = 5" | "t = 6" | "t = 7"
    using assms(7) by linarith
  then show ?thesis
  proof cases
    case 1
    then show ?thesis
      using assms(3-6,10,11) k0 c0
      by (simp add: slotSpring_def Let_def v grid_difference [OF grid])
  next
    case 2
    then show ?thesis
      using assms(3-6,10,11) k0 c0
      by (simp add: slotSpring_def Let_def v grid_difference [OF grid])
  next
    case 3
    then show ?thesis
      using assms(3-6,10,11) k0 c0
      by (simp add: slotSpring_def Let_def v grid_difference [OF grid])
  next
    case 4
    then show ?thesis
      using assms(3-6,10,11) k0 c0
      by (simp add: slotSpring_def Let_def v grid_difference [OF grid])
  next
    case 5
    then show ?thesis
      using assms(3-6,10,11) k0 c0 sq
      by (simp add: slotSpring_def Let_def v grid_difference [OF grid])
  next
    case 6
    then show ?thesis
      using assms(3-6,10,11) k0 c0 sq
      by (simp add: slotSpring_def Let_def v grid_difference [OF grid] add.commute)
  next
    case 7
    then show ?thesis
      using assms(3-6,8,10,11) k0 c0
      by (simp add: slotSpring_def Let_def v grid_difference [OF grid] sqrt_four_squares)
  next
    case 8
    then show ?thesis
      using assms(3-6,9,10,11) k0 c0
      by (simp add: slotSpring_def Let_def v grid_difference [OF grid] sqrt_four_squares)
  qed
qed

lemma mesh_spring_at_rest:
  assumes grid: "\<And>i j. i < R \<Longrightarrow> j < C \<Longrightarrow>
             position (getP ps (i, j)) = Vec3 (Fin (px + real j * dx)) (Fin (py - real i * dy)) (Fin pz)"
    and "rect ps R C" and "0 < dx" and "0 < dy" and "4 \<le> R"
    and "s \<in> set (concat (meshSprings (Fin dx) (Fin dy) R C))"
  shows "validRef ps (p0 s) \<and> validRef ps (p1 s) \<and> Fin 0 < restLength s
       \<and> magnitude (position (getP ps (p0 s)) - position (getP ps (p1 s))) = restLength s"
proof -
  obtain k i where ki: "k < R - 1" "i < rowSlots (R - 1) C k"
      "s = slotSpring (Fin dx) (Fin dy) (springGroupSize (R - 1) k) k i"
    using assms(6) by (rule meshSprings_member)
  let ?g = "springGroupSize (R - 1) k"
  have n3: "3 \<le> R - 1" using assms(5) by simp
  have c1: "i div ?g + 1 < C" by (rule slot_column [OF ki(2) n3])
  have k1: "k + 1 < R" using ki(1) by simp
  have t8: "i mod ?g < 8"
    using slot_place [OF n3, of i k] by (simp split: if_splits)
  have bend: "k < R - 1 - 3" if "i mod ?g = 6 \<or> i mod ?g = 7"
    using that slot_place [OF n3, of i k] by (simp split: if_splits)
  have g8: "?g = 8" if "k < R - 1 - 3"
    using that n3 by (simp add: springGroupSize_def usub_ge)
  have k2: "k + 2 < R" if "i mod ?g = 6"
    using bend that by simp
  have c2: "i div ?g + 2 < C" if "i mod ?g = 7"
  proof -
    have b: "k < R - 1 - 3" using bend that by simp
    show ?thesis
      using slot_bend_column [OF ki(2) b] that unfolding g8 [OF b] by simp
  qed
  show ?thesis
    unfolding ki(3)
    by (rule slot_spring_at_rest [OF grid assms(2-4) k1 c1 t8 k2 c2 refl refl])
qed

lemma pin_fail:
  assumes "rect ps R C" and "0 < R" and "\<not> col < C"
  shows "pin col (ps, q) = None"
  using assms by (simp add: pin_def ref_def rect_def)

lemma pinsQueued_constructed:
  assumes "particles c = pinAll cols (meshParticles pos R C)" and "pinnedParticles c = map (Pair 0) cols"
  shows "pinsQueued c"
  unfolding pinsQueued_def
proof (intro allI impI)
  fix i j assume i: "i < length (particles c)" and j: "j < length (particles c ! i)"
    and p: "pinned (particles c ! i ! j)"
  have r: "rect (particles c) R C"
    by (simp add: assms(1) rect_pinAll rect_meshParticles)
  have "i < R" "j < C" using i j r by (simp_all add: rect_def)
  then have "i = 0 \<and> j \<in> set cols"
    using p pinned_constructed [of i R j C cols pos] by (simp add: assms(1) getP_def)
  then show "(i, j) \<in> set (pinnedParticles c)"
    by (simp add: assms(2))
qed

lemma constructed_mesh:
  assumes "4 \<le> W" and "W \<le> H"
  shows "\<exists>c. ClothSheet_new (Vec3 (Fin px) (Fin py) (Fin pz)) W H = Some c
           \<and> rect (particles c) W H
           \<and> length (concat (particles c)) = W * H
           \<and> (\<forall>i<W. \<forall>j<H. position (getP (particles c) (i, j))
                  = Vec3 (Fin (px + real j * (2 / (real W - 1)))) (Fin (py - real i * (2 / (real H - 1)))) (Fin pz))
           \<and> (\<forall>s \<in> set (concat (springs c)).
                  validRef (particles c) (p0 s) \<and> validRef (particles c) (p1 s) \<and> Fin 0 < restLength s
                  \<and> magnitude (position (getP (particles c) (p0 s)) - position (getP (particles c) (p1 s)))
                      = restLength s)
           \<and> pinsQueued c
           \<and> satisfyConstraints c = c"
proof -
  let ?pos = "Vec3 (Fin px) (Fin py) (Fin pz)"
  let ?c = "\<lparr>clothPosition = ?pos,
             particles = pinAll (pinColumns W) (meshParticles ?pos W H),
             springs = meshSprings (xSpacingOf W) (ySpacingOf H) W H,
             potentialColliders = [],
             pinnedParticles = map (Pair 0) (pinColumns W),
             vWindForce = Vec3 (Fin 0) (Fin 0) (Fin 0)\<rparr>"
  let ?dx = "2 / (real W - 1)"
  let ?dy = "2 / (real H - 1)"
  have W2: "2 \<le> W" and H2: "2 \<le> H" using assms by simp_all
  have new: "ClothSheet_new ?pos W H = Some ?c"
    by (rule ClothSheet_new_ok [OF assms])
  have r: "rect (particles ?c) W H"
    by (simp add: rect_pinAll rect_meshParticles)
  have cnt: "length (concat (particles ?c)) = W * H"
    by (rule concat_rect_length [OF r])
  have pos: "position (getP (particles ?c) (i, j)) = Vec3 (Fin (px + real j * ?dx)) (Fin (py - real i * ?dy)) (Fin pz)"
    if "i < W" "j < H" for i j
    using that by (simp add: position_pinAll meshParticles_position [OF W2 H2])
  have sp: "springs ?c = meshSprings (Fin ?dx) (Fin ?dy) W H"
    by (simp add: spacing_finite(1) [OF W2] spacing_finite(2) [OF H2])
  have rest: "validRef (particles ?c) (p0 s) \<and> validRef (particles ?c) (p1 s) \<and> Fin 0 < restLength s
                  \<and> magnitude (position (getP (particles ?c) (p0 s)) - position (getP (particles ?c) (p1 s)))
                      = restLength s"
    if "s \<in> set (concat (springs ?c))" for s
    using that unfolding sp
    by (intro mesh_spring_at_rest [OF pos r spacing_finite(3) [OF W2] spacing_finite(3) [OF H2] assms(1)])
  have q: "pinsQueued ?c"
    by (rule pinsQueued_constructed [of _ "pinColumns W" ?pos W H]) simp_all
  have fixd: "satisfyConstraints ?c = ?c"
  proof -
    have "relaxAll (springs ?c) (particles ?c) = particles ?c"
      using rest by (intro relaxAll_rest) blast
    then have "(relaxAll (springs ?c) ^^ m) (particles ?c) = particles ?c" for m
      by (induction m) simp_all
    then show ?thesis
      by (simp add: satisfyConstraints_def satisfyConstraintsN_def)
  qed
  show ?thesis
    using new r cnt pos rest q fixd by blast
qed

lemma ClothSheet_new_wide:
  assumes "3 \<le> H" and "H < W"
  shows "ClothSheet_new pos W H = None"
proof -
  let ?f = "\<lambda>p. p\<lparr>pinned := True\<rparr>"
  let ?p0 = "meshParticles pos W H"
  let ?p1 = "updP (0, 0) ?f ?p0"
  let ?p2 = "updP (0, 1) ?f ?p1"
  let ?p3 = "updP (0, 2) ?f ?p2"
  have r: "rect ?p0 W H" "rect ?p1 W H" "rect ?p2 W H" "rect ?p3 W H"
    by (simp_all add: rect_updP rect_meshParticles)
  have len: "length ?p3 = W"
    using r by (simp add: rect_def)
  have u: "usub W 1 = W - 1"
    using assms by (simp add: usub_ge)
  have W0: "0 < W" using assms by simp
  have c: "0 < H" "1 < H" "2 < H" "\<not> W - 1 < H"
    using assms by simp_all
  have g: "generateParticleSheet pos W H
             = Some (?p0, map (map Some) (meshSprings (xSpacingOf W) (ySpacingOf H) W H))"
    using assms by (intro generateParticleSheet_mesh) simp_all
  have s1: "pin 0 (?p0, []) = Some (?p1, [(0, 0)])"
    using pin_ok [OF r(1) W0 c(1), of "[]"] by simp
  have s2: "pin 1 (?p1, [(0, 0)]) = Some (?p2, [(0, 0), (0, 1)])"
    using pin_ok [OF r(2) W0 c(2), of "[(0, 0)]"] by simp
  have s3: "pin 2 (?p2, [(0, 0), (0, 1)]) = Some (?p3, [(0, 0), (0, 1), (0, 2)])"
    using pin_ok [OF r(3) W0 c(3), of "[(0, 0), (0, 1)]"] by simp
  have s4: "pin (W - 1) (?p3, [(0, 0), (0, 1), (0, 2)]) = None"
    by (rule pin_fail [OF r(4) W0 c(4)])
  show ?thesis
    unfolding ClothSheet_new_def g Option.bind.bind_lunit prod.case initialisedRows_map_Some
      s1 fst_conv snd_conv s2 s3 len u s4 Option.bind.bind_lzero ..
qed

section \<open>C7: the generated mesh\<close>

text \<open>
  C7. \<^verbatim>\<open>ClothSheet(position, color, W, H)\<close> returns a cloth when \<open>4 \<le> W \<le> H\<close> (for
  \<open>3 \<le> H < W\<close> the pinning of the right corner throws). The mesh has \<open>W\<close> rows of \<open>H\<close>
  particles, \<open>W * H\<close> in all. Along a row the \<open>H\<close> particles are \<open>2 / (W - 1)\<close> apart in \<open>x\<close>,
  and the \<open>W\<close> rows are \<open>2 / (H - 1)\<close> apart in \<open>y\<close>: each spacing is computed from the
  particle count of the other axis, so it is \<open>2 / (count - 1)\<close> for its own axis only in a
  square mesh. Every spring (structural, shear or bend) joins two particles of the grid, no
  slot referring to a particle out of range, and its rest length is positive and equal to
  the distance between the two particles it joins, so that the generated mesh is a fixed
  point of the constraint relaxation; every pinned particle is queued.
\<close>

theorem generated_mesh_spacing:
  assumes "4 \<le> W" and "W \<le> H"
  shows "\<exists>c. ClothSheet_new (Vec3 (Fin px) (Fin py) (Fin pz)) W H = Some c
           \<and> map length (particles c) = replicate W H
           \<and> length (concat (particles c)) = W * H
           \<and> (\<forall>i<W. \<forall>j<H. position (getP (particles c) (i, j))
                  = Vec3 (Fin (px + real j * (2 / (real W - 1)))) (Fin (py - real i * (2 / (real H - 1)))) (Fin pz))
           \<and> (\<forall>s \<in> set (concat (springs c)).
                  validRef (particles c) (p0 s) \<and> validRef (particles c) (p1 s) \<and> Fin 0 < restLength s
                  \<and> magnitude (position (getP (particles c) (p0 s)) - position (getP (particles c) (p1 s)))
                      = restLength s)
           \<and> pinsQueued c
           \<and> satisfyConstraints c = c"
  using constructed_mesh [OF assms, of px py pz] unfolding rect_iff .

text \<open>
  The mesh of \<^verbatim>\<open>ClothSheet(position, color, 4, 5)\<close> at \<open>(-1, 1, -2)\<close>: twenty particles in
  four rows of five; the five particles of a row are \<open>2 / 3\<close> apart and span \<open>8 / 3\<close> in \<open>x\<close>,
  the four rows are \<open>1 / 2\<close> apart and span \<open>3 / 2\<close> in \<open>y\<close>. With the two counts exchanged the
  constructor throws.
\<close>

theorem generated_mesh_spacing_witness:
  "(\<exists>c. ClothSheet_new (Vec3 (Fin (- 1)) (Fin 1) (Fin (- 2))) 4 5 = Some c
        \<and> map length (particles c) = [5, 5, 5, 5]
        \<and> length (concat (particles c)) = 20
        \<and> position (getP (particles c) (0, 0)) = Vec3 (Fin (- 1)) (Fin 1) (Fin (- 2))
        \<and> position (getP (particles c) (0, 1)) = Vec3 (Fin (- (1 / 3))) (Fin 1) (Fin (- 2))
        \<and> position (getP (particles c) (0, 4)) = Vec3 (Fin (5 / 3)) (Fin 1) (Fin (- 2))
        \<and> position (getP (particles c) (1, 0)) = Vec3 (Fin (- 1)) (Fin (1 / 2)) (Fin (- 2))
        \<and> position (getP (particles c) (3, 0)) = Vec3 (Fin (- 1)) (Fin (- (1 / 2))) (Fin (- 2))
        \<and> satisfyConstraints c = c)
   \<and> ClothSheet_new (Vec3 (Fin (- 1)) (Fin 1) (Fin (- 2))) 5 4 = None"
proof -
  obtain c where c: "ClothSheet_new (Vec3 (Fin (- 1)) (Fin 1) (Fin (- 2))) 4 5 = Some c"
      "map length (particles c) = replicate 4 5" "length (concat (particles c)) = 4 * 5"
      "\<forall>i<4. \<forall>j<5. position (getP (particles c) (i, j))
                  = Vec3 (Fin (- 1 + real j * (2 / (real (4::nat) - 1)))) (Fin (1 - real i * (2 / (real (5::nat) - 1)))) (Fin (- 2))"
      "satisfyConstraints c = c"
    using generated_mesh_spacing [of 4 5 "- 1" 1 "- 2"] by auto
  have p: "position (getP (particles c) (i, j))
                  = Vec3 (Fin (- 1 + real j * (2 / 3))) (Fin (1 - real i * (1 / 2))) (Fin (- 2))"
    if "i < 4" "j < 5" for i j
    using c(4) that by simp
  have l: "map length (particles c) = [5, 5, 5, 5]"
    unfolding c(2) by (simp add: numeral_eq_Suc)
  have w: "ClothSheet_new (Vec3 (Fin (- 1)) (Fin 1) (Fin (- 2))) 5 4 = None"
    by (rule ClothSheet_new_wide) simp_all
  show ?thesis
    using c(1,3,5) l p [of 0 0] p [of 0 1] p [of 0 4] p [of 1 0] p [of 3 0] w by simp
qed


end
